theory Spec2Isabelle
  imports Main "HOL-Library.Word"
begin

unbundle bit_operations_syntax

section \<open>Honey vending driver (xdrv\_99): data model\<close>

text \<open>
  The driver is the full variant of the source (coin counting, per-box pricing, solenoid
  locks, stepper coin gate, LCD, button expander).  Its C integers are modelled with their
  widths: \<open>uint8_t\<close>, \<open>uint16_t\<close>, \<open>uint32_t\<close> are words, \<open>int16_t\<close> is a 16-bit
  word read with \<open>sint\<close>.  \<open>AddLog\<close> only writes the device log and is left out of the
  model; every other effect of a function is a field of the state it returns.
\<close>

type_synonym u8 = "8 word"
type_synonym u16 = "16 word"
type_synonym u32 = "32 word"
type_synonym i16 = "16 word"

subsection \<open>Compile-time constants\<close>

definition SHIFT_REG_DATA_PIN :: nat where "SHIFT_REG_DATA_PIN = 23"
definition SHIFT_REG_CLOCK_PIN :: nat where "SHIFT_REG_CLOCK_PIN = 18"
definition SHIFT_REG_LATCH_PIN :: nat where "SHIFT_REG_LATCH_PIN = 4"
definition NUM_SHIFT_REGISTERS :: nat where "NUM_SHIFT_REGISTERS = 4"
definition UNLOCK_DURATION_MS :: u32 where "UNLOCK_DURATION_MS = 60000"
definition SOLENOID_ACTIVE_HIGH :: bool where "SOLENOID_ACTIVE_HIGH = True"
definition COIN_TIMEOUT_MS :: u32 where "COIN_TIMEOUT_MS = 200"
definition DEFAULT_PRICE_CENTS :: u32 where "DEFAULT_PRICE_CENTS = 500"
definition PULSE_DEBOUNCE_MS :: u32 where "PULSE_DEBOUNCE_MS = 5"
definition MAX_HONEY_BOX_COUNT :: nat where "MAX_HONEY_BOX_COUNT = 30"
definition HONEY_SETTINGS_INDEX :: nat where "HONEY_SETTINGS_INDEX = 20"
definition HONEY_TIMESTAMP_INDEX :: nat where "HONEY_TIMESTAMP_INDEX = 21"
definition HONEY_BOX_COUNT_INDEX :: nat where "HONEY_BOX_COUNT_INDEX = 22"
definition HONEY_PRICE_INDEX :: nat where "HONEY_PRICE_INDEX = 23"
definition MOTOR_STEP_PIN :: nat where "MOTOR_STEP_PIN = 25"
definition MOTOR_DIR_PIN :: nat where "MOTOR_DIR_PIN = 26"
definition MOTOR_ENABLE_PIN :: nat where "MOTOR_ENABLE_PIN = 27"
definition MOTOR_STEPS_PER_REV :: nat where "MOTOR_STEPS_PER_REV = 200"
definition MOTOR_STEP_DELAY_US :: nat where "MOTOR_STEP_DELAY_US = 2000"
definition MOTOR_45DEG_STEPS :: nat where
  "MOTOR_45DEG_STEPS = (MOTOR_STEPS_PER_REV * 45) div 360"
definition LCD_COLS :: nat where "LCD_COLS = 16"
definition LCD_ROWS :: nat where "LCD_ROWS = 2"

subsection \<open>Text formatting (the conversions of \<open>snprintf\<close> the driver uses)\<close>

definition digit_char :: "nat \<Rightarrow> char" where
  "digit_char d = ''0123456789ABCDEF'' ! d"

function to_base :: "nat \<Rightarrow> nat \<Rightarrow> string" where
  "to_base b n =
     (if b < 2 \<or> n < b then [digit_char n] else to_base b (n div b) @ [digit_char (n mod b)])"
  by pat_completeness auto
termination
  by (relation "measure (\<lambda>(b, n). n)") auto

declare to_base.simps [simp del]

text \<open>\<open>%0<w>...\<close>: pad on the left with zeros up to the width.\<close>

definition zero_pad :: "nat \<Rightarrow> string \<Rightarrow> string" where
  "zero_pad w t = replicate (w - length t) (CHR ''0'') @ t"

text \<open>\<open>%d\<close> and \<open>%lu\<close> on a value that is not negative.\<close>

definition fmt_dec :: "nat \<Rightarrow> string" where
  "fmt_dec n = to_base 10 n"

text \<open>\<open>%04X\<close> and \<open>%08lX\<close>.\<close>

definition fmt_hex :: "nat \<Rightarrow> nat \<Rightarrow> string" where
  "fmt_hex w n = zero_pad w (to_base 16 n)"

text \<open>\<open>snprintf(buf, size, ...)\<close> keeps at most \<open>size - 1\<close> bytes of the formatted text.\<close>

definition snprintf :: "nat \<Rightarrow> string \<Rightarrow> string" where
  "snprintf sz t = take (sz - 1) t"

text \<open>The euro sign of the source text is the three bytes E2 82 AC of its UTF-8 encoding.\<close>

definition euro_sign :: string where
  "euro_sign = [CHR 0xE2, CHR 0x82, CHR 0xAC]"


text \<open>\<open>CentsToEuroString\<close>: the buffer contents after the call.\<close>

definition CentsToEuroString :: "u32 \<Rightarrow> nat \<Rightarrow> string" where
  "CentsToEuroString cents len =
     (let euros = cents div 100; cents_part = cents mod 100
      in snprintf len (euro_sign @ fmt_dec (unat euros) @ ''.'' @
                       zero_pad 2 (fmt_dec (unat cents_part))))"

subsection \<open>The host platform, as far as the driver uses it\<close>

text \<open>
  The response buffer of the host holds the text of the last \<open>Response_P\<close> call.  Its JSON
  layouts are kept symbolic: one constructor per call site, carrying the arguments of the
  format.  \<open>Raw\<close> is text the driver did not write; \<open>Raw []\<close> is the empty buffer.
\<close>

datatype payload =
    Raw string
  | DiscoveryBoxJson nat string u32 string
  | DiscoveryAvailableJson u32 string
  | DiscoveryTotalJson u32 string
  | BoxJson u8 bool u32 string u32
  | SummaryJson nat nat nat
  | SystemJson u32 string u32 string u8 u32 bool u8
  | CmndDone
  | CmndError
  | SelectedBoxJson u8 string u32
  | BoxEmptyErrorJson u8
  | DeselectedJson

record mqtt_msg =
  topic :: string
  body :: payload
  retained :: bool

datatype pin_event = DigitalWrite nat bool | DelayMicroseconds nat

subsection \<open>The machine state\<close>

text \<open>
  The fields up to \<open>last_button_state\<close> are the members of the C struct \<open>vending\<close>, in
  the order of the source; the arrays are lists of their declared length.  The rest are the
  two static variables of the driver and the state of the host and of the peripherals that
  the driver reads or writes: the MQTT link, the response buffer, the messages handed to the
  broker (oldest first), the text slots of the settings store, the device name, the writes
  to the GPIO pins (oldest first) and the visible characters of the two LCD rows.
\<close>

record machine =
  pulse_count :: u32
  last_pulse_ms :: u32
  first_pulse_ms :: u32
  total_cents :: u32
  last_coin_cents :: u32
  coins_detected :: u32
  honey_available :: bool
  initialized :: bool
  box_count :: u8
  selected_box_id :: u8
  box_status :: "bool list"
  box_price :: "u32 list"
  box_last_changed :: "u32 list"
  last_publish_ms :: u32
  discovery_sent :: bool
  device_id :: u32
  shift_reg_state :: "u32 list"
  unlock_start_ms :: u32
  unlocked_box_id :: u8
  lcd_initialized :: bool
  mcp_initialized :: bool
  last_button_state :: u16
  motor_position_offset :: i16
  last_check :: u32
  mqtt_connected :: bool
  response :: payload
  mqtt_out :: "mqtt_msg list"
  settings :: "nat \<Rightarrow> string"
  device_name :: string
  gpio :: "pin_event list"
  lcd_rows :: "string list"


subsection \<open>Host calls\<close>

text \<open>
  \<open>MqttPublish(topic, retained)\<close> sends the current contents of the response buffer as the
  message body: every publishing function of the driver fills the buffer with \<open>Response_P\<close>
  and then calls it.  A host without a broker connection has nobody to hand the message to.
\<close>

definition MqttPublish :: "string \<Rightarrow> bool \<Rightarrow> machine \<Rightarrow> machine" where
  "MqttPublish tp ret s =
     (if mqtt_connected s
      then s\<lparr>mqtt_out := mqtt_out s @ [\<lparr>topic = tp, body = response s, retained = ret\<rparr>]\<rparr>
      else s)"

definition Response_P :: "payload \<Rightarrow> machine \<Rightarrow> machine" where
  "Response_P p s = s\<lparr>response := p\<rparr>"

definition ResponseCmndDone :: "machine \<Rightarrow> machine" where
  "ResponseCmndDone s = Response_P CmndDone s"

definition ResponseCmndError :: "machine \<Rightarrow> machine" where
  "ResponseCmndError s = Response_P CmndError s"

definition SettingsUpdateText :: "nat \<Rightarrow> string \<Rightarrow> machine \<Rightarrow> machine" where
  "SettingsUpdateText idx t s = s\<lparr>settings := (settings s)(idx := t)\<rparr>"

text \<open>The command line handed to a command handler (\<open>XdrvMailbox\<close>).\<close>

record mailbox =
  data_len :: nat
  data :: string

text \<open>
  \<open>atoi\<close>: leading white space, an optional sign, then decimal digits up to the first other
  character; 0 when there is no digit.  It is \<open>(int) strtol(s, NULL, 10)\<close>: digits whose
  value lies outside the range of \<open>long\<close> give \<open>LONG_MAX\<close> or \<open>LONG_MIN\<close>, and
  the conversion to \<open>int\<close> keeps the low 32 bits.  On the ESP targets of the firmware
  \<open>long\<close> has 32 bits.
\<close>

definition is_space :: "char \<Rightarrow> bool" where
  "is_space c = ((of_char c :: nat) = 32 \<or> (9 \<le> (of_char c :: nat) \<and> (of_char c :: nat) \<le> 13))"

definition is_digit :: "char \<Rightarrow> bool" where
  "is_digit c = (48 \<le> (of_char c :: nat) \<and> (of_char c :: nat) \<le> 57)"

fun atoi_digits :: "int \<Rightarrow> string \<Rightarrow> int" where
  "atoi_digits acc [] = acc"
| "atoi_digits acc (c # cs) =
     (if is_digit c then atoi_digits (acc * 10 + (of_char c - 48)) cs else acc)"

definition LONG_BITS :: nat where "LONG_BITS = 32"

definition strtol_range :: "int \<Rightarrow> int" where
  "strtol_range x = max (- (2 ^ (LONG_BITS - 1))) (min (2 ^ (LONG_BITS - 1) - 1) x)"

definition atoi :: "string \<Rightarrow> int" where
  "atoi t =
     sint (word_of_int
       (strtol_range
          (case dropWhile is_space t of
             [] \<Rightarrow> 0
           | c # cs \<Rightarrow>
               if c = CHR ''-'' then - atoi_digits 0 cs
               else if c = CHR ''+'' then atoi_digits 0 cs
               else atoi_digits 0 (c # cs))) :: 32 word)"

section \<open>MQTT functions\<close>

definition discovery_box_topic :: "string \<Rightarrow> nat \<Rightarrow> string" where
  "discovery_box_topic dn i =
     snprintf 128 (''homeassistant/binary_sensor/'' @ dn @ ''_box'' @ fmt_dec i @ ''/config'')"

definition HoneyVending_PublishDiscovery :: "machine \<Rightarrow> machine" where
  "HoneyVending_PublishDiscovery s =
     (if \<not> mqtt_connected s then s
      else
        let dn = snprintf 64 (device_name s);
            dev = unat (device_id s);
            s1 = fold (\<lambda>i st.
                   let unique_id = snprintf 64 (''honey_'' @ fmt_hex 4 dev @ ''_box_'' @ fmt_dec i);
                       tp = discovery_box_topic dn i
                   in MqttPublish tp True
                        (Response_P (DiscoveryBoxJson i unique_id (device_id st) dn) st))
                   [1..<Suc (unat (box_count s))] s;
            s2 = MqttPublish (snprintf 128 (''homeassistant/sensor/'' @ dn @ ''_boxes_available/config''))
                   True (Response_P (DiscoveryAvailableJson (device_id s1) dn) s1);
            s3 = MqttPublish (snprintf 128 (''homeassistant/sensor/'' @ dn @ ''_vending_total/config''))
                   True (Response_P (DiscoveryTotalJson (device_id s2) dn) s2)
        in s3\<lparr>discovery_sent := True\<rparr>)"

definition box_topic :: "u32 \<Rightarrow> u8 \<Rightarrow> string" where
  "box_topic dev box_id =
     snprintf 64 (''beekeeper_'' @ fmt_hex 4 (unat dev) @ ''/honey/all_boxes/box_'' @
                  fmt_dec (unat box_id))"

text \<open>
  The time stamp of a box is rendered by the host's \<open>BreakTime\<close>; the payload keeps the
  time stamp itself.
\<close>

definition HoneyVending_PublishBoxMQTT :: "u8 \<Rightarrow> machine \<Rightarrow> machine" where
  "HoneyVending_PublishBoxMQTT box_id s =
     (if box_id < 1 \<or> box_id > box_count s then s
      else if \<not> mqtt_connected s then s
      else
        let has_honey = box_status s ! (unat box_id - 1);
            timestamp = box_last_changed s ! (unat box_id - 1);
            price_cents = box_price s ! (unat box_id - 1);
            price_str = CentsToEuroString price_cents 16
        in MqttPublish (box_topic (device_id s) box_id) True
             (Response_P (BoxJson box_id has_honey price_cents price_str timestamp) s))"

definition summary_topic :: "u32 \<Rightarrow> string" where
  "summary_topic dev = snprintf 64 (''beekeeper_'' @ fmt_hex 4 (unat dev) @ ''/honey/summary'')"

definition system_topic :: "u32 \<Rightarrow> string" where
  "system_topic dev = snprintf 64 (''beekeeper_'' @ fmt_hex 4 (unat dev) @ ''/honey/system'')"

definition available_count :: "machine \<Rightarrow> nat" where
  "available_count s =
     fold (\<lambda>i n. if box_status s ! i then n + 1 else n) [0..<unat (box_count s)] 0"

definition empty_count :: "machine \<Rightarrow> nat" where
  "empty_count s =
     fold (\<lambda>i n. if box_status s ! i then n else n + 1) [0..<unat (box_count s)] 0"

definition HoneyVending_PublishAllBoxesMQTT :: "u32 \<Rightarrow> machine \<Rightarrow> machine" where
  "HoneyVending_PublishAllBoxesMQTT now s =
     (if \<not> mqtt_connected s then s
      else
        let s1 = fold (\<lambda>i st. HoneyVending_PublishBoxMQTT (of_nat i) st)
                   [1..<Suc (unat (box_count s))] s;
            s2 = Response_P (SummaryJson (unat (box_count s1)) (available_count s1) (empty_count s1)) s1;
            s3 = MqttPublish (summary_topic (device_id s2)) True s2
        in s3\<lparr>last_publish_ms := now\<rparr>)"

definition HoneyVending_PublishSystemMQTT :: "machine \<Rightarrow> machine" where
  "HoneyVending_PublishSystemMQTT s =
     (if \<not> mqtt_connected s then s
      else
        let total_str = CentsToEuroString (total_cents s) 16;
            target_cents =
              (if selected_box_id s > 0 \<and> selected_box_id s \<le> box_count s
               then box_price s ! (unat (selected_box_id s) - 1) else 0);
            target_str = CentsToEuroString target_cents 16
        in MqttPublish (system_topic (device_id s)) True
             (Response_P (SystemJson (total_cents s) total_str target_cents target_str
                            (selected_box_id s) (coins_detected s) (honey_available s)
                            (box_count s)) s))"

section \<open>Persistent storage functions\<close>

definition HoneyVending_SaveBoxCount :: "machine \<Rightarrow> machine" where
  "HoneyVending_SaveBoxCount s =
     SettingsUpdateText HONEY_BOX_COUNT_INDEX
       (snprintf 10 (''C'' @ zero_pad 2 (fmt_dec (unat (box_count s))))) s"

text \<open>
  The list writers append to a 512-byte buffer, entry by entry; with at most 30 boxes the
  text always fits.
\<close>

definition HoneyVending_SavePrices :: "machine \<Rightarrow> machine" where
  "HoneyVending_SavePrices s =
     (let price_buffer =
            fold (\<lambda>i buf. buf @ (if i > 0 then '','' else []) @ fmt_dec (unat (box_price s ! i)))
              [0..<unat (box_count s)] ''P:''
      in SettingsUpdateText HONEY_PRICE_INDEX (snprintf 512 price_buffer) s)"

definition pack_status :: "machine \<Rightarrow> u32" where
  "pack_status s =
     fold (\<lambda>i packed. if box_status s ! i then packed OR push_bit i 1 else packed)
       [0..<unat (box_count s)] 0"

definition HoneyVending_SaveStatus :: "machine \<Rightarrow> machine" where
  "HoneyVending_SaveStatus s =
     (let packed = pack_status s;
          buffer = snprintf 16 (''H'' @ fmt_hex 8 (unat packed));
          s1 = SettingsUpdateText HONEY_SETTINGS_INDEX buffer s;
          ts_buffer =
            fold (\<lambda>i buf. buf @ (if i > 0 then '','' else []) @
                            fmt_dec (unat (box_last_changed s1 ! i)))
              [0..<unat (box_count s1)] ''T:''
      in SettingsUpdateText HONEY_TIMESTAMP_INDEX (snprintf 512 ts_buffer) s1)"


section \<open>Box inventory and pricing\<close>

definition HoneyVending_CleanupOldBoxes :: "u8 \<Rightarrow> u8 \<Rightarrow> machine \<Rightarrow> machine" where
  "HoneyVending_CleanupOldBoxes old_count new_count s =
     (if new_count \<ge> old_count then s
      else if \<not> mqtt_connected s then s
      else
        let dn = snprintf 64 (device_name s)
        in fold (\<lambda>i st. MqttPublish (discovery_box_topic dn i) True st)
             [unat new_count + 1..<Suc (unat old_count)] s)"

definition HoneyVending_SetBoxCount :: "u32 \<Rightarrow> u32 \<Rightarrow> u8 \<Rightarrow> machine \<Rightarrow> machine" where
  "HoneyVending_SetBoxCount now utc count s =
     (if count < 1 \<or> unat count > MAX_HONEY_BOX_COUNT then s
      else
        let old_count = box_count s;
            s1 = s\<lparr>box_count := count\<rparr>;
            s2 = (if count > old_count
                  then fold (\<lambda>i st. st\<lparr>box_status := (box_status st)[i := False],
                                         box_last_changed := (box_last_changed st)[i := utc],
                                         box_price := (box_price st)[i := DEFAULT_PRICE_CENTS]\<rparr>)
                         [unat old_count..<unat count] s1
                  else s1);
            s3 = HoneyVending_SavePrices (HoneyVending_SaveStatus (HoneyVending_SaveBoxCount s2));
            s4 = s3\<lparr>discovery_sent := False\<rparr>
        in if mqtt_connected s4
           then HoneyVending_PublishSystemMQTT
                  (HoneyVending_PublishAllBoxesMQTT now
                     (HoneyVending_PublishDiscovery
                        (HoneyVending_CleanupOldBoxes old_count count s4)))
           else s4)"

definition HoneyVending_SetStatus :: "u32 \<Rightarrow> u8 \<Rightarrow> bool \<Rightarrow> machine \<Rightarrow> machine" where
  "HoneyVending_SetStatus utc box_id has_honey s =
     (if box_id < 1 \<or> box_id > box_count s then s
      else
        let s1 = s\<lparr>box_status := (box_status s)[unat box_id - 1 := has_honey],
                   box_last_changed := (box_last_changed s)[unat box_id - 1 := utc]\<rparr>;
            s2 = HoneyVending_SaveStatus s1;
            s3 = HoneyVending_PublishBoxMQTT box_id s2;
            s4 = Response_P (SummaryJson (unat (box_count s3)) (available_count s3)
                               (unat (box_count s3) - available_count s3)) s3
        in MqttPublish (summary_topic (device_id s4)) True s4)"

definition HoneyVending_SetPrice :: "u8 \<Rightarrow> u32 \<Rightarrow> machine \<Rightarrow> machine" where
  "HoneyVending_SetPrice box_id price_cents s =
     (if box_id < 1 \<or> box_id > box_count s then s
      else if price_cents < 10 \<or> price_cents > 10000 then s
      else
        let s1 = s\<lparr>box_price := (box_price s)[unat box_id - 1 := price_cents]\<rparr>;
            s2 = HoneyVending_SavePrices s1
        in HoneyVending_PublishBoxMQTT box_id s2)"

definition HoneyVending_GetPrice :: "u8 \<Rightarrow> machine \<Rightarrow> u32" where
  "HoneyVending_GetPrice box_id s =
     (if box_id < 1 \<or> box_id > box_count s then DEFAULT_PRICE_CENTS
      else box_price s ! (unat box_id - 1))"

text \<open>\<open>HoneyVending_DisplayValues\<close> only writes the log; it has no counterpart here.\<close>

definition HoneyVending_SelectBox :: "u8 \<Rightarrow> machine \<Rightarrow> machine" where
  "HoneyVending_SelectBox box_id s =
     (if box_id < 1 \<or> box_id > box_count s then s
      else if \<not> box_status s ! (unat box_id - 1) then s
      else
        HoneyVending_PublishSystemMQTT
          (s\<lparr>selected_box_id := box_id, total_cents := 0, coins_detected := 0,
              honey_available := False\<rparr>))"

section \<open>Command functions\<close>

definition CmndVendingSelectBox :: "mailbox \<Rightarrow> machine \<Rightarrow> machine" where
  "CmndVendingSelectBox mb s =
     (let box_id = (word_of_int (atoi (data mb)) :: u8)
      in if data_len mb > 0 \<and> box_id \<ge> 1 \<and> box_id \<le> box_count s
         then
           if box_status s ! (unat box_id - 1)
           then
             let s1 = HoneyVending_SelectBox box_id s;
                 price = HoneyVending_GetPrice box_id s1
             in Response_P (SelectedBoxJson box_id (CentsToEuroString price 16) price) s1
           else Response_P (BoxEmptyErrorJson box_id) s
         else
           Response_P DeselectedJson
             (s\<lparr>selected_box_id := 0, total_cents := 0, coins_detected := 0,
                 honey_available := False\<rparr>))"

definition CmndVendingReset :: "machine \<Rightarrow> machine" where
  "CmndVendingReset s =
     ResponseCmndDone
       (HoneyVending_PublishSystemMQTT
          (s\<lparr>total_cents := 0, coins_detected := 0, honey_available := False,
              pulse_count := 0, selected_box_id := 0\<rparr>))"

section \<open>Coin detection\<close>

definition HoneyVending_PulseISR :: "u32 \<Rightarrow> machine \<Rightarrow> machine" where
  "HoneyVending_PulseISR now s =
     (if pulse_count s > 0 \<and> now - last_pulse_ms s < PULSE_DEBOUNCE_MS then s
      else
        let s1 = (if pulse_count s = 0 then s\<lparr>first_pulse_ms := now\<rparr> else s)
        in s1\<lparr>pulse_count := pulse_count s1 + 1, last_pulse_ms := now\<rparr>)"

definition PulsesToCents :: "u32 \<Rightarrow> u32" where
  "PulsesToCents pulses =
     (if pulses = 1 then 10
      else if pulses = 2 then 20
      else if pulses = 5 then 50
      else if pulses = 10 then 100
      else if pulses = 20 then 200
      else 0)"

section \<open>Shift register and lock control\<close>

definition ShiftReg_Write :: "u32 list \<Rightarrow> nat \<Rightarrow> machine \<Rightarrow> machine" where
  "ShiftReg_Write dat num_registers s =
     s\<lparr>gpio := gpio s @ [DigitalWrite SHIFT_REG_LATCH_PIN False] @
          concat (map (\<lambda>reg. concat (map (\<lambda>b.
                    [DigitalWrite SHIFT_REG_CLOCK_PIN False,
                     DigitalWrite SHIFT_REG_DATA_PIN (bit (dat ! reg) b),
                     DigitalWrite SHIFT_REG_CLOCK_PIN True]) (rev [0..<8])))
                  (rev [0..<num_registers])) @
          [DigitalWrite SHIFT_REG_LATCH_PIN True, DigitalWrite SHIFT_REG_LATCH_PIN False]\<rparr>"

definition ShiftReg_SetBit :: "u8 \<Rightarrow> bool \<Rightarrow> machine \<Rightarrow> machine" where
  "ShiftReg_SetBit bit_position state s =
     (if unat bit_position \<ge> NUM_SHIFT_REGISTERS * 8 then s
      else
        let register_index = unat bit_position div 8;
            bit_index = unat bit_position mod 8;
            r = shift_reg_state s ! register_index;
            s1 = s\<lparr>shift_reg_state := (shift_reg_state s)
                     [register_index := (if state then r OR push_bit bit_index 1
                                         else r AND NOT (push_bit bit_index 1))]\<rparr>
        in ShiftReg_Write (shift_reg_state s1) NUM_SHIFT_REGISTERS s1)"

definition LockBoxKey :: "u8 \<Rightarrow> machine \<Rightarrow> machine" where
  "LockBoxKey box_id s =
     (if box_id < 1 \<or> box_id > box_count s then s
      else
        let bit_position = box_id - 1;
            s1 = ShiftReg_SetBit bit_position (\<not> SOLENOID_ACTIVE_HIGH) s
        in if unlocked_box_id s1 = box_id
           then s1\<lparr>unlocked_box_id := 0, unlock_start_ms := 0\<rparr>
           else s1)"

definition UnlockBoxKey :: "u32 \<Rightarrow> u8 \<Rightarrow> machine \<Rightarrow> machine" where
  "UnlockBoxKey now box_id s =
     (if box_id < 1 \<or> box_id > box_count s then s
      else if unat box_id > NUM_SHIFT_REGISTERS * 8 then s
      else
        let s1 = (if unlocked_box_id s > 0 then LockBoxKey (unlocked_box_id s) s else s);
            bit_position = box_id - 1;
            s2 = ShiftReg_SetBit bit_position SOLENOID_ACTIVE_HIGH s1
        in s2\<lparr>unlocked_box_id := box_id, unlock_start_ms := now\<rparr>)"

definition LockAllBoxes :: "machine \<Rightarrow> machine" where
  "LockAllBoxes s =
     (let s1 = fold (\<lambda>i st. st\<lparr>shift_reg_state := (shift_reg_state st)
                       [i := (if SOLENOID_ACTIVE_HIGH then 0x00000000 else 0xFFFFFFFF)]\<rparr>)
                 [0..<NUM_SHIFT_REGISTERS] s;
          s2 = ShiftReg_Write (shift_reg_state s1) NUM_SHIFT_REGISTERS s1
      in s2\<lparr>unlocked_box_id := 0, unlock_start_ms := 0\<rparr>)"

definition CheckUnlockTimeout :: "u32 \<Rightarrow> machine \<Rightarrow> machine" where
  "CheckUnlockTimeout now s =
     (if unlocked_box_id s > 0
      then
        let elapsed = now - unlock_start_ms s
        in if elapsed \<ge> UNLOCK_DURATION_MS then LockBoxKey (unlocked_box_id s) s else s
      else s)"

definition HoneyVending_HoneyAvailable :: "u32 \<Rightarrow> u32 \<Rightarrow> machine \<Rightarrow> machine" where
  "HoneyVending_HoneyAvailable now utc s =
     (if selected_box_id s > 0
      then
        let s1 = UnlockBoxKey now (selected_box_id s) s;
            s2 = HoneyVending_PublishSystemMQTT s1;
            s3 = HoneyVending_SetStatus utc (selected_box_id s2) False s2
        in CmndVendingReset s3
      else s)"


section \<open>Stepper motor (coin gate)\<close>

datatype MotorAction_t = COIN_ACCEPT | COIN_REJECT | MOTOR_RESET

definition Motor_Rotate :: "u16 \<Rightarrow> bool \<Rightarrow> machine \<Rightarrow> machine" where
  "Motor_Rotate steps clockwise s =
     (if steps = 0 then s
      else
        s\<lparr>gpio := gpio s @
             [DigitalWrite MOTOR_DIR_PIN clockwise,
              DigitalWrite MOTOR_ENABLE_PIN False,
              DelayMicroseconds 10] @
             concat (replicate (unat steps)
               [DigitalWrite MOTOR_STEP_PIN True, DelayMicroseconds MOTOR_STEP_DELAY_US,
                DigitalWrite MOTOR_STEP_PIN False, DelayMicroseconds MOTOR_STEP_DELAY_US]) @
             [DigitalWrite MOTOR_ENABLE_PIN True]\<rparr>)"

text \<open>
  \<open>motor_position_offset\<close> is an \<open>int16_t\<close>: the compound assignments compute in \<open>int\<close> and
  store the low 16 bits.  In \<open>MOTOR_RESET\<close> the absolute value is computed in \<open>int\<close> and
  stored in a \<open>uint16_t\<close>.
\<close>

definition Motor_DoAction :: "MotorAction_t \<Rightarrow> machine \<Rightarrow> machine" where
  "Motor_DoAction action s =
     (case action of
        COIN_ACCEPT \<Rightarrow>
          (let s1 = Motor_Rotate (of_nat MOTOR_45DEG_STEPS) False s
           in s1\<lparr>motor_position_offset :=
                   word_of_int (sint (motor_position_offset s1) - int MOTOR_45DEG_STEPS)\<rparr>)
      | COIN_REJECT \<Rightarrow>
          (let s1 = Motor_Rotate (of_nat MOTOR_45DEG_STEPS) True s
           in s1\<lparr>motor_position_offset :=
                   word_of_int (sint (motor_position_offset s1) + int MOTOR_45DEG_STEPS)\<rparr>)
      | MOTOR_RESET \<Rightarrow>
          (if motor_position_offset s = 0 then s
           else
             let go_left = (sint (motor_position_offset s) > 0);
                 steps_back = (word_of_int
                                 (if sint (motor_position_offset s) < 0
                                  then - sint (motor_position_offset s)
                                  else sint (motor_position_offset s)) :: u16);
                 s1 = Motor_Rotate steps_back (\<not> go_left) s
             in s1\<lparr>motor_position_offset := 0\<rparr>))"

section \<open>LCD 1602\<close>

text \<open>
  C strings and buffers are byte lists; a string argument is the bytes before its terminator.
  \<open>strncpy(dest, src, n)\<close> copies the bytes of \<open>src\<close> and, when \<open>src\<close> is shorter than
  \<open>n\<close>, fills the rest of the \<open>n\<close> bytes with the terminator byte.
\<close>

definition NUL :: char where
  "NUL = CHR 0x00"

definition c_str :: "char list \<Rightarrow> string" where
  "c_str buf = takeWhile (\<lambda>c. c \<noteq> NUL) buf"

definition memset :: "char list \<Rightarrow> char \<Rightarrow> nat \<Rightarrow> char list" where
  "memset buf c n = replicate n c @ drop n buf"

definition strncpy :: "char list \<Rightarrow> string \<Rightarrow> nat \<Rightarrow> char list" where
  "strncpy dest src n = take n (c_str src @ replicate n NUL) @ drop n dest"

text \<open>
  The display: \<open>lcd.setCursor(col, row)\<close> followed by \<open>lcd.print(text)\<close> replaces the
  characters of that row from the column on, one per byte printed; the other characters of
  the screen stay as they are.
\<close>

definition lcd_print_at :: "nat \<Rightarrow> nat \<Rightarrow> string \<Rightarrow> string list \<Rightarrow> string list" where
  "lcd_print_at col row t rows =
     (if row < length rows
      then rows[row := take LCD_COLS
                         (take col (rows ! row) @ t @ drop (col + length t) (rows ! row))]
      else rows)"

definition LCD_padded :: "u8 \<Rightarrow> string \<Rightarrow> char list" where
  "LCD_padded col text =
     (let available = LCD_COLS - unat col;
          padded0 = replicate (LCD_COLS + 1) NUL;
          padded1 = memset padded0 (CHR '' '') LCD_COLS;
          padded2 = padded1[LCD_COLS := NUL];
          padded3 = strncpy padded2 text available
      in padded3[available := NUL])"

definition LCD_WriteText :: "u8 \<Rightarrow> u8 \<Rightarrow> string \<Rightarrow> machine \<Rightarrow> machine" where
  "LCD_WriteText row col text s =
     (if \<not> lcd_initialized s then s
      else if unat row \<ge> LCD_ROWS \<or> unat col \<ge> LCD_COLS then s
      else s\<lparr>lcd_rows := lcd_print_at (unat col) (unat row) (c_str (LCD_padded col text))
                            (lcd_rows s)\<rparr>)"

section \<open>MCP23017 buttons\<close>

text \<open>\<open>gpa\<close> and \<open>gpb\<close> are the bytes the two register reads of the expander return.\<close>

definition MCP23017_ReadButtons :: "u8 \<Rightarrow> u8 \<Rightarrow> machine \<Rightarrow> u16" where
  "MCP23017_ReadButtons gpa gpb s =
     (if \<not> mcp_initialized s then 0xFFFF
      else (ucast gpa :: u16) OR push_bit 8 (ucast gpb :: u16))"

section \<open>The 100 ms tick\<close>

text \<open>
  \<open>now\<close> is the value of \<open>millis()\<close> during the call and \<open>utc\<close> the value of
  \<open>Rtc.utc_time\<close>; \<open>last_check\<close> is the static variable of the handler.  The interrupt
  handler is not part of the model: the pulse fields are read as the tick finds them.
\<close>

definition coin_detected :: "u32 \<Rightarrow> u32 \<Rightarrow> u32 \<Rightarrow> machine \<Rightarrow> machine" where
  "coin_detected now utc coin_value s =
     (let s1 = s\<lparr>total_cents := total_cents s + coin_value,
                  last_coin_cents := coin_value,
                  coins_detected := coins_detected s + 1\<rparr>;
          total_str = CentsToEuroString (total_cents s1) 16;
          lcd_buf = snprintf (LCD_COLS + 1) (''Total: '' @ total_str);
          s2 = LCD_WriteText 1 0 lcd_buf s1;
          s3 = HoneyVending_PublishSystemMQTT s2
      in if selected_box_id s3 > 0 \<and> \<not> honey_available s3
         then
           let target_price = box_price s3 ! (unat (selected_box_id s3) - 1)
           in if total_cents s3 \<ge> target_price
              then HoneyVending_HoneyAvailable now utc (s3\<lparr>honey_available := True\<rparr>)
              else s3
         else s3)"

definition poll_buttons :: "u8 \<Rightarrow> u8 \<Rightarrow> machine \<Rightarrow> machine" where
  "poll_buttons gpa gpb s =
     (if mcp_initialized s
      then
        let current_state = MCP23017_ReadButtons gpa gpb s;
            newly_pressed = (NOT current_state) AND last_button_state s;
            s1 = (if newly_pressed \<noteq> 0
                  then fold (\<lambda>i st.
                         if bit newly_pressed i
                         then LCD_WriteText 1 0
                                (snprintf (LCD_COLS + 1)
                                   (''Button '' @ fmt_dec (i + 1) @ '' pressed '')) st
                         else st) [0..<16] s
                  else s)
        in s1\<lparr>last_button_state := current_state\<rparr>
      else s)"

definition HoneyVending_Every100ms :: "u32 \<Rightarrow> u32 \<Rightarrow> u8 \<Rightarrow> u8 \<Rightarrow> machine \<Rightarrow> machine" where
  "HoneyVending_Every100ms now utc gpa gpb s =
     (if \<not> initialized s then s
      else if now - last_check s < 100 then s
      else
        let s1 = s\<lparr>last_check := now\<rparr>;
            s2 = CheckUnlockTimeout now s1;
            s3 = (if pulse_count s2 > 0 \<and> now - last_pulse_ms s2 \<ge> COIN_TIMEOUT_MS
                  then
                    let pulses = pulse_count s2;
                        coin_value = PulsesToCents pulses;
                        s4 = (if coin_value > 0 then coin_detected now utc coin_value s2 else s2)
                    in s4\<lparr>pulse_count := 0\<rparr>
                  else s2)
        in poll_buttons gpa gpb s3)"


section \<open>Notions used in the statements\<close>

text \<open>
  The box count stays within 1 to 30 (\<open>HoneyVending_LoadBoxCount\<close> and
  \<open>HoneyVending_SetBoxCount\<close> accept nothing else) and the arrays have their declared
  lengths.
\<close>

definition well_formed :: "machine \<Rightarrow> bool" where
  "well_formed s \<longleftrightarrow>
     1 \<le> box_count s \<and> unat (box_count s) \<le> MAX_HONEY_BOX_COUNT \<and>
     length (box_status s) = MAX_HONEY_BOX_COUNT \<and>
     length (box_price s) = MAX_HONEY_BOX_COUNT \<and>
     length (box_last_changed s) = MAX_HONEY_BOX_COUNT \<and>
     length (shift_reg_state s) = NUM_SHIFT_REGISTERS"

text \<open>
  Output \<open>b - 1\<close> of the register chain drives the solenoid of box \<open>b\<close>; the box is
  unlocked while that bit of the mirror has the unlock polarity.
\<close>

definition box_unlocked :: "machine \<Rightarrow> nat \<Rightarrow> bool" where
  "box_unlocked s b \<longleftrightarrow>
     (bit (shift_reg_state s ! ((b - 1) div 8)) ((b - 1) mod 8) = SOLENOID_ACTIVE_HIGH)"

text \<open>
  What the lock functions maintain: every output that has the unlock polarity belongs to
  the tracked box, and the tracked box, if any, lies within the box count and the 32
  outputs of the register chain.
\<close>

definition lock_inv :: "machine \<Rightarrow> bool" where
  "lock_inv s \<longleftrightarrow>
     length (shift_reg_state s) = NUM_SHIFT_REGISTERS \<and>
     (\<forall>c. 1 \<le> c \<and> c \<le> 32 \<and> box_unlocked s c \<longrightarrow> unat (unlocked_box_id s) = c) \<and>
     unlocked_box_id s \<le> box_count s \<and> unat (unlocked_box_id s) \<le> 32"

text \<open>The three fields of the lock subsystem.\<close>

definition lock_fields :: "machine \<Rightarrow> u32 list \<times> u8 \<times> u32" where
  "lock_fields s = (shift_reg_state s, unlocked_box_id s, unlock_start_ms s)"

text \<open>
  A run of calls of the tick handler, each with the clock, the time of day and the two
  button bytes it reads.
\<close>

fun run_ticks :: "(u32 \<times> u32 \<times> u8 \<times> u8) list \<Rightarrow> machine \<Rightarrow> machine" where
  "run_ticks [] s = s"
| "run_ticks ((now, utc, gpa, gpb) # ts) s =
     run_ticks ts (HoneyVending_Every100ms now utc gpa gpb s)"

text \<open>A sequence of lock operations, each unlock with the time at which it runs.\<close>

datatype lock_op = Unlock u32 u8 | Lock u8

fun lock_step :: "lock_op \<Rightarrow> machine \<Rightarrow> machine" where
  "lock_step (Unlock now b) s = UnlockBoxKey now b s"
| "lock_step (Lock b) s = LockBoxKey b s"

text \<open>The payloads the publishing functions build from the state.\<close>

definition system_json :: "machine \<Rightarrow> payload" where
  "system_json s =
     (let target_cents =
            (if selected_box_id s > 0 \<and> selected_box_id s \<le> box_count s
             then box_price s ! (unat (selected_box_id s) - 1) else 0)
      in SystemJson (total_cents s) (CentsToEuroString (total_cents s) 16)
           target_cents (CentsToEuroString target_cents 16)
           (selected_box_id s) (coins_detected s) (honey_available s) (box_count s))"

definition box_json :: "u8 \<Rightarrow> machine \<Rightarrow> payload" where
  "box_json box_id s =
     BoxJson box_id (box_status s ! (unat box_id - 1)) (box_price s ! (unat box_id - 1))
       (CentsToEuroString (box_price s ! (unat box_id - 1)) 16)
       (box_last_changed s ! (unat box_id - 1))"

text \<open>The texts the save functions write to the settings slots.\<close>

definition status_text :: "machine \<Rightarrow> string" where
  "status_text s = snprintf 16 (''H'' @ fmt_hex 8 (unat (pack_status s)))"

definition prices_text :: "machine \<Rightarrow> string" where
  "prices_text s =
     snprintf 512
       (fold (\<lambda>i buf. buf @ (if i > 0 then '','' else []) @ fmt_dec (unat (box_price s ! i)))
          [0..<unat (box_count s)] ''P:'')"

definition timestamps_text :: "machine \<Rightarrow> string" where
  "timestamps_text s =
     snprintf 512
       (fold (\<lambda>i buf. buf @ (if i > 0 then '','' else []) @
                       fmt_dec (unat (box_last_changed s ! i)))
          [0..<unat (box_count s)] ''T:'')"

definition count_text :: "machine \<Rightarrow> string" where
  "count_text s = snprintf 10 (''C'' @ zero_pad 2 (fmt_dec (unat (box_count s))))"

text \<open>
  \<open>mqtt_only s s'\<close>: state \<open>s'\<close> differs from \<open>s\<close> at most in the response buffer, in
  messages appended to those handed to the broker, and in the two bookkeeping fields of
  the publisher.
\<close>

definition mqtt_only :: "machine \<Rightarrow> machine \<Rightarrow> bool" where
  "mqtt_only s s' \<longleftrightarrow>
     (\<exists>r ms d l. s' = s\<lparr>response := r, mqtt_out := mqtt_out s @ ms, discovery_sent := d,
                          last_publish_ms := l\<rparr>)"

text \<open>
  The cascaded 74HC595 registers as the pin writes drive them: a rising edge of the clock
  pin shifts the level of the data pin into the chain (32 stages, the newest bit first), a
  rising edge of the latch pin copies the stages to the outputs.  After the 32 clock pulses
  of \<open>ShiftReg_Write\<close> stage \<open>k\<close> holds bit \<open>k mod 8\<close> of register
  \<open>k div 8\<close>, so output \<open>b - 1\<close> drives the solenoid of box \<open>b\<close>.
\<close>

record chain =
  data_level :: bool
  clock_level :: bool
  latch_level :: bool
  shifted :: "bool list"
  latched :: "bool list"

fun chain_step :: "pin_event \<Rightarrow> chain \<Rightarrow> chain" where
  "chain_step (DigitalWrite p v) c =
     (if p = SHIFT_REG_DATA_PIN then c\<lparr>data_level := v\<rparr>
      else if p = SHIFT_REG_CLOCK_PIN
      then (if v \<and> \<not> clock_level c
            then c\<lparr>clock_level := v, shifted := take 32 (data_level c # shifted c)\<rparr>
            else c\<lparr>clock_level := v\<rparr>)
      else if p = SHIFT_REG_LATCH_PIN
      then (if v \<and> \<not> latch_level c
            then c\<lparr>latch_level := v, latched := shifted c\<rparr>
            else c\<lparr>latch_level := v\<rparr>)
      else c)"
| "chain_step (DelayMicroseconds d) c = c"

definition chain_reset :: chain where
  "chain_reset = \<lparr>data_level = False, clock_level = False, latch_level = False,
                   shifted = replicate 32 False, latched = replicate 32 False\<rparr>"

text \<open>
  The levels at the 32 outputs after all pin writes of the state, and whether the solenoid
  of a box is energized.
\<close>

definition outputs :: "machine \<Rightarrow> bool list" where
  "outputs s = latched (fold chain_step (gpio s) chain_reset)"

definition solenoid_on :: "machine \<Rightarrow> nat \<Rightarrow> bool" where
  "solenoid_on s b \<longleftrightarrow> (outputs s ! (b - 1) = SOLENOID_ACTIVE_HIGH)"

text \<open>
  The 32 bits the mirror holds for the outputs, and the states in which the outputs show
  exactly these bits.
\<close>

definition mirror_bits :: "u32 list \<Rightarrow> bool list" where
  "mirror_bits R = map (\<lambda>k. bit (R ! (k div 8)) (k mod 8)) [0..<32]"

definition in_sync :: "machine \<Rightarrow> bool" where
  "in_sync s \<longleftrightarrow> outputs s = mirror_bits (shift_reg_state s)"

text \<open>
  The part of the state that the lock functions read and write.
\<close>

definition lock_view :: "machine \<Rightarrow> u32 list \<times> pin_event list \<times> u8 \<times> u32 \<times> u8" where
  "lock_view s = (shift_reg_state s, gpio s, unlocked_box_id s, unlock_start_ms s, box_count s)"



section \<open>A concrete machine\<close>

text \<open>
  A machine as it stands after start-up with 20 boxes, all filled and priced at 2 euros,
  all locked, the broker connected, and a text left by the host in the response buffer;
  the theorems below are run on it.
\<close>

definition kiosk :: machine where
  "kiosk =
     \<lparr>pulse_count = 0, last_pulse_ms = 0, first_pulse_ms = 0, total_cents = 0,
      last_coin_cents = 0, coins_detected = 0, honey_available = False, initialized = True,
      box_count = 20, selected_box_id = 0, box_status = replicate 30 True,
      box_price = replicate 30 200, box_last_changed = replicate 30 0,
      last_publish_ms = 0, discovery_sent = False, device_id = 0xBEE5,
      shift_reg_state = replicate 4 0, unlock_start_ms = 0, unlocked_box_id = 0,
      lcd_initialized = True, mcp_initialized = True, last_button_state = 0xFFFF,
      motor_position_offset = 0, last_check = 0, mqtt_connected = True,
      response = Raw ''_1'', mqtt_out = [], settings = (\<lambda>_. []),
      device_name = ''hive'', gpio = [],
      lcd_rows = [''  Honey Vending '', ''   Starting...  '']\<rparr>"

text \<open>
  The pulse times of a 2-euro coin (20 pulses, 20 ms apart), the kiosk after box 3 was
  selected and the coin inserted, and the kiosk after box 20 was selected, the box count
  lowered to 15 and the coin inserted.
\<close>

definition coin_burst :: "u32 list" where
  "coin_burst = [5020, 5040, 5060, 5080, 5100, 5120, 5140, 5160, 5180, 5200,
                 5220, 5240, 5260, 5280, 5300, 5320, 5340, 5360, 5380, 5400]"

definition paying_kiosk :: machine where
  "paying_kiosk = fold HoneyVending_PulseISR coin_burst (HoneyVending_SelectBox 3 kiosk)"

definition shrunk_kiosk :: machine where
  "shrunk_kiosk =
     fold HoneyVending_PulseISR coin_burst
       (HoneyVending_SetBoxCount 4000 1700000000 15 (HoneyVending_SelectBox 20 kiosk))"


definition two_open :: machine where
  "two_open =
     UnlockBoxKey 9000 5
       (HoneyVending_SetBoxCount 5000 1700000000 15 (UnlockBoxKey 1000 20 kiosk))"

section \<open>Basic facts\<close>

lemma word_one_le_iff: "(1 \<le> (b :: 'a :: len word)) = (b \<noteq> 0)"
  by (auto simp: word_le_nat_alt unat_gt_0 Suc_le_eq)

lemma word_less_one_iff: "((b :: 'a :: len word) < 1) = (b = 0)"
  by (auto simp: word_less_nat_alt unat_eq_0)

lemma box_index_bound:
  "1 \<le> (b :: u8) \<Longrightarrow> b \<le> bc \<Longrightarrow> unat bc \<le> n \<Longrightarrow> unat b - 1 < n"
  by (simp add: word_le_nat_alt) 

lemma to_base_numeral:
  "to_base b (numeral k) =
     (if b < 2 \<or> numeral k < b then [digit_char (numeral k)]
      else to_base b (numeral k div b) @ [digit_char (numeral k mod b)])"
  "to_base b 0 = (if b < 2 \<or> 0 < b then [digit_char 0] else to_base b (0 div b) @ [digit_char (0 mod b)])"
  "to_base b 1 = (if b < 2 \<or> 1 < b then [digit_char 1] else to_base b (1 div b) @ [digit_char (1 mod b)])"
  "to_base b (Suc 0) = (if b < 2 \<or> Suc 0 < b then [digit_char (Suc 0)]
      else to_base b (Suc 0 div b) @ [digit_char (Suc 0 mod b)])"
  by (rule to_base.simps)+

lemma kiosk_wf: "well_formed kiosk"
  by (simp add: well_formed_def kiosk_def MAX_HONEY_BOX_COUNT_def NUM_SHIFT_REGISTERS_def)

section \<open>What the publishing and saving functions do\<close>

lemma HoneyVending_SavePrices_eq:
  "HoneyVending_SavePrices s = s\<lparr>settings := (settings s)(HONEY_PRICE_INDEX := prices_text s)\<rparr>"
  by (simp add: HoneyVending_SavePrices_def prices_text_def SettingsUpdateText_def Let_def)

lemma HoneyVending_PublishBoxMQTT_eq:
  "HoneyVending_PublishBoxMQTT box_id s =
     (if box_id < 1 \<or> box_id > box_count s \<or> \<not> mqtt_connected s then s
      else s\<lparr>response := box_json box_id s,
             mqtt_out := mqtt_out s @
               [\<lparr>topic = box_topic (device_id s) box_id, body = box_json box_id s,
                 retained = True\<rparr>]\<rparr>)"
  by (simp add: HoneyVending_PublishBoxMQTT_def box_json_def MqttPublish_def Response_P_def Let_def)

lemma HoneyVending_PublishSystemMQTT_eq:
  "HoneyVending_PublishSystemMQTT s =
     (if mqtt_connected s
      then s\<lparr>response := system_json s,
             mqtt_out := mqtt_out s @
               [\<lparr>topic = system_topic (device_id s), body = system_json s, retained = True\<rparr>]\<rparr>
      else s)"
  by (simp add: HoneyVending_PublishSystemMQTT_def system_json_def MqttPublish_def
        Response_P_def Let_def)

lemma HoneyVending_SaveStatus_eq:
  "HoneyVending_SaveStatus s =
     s\<lparr>settings := (settings s)(HONEY_SETTINGS_INDEX := status_text s,
                                  HONEY_TIMESTAMP_INDEX := timestamps_text s)\<rparr>"
  by (simp add: HoneyVending_SaveStatus_def status_text_def timestamps_text_def
        SettingsUpdateText_def Let_def)

lemma HoneyVending_SaveBoxCount_eq:
  "HoneyVending_SaveBoxCount s =
     s\<lparr>settings := (settings s)(HONEY_BOX_COUNT_INDEX := count_text s)\<rparr>"
  by (simp add: HoneyVending_SaveBoxCount_def count_text_def SettingsUpdateText_def)

section \<open>Which fields a function can change\<close>

lemma MqttPublish_upd: "\<exists>M. MqttPublish tp r s = s\<lparr>mqtt_out := M\<rparr>"
proof
  show "MqttPublish tp r s = s\<lparr>mqtt_out := mqtt_out (MqttPublish tp r s)\<rparr>"
    by (simp add: MqttPublish_def)
qed

lemma LCD_WriteText_upd: "\<exists>L. LCD_WriteText r c t s = s\<lparr>lcd_rows := L\<rparr>"
proof
  show "LCD_WriteText r c t s = s\<lparr>lcd_rows := lcd_rows (LCD_WriteText r c t s)\<rparr>"
    by (simp add: LCD_WriteText_def)
qed

lemma fold_LCD_upd:
  "\<exists>L. fold (\<lambda>i st. if P i then LCD_WriteText r c (t i) st else st) xs s = s\<lparr>lcd_rows := L\<rparr>"
proof (induction xs arbitrary: s)
  case Nil
  show ?case by (rule exI [of _ "lcd_rows s"]) simp
next
  case (Cons x xs)
  show ?case
  proof (cases "P x")
    case True
    obtain L where L: "LCD_WriteText r c (t x) s = s\<lparr>lcd_rows := L\<rparr>"
      using LCD_WriteText_upd by blast
    obtain L' where "fold (\<lambda>i st. if P i then LCD_WriteText r c (t i) st else st) xs (s\<lparr>lcd_rows := L\<rparr>)
        = s\<lparr>lcd_rows := L\<rparr>\<lparr>lcd_rows := L'\<rparr>"
      using Cons.IH by blast
    with True L show ?thesis by (simp, blast)
  next
    case False
    with Cons.IH [of s] show ?thesis by simp
  qed
qed

lemma poll_buttons_upd:
  "\<exists>L B. poll_buttons gpa gpb s = s\<lparr>lcd_rows := L, last_button_state := B\<rparr>"
proof -
  let ?cur = "MCP23017_ReadButtons gpa gpb s"
  let ?np = "(NOT ?cur) AND last_button_state s"
  obtain L where L: "fold (\<lambda>i st. if bit ?np i
             then LCD_WriteText 1 0 (snprintf (LCD_COLS + 1) (''Button '' @ fmt_dec (i + 1) @ '' pressed '')) st
             else st) [0..<16] s = s\<lparr>lcd_rows := L\<rparr>"
    using fold_LCD_upd [of "\<lambda>i. bit ?np i" 1 0 "\<lambda>i. snprintf (LCD_COLS + 1) (''Button '' @ fmt_dec (i + 1) @ '' pressed '')" "[0..<16]" s]
    by blast
  have "poll_buttons gpa gpb s = s\<lparr>lcd_rows := lcd_rows (poll_buttons gpa gpb s),
       last_button_state := last_button_state (poll_buttons gpa gpb s)\<rparr>"
    using L by (simp add: poll_buttons_def Let_def del: upt_Suc)
  then show ?thesis by blast
qed

lemma ShiftReg_Write_upd: "\<exists>G. ShiftReg_Write d n s = s\<lparr>gpio := G\<rparr>"
  by (auto simp: ShiftReg_Write_def)

lemma ShiftReg_SetBit_upd:
  "\<exists>R G. ShiftReg_SetBit p st s = s\<lparr>shift_reg_state := R, gpio := G\<rparr>"
proof -
  have "ShiftReg_SetBit p st s = s\<lparr>shift_reg_state := shift_reg_state (ShiftReg_SetBit p st s),
       gpio := gpio (ShiftReg_SetBit p st s)\<rparr>"
    by (simp add: ShiftReg_SetBit_def ShiftReg_Write_def Let_def)
  then show ?thesis by blast
qed

lemma LockBoxKey_upd:
  "\<exists>R G U T. LockBoxKey b s =
      s\<lparr>shift_reg_state := R, gpio := G, unlocked_box_id := U, unlock_start_ms := T\<rparr>"
proof -
  obtain R G where "ShiftReg_SetBit (b - 1) (\<not> SOLENOID_ACTIVE_HIGH) s = s\<lparr>shift_reg_state := R, gpio := G\<rparr>"
    using ShiftReg_SetBit_upd by blast
  then have "LockBoxKey b s = s\<lparr>shift_reg_state := shift_reg_state (LockBoxKey b s),
       gpio := gpio (LockBoxKey b s), unlocked_box_id := unlocked_box_id (LockBoxKey b s),
       unlock_start_ms := unlock_start_ms (LockBoxKey b s)\<rparr>"
    by (simp add: LockBoxKey_def Let_def)
  then show ?thesis by blast
qed

lemma CheckUnlockTimeout_upd:
  "\<exists>R G U T. CheckUnlockTimeout now s =
      s\<lparr>shift_reg_state := R, gpio := G, unlocked_box_id := U, unlock_start_ms := T\<rparr>"
proof -
  obtain R G U T where "LockBoxKey (unlocked_box_id s) s =
      s\<lparr>shift_reg_state := R, gpio := G, unlocked_box_id := U, unlock_start_ms := T\<rparr>"
    using LockBoxKey_upd by blast
  then have "CheckUnlockTimeout now s = s\<lparr>shift_reg_state := shift_reg_state (CheckUnlockTimeout now s),
       gpio := gpio (CheckUnlockTimeout now s), unlocked_box_id := unlocked_box_id (CheckUnlockTimeout now s),
       unlock_start_ms := unlock_start_ms (CheckUnlockTimeout now s)\<rparr>"
    by (simp add: CheckUnlockTimeout_def Let_def)
  then show ?thesis by blast
qed


section \<open>Publishing changes nothing else\<close>

lemma mqtt_onlyI:
  "s' = s\<lparr>response := r, mqtt_out := mqtt_out s @ ms, discovery_sent := d, last_publish_ms := l\<rparr>
   \<Longrightarrow> mqtt_only s s'"
  unfolding mqtt_only_def by blast

lemma mqtt_only_refl: "mqtt_only s s"
  by (rule mqtt_onlyI [where r = "response s" and ms = "[]" and d = "discovery_sent s"
          and l = "last_publish_ms s"]) simp

lemma mqtt_only_trans:
  assumes "mqtt_only s t" "mqtt_only t u"
  shows "mqtt_only s u"
proof -
  obtain r ms d l where t: "t = s\<lparr>response := r, mqtt_out := mqtt_out s @ ms,
      discovery_sent := d, last_publish_ms := l\<rparr>"
    using assms(1) unfolding mqtt_only_def by blast
  obtain r' ms' d' l' where u: "u = t\<lparr>response := r', mqtt_out := mqtt_out t @ ms',
      discovery_sent := d', last_publish_ms := l'\<rparr>"
    using assms(2) unfolding mqtt_only_def by blast
  show ?thesis
    by (rule mqtt_onlyI [where r = r' and ms = "ms @ ms'" and d = d' and l = l']) (simp add: t u)
qed

lemma mqtt_only_fold:
  assumes "\<And>i t. mqtt_only t (f i t)"
  shows "mqtt_only s (fold f xs s)"
proof (induction xs arbitrary: s)
  case Nil
  show ?case by (simp add: mqtt_only_refl)
next
  case (Cons x xs)
  show ?case
    using mqtt_only_trans [OF assms [of s x] Cons.IH [of "f x s"]] by simp
qed

lemma mqtt_only_MqttPublish: "mqtt_only s (MqttPublish tp r s)"
  by (rule mqtt_onlyI [where r = "response s"
        and ms = "if mqtt_connected s then [\<lparr>topic = tp, body = response s, retained = r\<rparr>] else []"
        and d = "discovery_sent s" and l = "last_publish_ms s"])
     (simp add: MqttPublish_def)

lemma mqtt_only_Response_P: "mqtt_only s (Response_P p s)"
  by (rule mqtt_onlyI [where r = p and ms = "[]" and d = "discovery_sent s"
        and l = "last_publish_ms s"])
     (simp add: Response_P_def)

lemma mqtt_only_publish: "mqtt_only s (MqttPublish tp r (Response_P p s))"
  using mqtt_only_trans [OF mqtt_only_Response_P mqtt_only_MqttPublish] .

lemma mqtt_only_PublishSystemMQTT: "mqtt_only s (HoneyVending_PublishSystemMQTT s)"
  by (simp add: HoneyVending_PublishSystemMQTT_def Let_def mqtt_only_refl mqtt_only_publish)

lemma mqtt_only_PublishBoxMQTT: "mqtt_only s (HoneyVending_PublishBoxMQTT b s)"
  by (simp add: HoneyVending_PublishBoxMQTT_def Let_def mqtt_only_refl mqtt_only_publish)

lemma mqtt_only_discovery_sent: "mqtt_only s (s\<lparr>discovery_sent := d\<rparr>)"
  by (rule mqtt_onlyI [where r = "response s" and ms = "[]" and d = d
        and l = "last_publish_ms s"]) simp

lemma mqtt_only_last_publish_ms: "mqtt_only s (s\<lparr>last_publish_ms := l\<rparr>)"
  by (rule mqtt_onlyI [where r = "response s" and ms = "[]" and d = "discovery_sent s"
        and l = l]) simp

lemma mqtt_only_PublishDiscovery: "mqtt_only s (HoneyVending_PublishDiscovery s)"
proof (cases "mqtt_connected s")
  case False
  then show ?thesis by (simp add: HoneyVending_PublishDiscovery_def mqtt_only_refl)
next
  case True
  let ?dn = "snprintf 64 (device_name s)"
  let ?f = "\<lambda>i st. MqttPublish (discovery_box_topic ?dn i) True
                        (Response_P (DiscoveryBoxJson i
                           (snprintf 64 (''honey_'' @ fmt_hex 4 (unat (device_id s)) @ ''_box_'' @ fmt_dec i))
                           (device_id st) ?dn) st)"
  let ?s1 = "fold ?f [1..<Suc (unat (box_count s))] s"
  let ?s2 = "MqttPublish (snprintf 128 (''homeassistant/sensor/'' @ ?dn @ ''_boxes_available/config''))
                   True (Response_P (DiscoveryAvailableJson (device_id ?s1) ?dn) ?s1)"
  let ?s3 = "MqttPublish (snprintf 128 (''homeassistant/sensor/'' @ ?dn @ ''_vending_total/config''))
                   True (Response_P (DiscoveryTotalJson (device_id ?s2) ?dn) ?s2)"
  have a: "mqtt_only s ?s1"
    by (rule mqtt_only_fold) (rule mqtt_only_publish)
  have b: "mqtt_only ?s1 ?s2" by (rule mqtt_only_publish)
  have c: "mqtt_only ?s2 ?s3" by (rule mqtt_only_publish)
  have d: "mqtt_only ?s3 (?s3\<lparr>discovery_sent := True\<rparr>)" by (rule mqtt_only_discovery_sent)
  have "HoneyVending_PublishDiscovery s = ?s3\<lparr>discovery_sent := True\<rparr>"
    using True by (simp add: HoneyVending_PublishDiscovery_def Let_def del: upt_Suc)
  then show ?thesis
    using mqtt_only_trans [OF mqtt_only_trans [OF mqtt_only_trans [OF a b] c] d] by simp
qed

lemma mqtt_only_PublishAllBoxesMQTT: "mqtt_only s (HoneyVending_PublishAllBoxesMQTT now s)"
proof (cases "mqtt_connected s")
  case False
  then show ?thesis by (simp add: HoneyVending_PublishAllBoxesMQTT_def mqtt_only_refl)
next
  case True
  let ?s1 = "fold (\<lambda>i st. HoneyVending_PublishBoxMQTT (of_nat i) st)
                   [1..<Suc (unat (box_count s))] s"
  let ?s2 = "Response_P (SummaryJson (unat (box_count ?s1)) (available_count ?s1) (empty_count ?s1)) ?s1"
  let ?s3 = "MqttPublish (summary_topic (device_id ?s2)) True ?s2"
  have a: "mqtt_only s ?s1"
    by (rule mqtt_only_fold) (rule mqtt_only_PublishBoxMQTT)
  have b: "mqtt_only ?s1 ?s3" by (rule mqtt_only_publish)
  have c: "mqtt_only ?s3 (?s3\<lparr>last_publish_ms := now\<rparr>)" by (rule mqtt_only_last_publish_ms)
  have "HoneyVending_PublishAllBoxesMQTT now s = ?s3\<lparr>last_publish_ms := now\<rparr>"
    using True by (simp add: HoneyVending_PublishAllBoxesMQTT_def Let_def del: upt_Suc)
  then show ?thesis
    using mqtt_only_trans [OF mqtt_only_trans [OF a b] c] by simp
qed

lemma mqtt_only_CleanupOldBoxes: "mqtt_only s (HoneyVending_CleanupOldBoxes old new s)"
  by (simp add: HoneyVending_CleanupOldBoxes_def Let_def mqtt_only_refl mqtt_only_fold
        mqtt_only_MqttPublish del: upt_Suc)

lemma fold_init_boxes:
  "\<exists>bs lc bp. fold (\<lambda>i st. st\<lparr>box_status := (box_status st)[i := False],
                                   box_last_changed := (box_last_changed st)[i := utc],
                                   box_price := (box_price st)[i := DEFAULT_PRICE_CENTS]\<rparr>) xs s =
      s\<lparr>box_status := bs, box_last_changed := lc, box_price := bp\<rparr>"
proof (induction xs arbitrary: s)
  case Nil
  show ?case
    by (rule exI [of _ "box_status s"], rule exI [of _ "box_last_changed s"],
        rule exI [of _ "box_price s"]) simp
next
  case (Cons x xs)
  let ?t = "s\<lparr>box_status := (box_status s)[x := False],
              box_last_changed := (box_last_changed s)[x := utc],
              box_price := (box_price s)[x := DEFAULT_PRICE_CENTS]\<rparr>"
  obtain bs lc bp where "fold (\<lambda>i st. st\<lparr>box_status := (box_status st)[i := False],
                                   box_last_changed := (box_last_changed st)[i := utc],
                                   box_price := (box_price st)[i := DEFAULT_PRICE_CENTS]\<rparr>) xs ?t =
      ?t\<lparr>box_status := bs, box_last_changed := lc, box_price := bp\<rparr>"
    using Cons.IH [of ?t] by blast
  then show ?case by (simp, blast)
qed

lemma HoneyVending_SetBoxCount_upd:
  "\<exists>bs lc bp st r ms d l.
     HoneyVending_SetBoxCount now utc c s =
       s\<lparr>box_count := (if c < 1 \<or> unat c > MAX_HONEY_BOX_COUNT then box_count s else c),
         box_status := bs, box_last_changed := lc, box_price := bp, settings := st,
         response := r, mqtt_out := mqtt_out s @ ms, discovery_sent := d, last_publish_ms := l\<rparr>"
proof (cases "c < 1 \<or> unat c > MAX_HONEY_BOX_COUNT")
  case True
  have "HoneyVending_SetBoxCount now utc c s =
       s\<lparr>box_count := (if c < 1 \<or> unat c > MAX_HONEY_BOX_COUNT then box_count s else c),
         box_status := box_status s, box_last_changed := box_last_changed s,
         box_price := box_price s, settings := settings s,
         response := response s, mqtt_out := mqtt_out s @ [], discovery_sent := discovery_sent s,
         last_publish_ms := last_publish_ms s\<rparr>"
    using True by (simp add: HoneyVending_SetBoxCount_def)
  then show ?thesis by (intro exI)
next
  case False
  define s2 where "s2 = (if c > box_count s
             then fold (\<lambda>i st. st\<lparr>box_status := (box_status st)[i := False],
                                   box_last_changed := (box_last_changed st)[i := utc],
                                   box_price := (box_price st)[i := DEFAULT_PRICE_CENTS]\<rparr>)
                    [unat (box_count s)..<unat c] (s\<lparr>box_count := c\<rparr>)
             else s\<lparr>box_count := c\<rparr>)"
  define s4 where "s4 = (HoneyVending_SavePrices (HoneyVending_SaveStatus
                           (HoneyVending_SaveBoxCount s2)))\<lparr>discovery_sent := False\<rparr>"
  define s5 where "s5 = HoneyVending_PublishSystemMQTT
                  (HoneyVending_PublishAllBoxesMQTT now
                     (HoneyVending_PublishDiscovery
                        (HoneyVending_CleanupOldBoxes (box_count s) c s4)))"
  have "\<exists>bs lc bp. s2 = s\<lparr>box_count := c, box_status := bs, box_last_changed := lc,
      box_price := bp\<rparr>"
  proof (cases "c > box_count s")
    case True
    obtain bs lc bp where "fold (\<lambda>i st. st\<lparr>box_status := (box_status st)[i := False],
                                   box_last_changed := (box_last_changed st)[i := utc],
                                   box_price := (box_price st)[i := DEFAULT_PRICE_CENTS]\<rparr>)
                    [unat (box_count s)..<unat c] (s\<lparr>box_count := c\<rparr>) =
      s\<lparr>box_count := c\<rparr>\<lparr>box_status := bs, box_last_changed := lc, box_price := bp\<rparr>"
      using fold_init_boxes by blast
    with True have "s2 = s\<lparr>box_count := c, box_status := bs, box_last_changed := lc,
      box_price := bp\<rparr>"
      by (simp add: s2_def)
    then show ?thesis by blast
  next
    case False
    then have "s2 = s\<lparr>box_count := c, box_status := box_status s,
      box_last_changed := box_last_changed s, box_price := box_price s\<rparr>"
      by (simp add: s2_def)
    then show ?thesis by blast
  qed
  then obtain bs lc bp where s2: "s2 = s\<lparr>box_count := c, box_status := bs,
      box_last_changed := lc, box_price := bp\<rparr>"
    by blast
  define st where "st = settings s4"
  have "s4 = s2\<lparr>settings := st, discovery_sent := False\<rparr>"
    by (simp add: st_def s4_def HoneyVending_SavePrices_eq HoneyVending_SaveStatus_eq
          HoneyVending_SaveBoxCount_eq)
  then have s4: "s4 = s\<lparr>box_count := c, box_status := bs, box_last_changed := lc,
      box_price := bp, settings := st, discovery_sent := False\<rparr>"
    by (simp add: s2)
  have "mqtt_only s4 s5"
    unfolding s5_def
    by (rule mqtt_only_trans [OF mqtt_only_CleanupOldBoxes
          mqtt_only_trans [OF mqtt_only_PublishDiscovery
            mqtt_only_trans [OF mqtt_only_PublishAllBoxesMQTT mqtt_only_PublishSystemMQTT]]])
  then obtain r ms d l where "s5 = s4\<lparr>response := r, mqtt_out := mqtt_out s4 @ ms,
      discovery_sent := d, last_publish_ms := l\<rparr>"
    unfolding mqtt_only_def by blast
  then have s5: "s5 = s\<lparr>box_count := c, box_status := bs,
      box_last_changed := lc, box_price := bp,
      settings := st, response := r, mqtt_out := mqtt_out s @ ms,
      discovery_sent := d, last_publish_ms := l\<rparr>"
    by (simp add: s4)
  have m4: "mqtt_connected (HoneyVending_SavePrices
      (HoneyVending_SaveStatus (HoneyVending_SaveBoxCount s2))) = mqtt_connected s"
    by (simp add: HoneyVending_SavePrices_eq HoneyVending_SaveStatus_eq
          HoneyVending_SaveBoxCount_eq s2)
  have res: "HoneyVending_SetBoxCount now utc c s = (if mqtt_connected s then s5 else s4)"
    using False m4
    by (simp add: HoneyVending_SetBoxCount_def Let_def s2_def [symmetric] s4_def [symmetric]
          s5_def [symmetric])
  show ?thesis
  proof (cases "mqtt_connected s")
    case True
    have "HoneyVending_SetBoxCount now utc c s =
        s\<lparr>box_count := (if c < 1 \<or> unat c > MAX_HONEY_BOX_COUNT then box_count s else c),
          box_status := bs, box_last_changed := lc, box_price := bp,
          settings := st, response := r, mqtt_out := mqtt_out s @ ms,
          discovery_sent := d, last_publish_ms := l\<rparr>"
      using True res False by (simp add: s5)
    then show ?thesis by (intro exI)
  next
    case F: False
    have "HoneyVending_SetBoxCount now utc c s =
        s\<lparr>box_count := (if c < 1 \<or> unat c > MAX_HONEY_BOX_COUNT then box_count s else c),
          box_status := bs, box_last_changed := lc, box_price := bp,
          settings := st, response := response s, mqtt_out := mqtt_out s @ [],
          discovery_sent := False, last_publish_ms := last_publish_ms s\<rparr>"
      using F res False by (simp add: s4)
    then show ?thesis by (intro exI)
  qed
qed

section \<open>Coin decoding\<close>

text \<open>
  C2.  The decoder maps 1, 2, 5, 10 and 20 pulses to 10, 20, 50, 100 and 200 cents.  Every
  other pulse count from 0 to 100 decodes to 0, and a tick that finds such a count in the
  pulse counter leaves the session total and the coin counter as they were.
\<close>

theorem PulsesToCents_exact_unknown_discarded:
  "PulsesToCents 1 = 10 \<and> PulsesToCents 2 = 20 \<and> PulsesToCents 5 = 50 \<and>
   PulsesToCents 10 = 100 \<and> PulsesToCents 20 = 200 \<and>
   (\<forall>p. p \<le> 100 \<and> p \<notin> {1, 2, 5, 10, 20} \<longrightarrow>
      PulsesToCents p = 0 \<and>
      (\<forall>now utc gpa gpb s. pulse_count s = p \<longrightarrow>
         total_cents (HoneyVending_Every100ms now utc gpa gpb s) = total_cents s \<and>
         coins_detected (HoneyVending_Every100ms now utc gpa gpb s) = coins_detected s))"
proof -
  have tick: "total_cents (HoneyVending_Every100ms now utc gpa gpb s) = total_cents s \<and>
         coins_detected (HoneyVending_Every100ms now utc gpa gpb s) = coins_detected s"
    if "PulsesToCents (pulse_count s) = 0" for now utc gpa gpb s
  proof -
    obtain R G U T where c: "CheckUnlockTimeout now (s\<lparr>last_check := now\<rparr>) =
      s\<lparr>last_check := now\<rparr>\<lparr>shift_reg_state := R, gpio := G, unlocked_box_id := U, unlock_start_ms := T\<rparr>"
      using CheckUnlockTimeout_upd by blast
    let ?s2 = "CheckUnlockTimeout now (s\<lparr>last_check := now\<rparr>)"
    obtain L B where p1: "poll_buttons gpa gpb ?s2 = ?s2\<lparr>lcd_rows := L, last_button_state := B\<rparr>"
      using poll_buttons_upd by blast
    obtain L' B' where p2: "poll_buttons gpa gpb (?s2\<lparr>pulse_count := 0\<rparr>) = ?s2\<lparr>pulse_count := 0\<rparr>\<lparr>lcd_rows := L', last_button_state := B'\<rparr>"
      using poll_buttons_upd by blast
    from that c p1 p2 show ?thesis
      by (simp add: HoneyVending_Every100ms_def Let_def)
  qed
  show ?thesis
    using tick by (auto simp: PulsesToCents_def)
qed


theorem PulsesToCents_exact_unknown_discarded_witness:
  "(3 :: u32) \<le> 100 \<and> (3 :: u32) \<notin> {1, 2, 5, 10, 20} \<and> PulsesToCents 3 = 0 \<and>
   total_cents (HoneyVending_Every100ms 1000 0 0xFF 0xFF
                  (kiosk\<lparr>pulse_count := 3, last_pulse_ms := 700, total_cents := 150,
                         coins_detected := 2\<rparr>)) = 150 \<and>
   coins_detected (HoneyVending_Every100ms 1000 0 0xFF 0xFF
                  (kiosk\<lparr>pulse_count := 3, last_pulse_ms := 700, total_cents := 150,
                         coins_detected := 2\<rparr>)) = 2"
proof -
  have h: "(3 :: u32) \<le> 100 \<and> (3 :: u32) \<notin> {1, 2, 5, 10, 20}"
    by simp
  from PulsesToCents_exact_unknown_discarded
  have "\<forall>p. p \<le> 100 \<and> p \<notin> {1, 2, 5, 10, 20} \<longrightarrow>
      PulsesToCents p = 0 \<and>
      (\<forall>now utc gpa gpb s. pulse_count s = p \<longrightarrow>
         total_cents (HoneyVending_Every100ms now utc gpa gpb s) = total_cents s \<and>
         coins_detected (HoneyVending_Every100ms now utc gpa gpb s) = coins_detected s)"
    by (elim conjE)
  from this [rule_format, OF h] show ?thesis
    using h by simp
qed


section \<open>Coin gate motor\<close>

lemma Motor_Rotate_offset: "motor_position_offset (Motor_Rotate n d s) = motor_position_offset s"
  by (simp add: Motor_Rotate_def)

lemma abs_steps: "unat (word_of_int (if sint w < 0 then - sint w else sint w) :: u16) = nat \<bar>sint (w :: i16)\<bar>"
proof -
  have "- (2 ^ 15) \<le> sint w" "sint w < 2 ^ 15"
    using sint_ge [of w] sint_lt [of w] by simp_all
  then have b: "0 \<le> \<bar>sint w\<bar>" "\<bar>sint w\<bar> < 2 ^ 16" by auto
  have "(if sint w < 0 then - sint w else sint w) = \<bar>sint w\<bar>" by simp
  moreover have "unat (word_of_int \<bar>sint w\<bar> :: u16) = nat \<bar>sint w\<bar>"
    using b by (simp add: unat_eq_nat_uint uint_word_of_int)
  ultimately show ?thesis by simp
qed


text \<open>
  C9.  \<open>COIN_ACCEPT\<close> subtracts 25 from the tracked offset and \<open>COIN_REJECT\<close> adds 25 (in
  the 16-bit arithmetic of the variable, and as integers whenever the result fits).
  \<open>RESET\<close> always leaves the offset at 0: at offset 0 it changes nothing, so no pin is
  written; otherwise it pulses the step pin as many times as the absolute value of the
  offset, with the direction pin set to right exactly when the offset is negative.  Hence
  any sequence of accepts and rejects followed by \<open>RESET\<close> ends at offset 0.
\<close>

theorem Motor_DoAction_offset_accept_reject_reset:
  "motor_position_offset (Motor_DoAction COIN_ACCEPT s) = motor_position_offset s - 25 \<and>
   motor_position_offset (Motor_DoAction COIN_REJECT s) = motor_position_offset s + 25 \<and>
   (- 32743 \<le> sint (motor_position_offset s) \<longrightarrow>
      sint (motor_position_offset (Motor_DoAction COIN_ACCEPT s)) = sint (motor_position_offset s) - 25) \<and>
   (sint (motor_position_offset s) \<le> 32742 \<longrightarrow>
      sint (motor_position_offset (Motor_DoAction COIN_REJECT s)) = sint (motor_position_offset s) + 25) \<and>
   motor_position_offset (Motor_DoAction MOTOR_RESET s) = 0 \<and>
   (motor_position_offset s = 0 \<longrightarrow> Motor_DoAction MOTOR_RESET s = s) \<and>
   (motor_position_offset s \<noteq> 0 \<longrightarrow>
      gpio (Motor_DoAction MOTOR_RESET s) =
        gpio s @
        [DigitalWrite MOTOR_DIR_PIN (sint (motor_position_offset s) < 0),
         DigitalWrite MOTOR_ENABLE_PIN False, DelayMicroseconds 10] @
        concat (replicate (nat \<bar>sint (motor_position_offset s)\<bar>)
          [DigitalWrite MOTOR_STEP_PIN True, DelayMicroseconds MOTOR_STEP_DELAY_US,
           DigitalWrite MOTOR_STEP_PIN False, DelayMicroseconds MOTOR_STEP_DELAY_US]) @
        [DigitalWrite MOTOR_ENABLE_PIN True]) \<and>
   (\<forall>acts. set acts \<subseteq> {COIN_ACCEPT, COIN_REJECT} \<longrightarrow>
      motor_position_offset (Motor_DoAction MOTOR_RESET (fold Motor_DoAction acts s)) = 0)"
proof -
  have acc: "motor_position_offset (Motor_DoAction COIN_ACCEPT s) = motor_position_offset s - 25"
    by (simp add: Motor_DoAction_def Let_def Motor_Rotate_offset MOTOR_45DEG_STEPS_def MOTOR_STEPS_PER_REV_def)
  have rej: "motor_position_offset (Motor_DoAction COIN_REJECT s) = motor_position_offset s + 25"
    by (simp add: Motor_DoAction_def Let_def Motor_Rotate_offset MOTOR_45DEG_STEPS_def MOTOR_STEPS_PER_REV_def)
  have rng: "- (2 ^ 15) \<le> sint (motor_position_offset s)" "sint (motor_position_offset s) < 2 ^ 15"
    using sint_ge [of "motor_position_offset s"] sint_lt [of "motor_position_offset s"] by simp_all
  have acci: "sint (motor_position_offset (Motor_DoAction COIN_ACCEPT s)) = sint (motor_position_offset s) - 25"
    if "- 32743 \<le> sint (motor_position_offset s)"
  proof -
    have "signed_take_bit 15 (sint (motor_position_offset s) - 25) = sint (motor_position_offset s) - 25"
      by (rule signed_take_bit_int_eq_self) (use that rng in simp_all)
    then have "sint (motor_position_offset s - 25) = sint (motor_position_offset s) - 25"
      by (simp add: sint_word_diff)
    then show ?thesis by (simp add: acc)
  qed
  have reji: "sint (motor_position_offset (Motor_DoAction COIN_REJECT s)) = sint (motor_position_offset s) + 25"
    if "sint (motor_position_offset s) \<le> 32742"
  proof -
    have "signed_take_bit 15 (sint (motor_position_offset s) + 25) = sint (motor_position_offset s) + 25"
      by (rule signed_take_bit_int_eq_self) (use that rng in simp_all)
    then have "sint (motor_position_offset s + 25) = sint (motor_position_offset s) + 25"
      by (simp add: sint_word_add)
    then show ?thesis by (simp add: rej)
  qed
  have res: "motor_position_offset (Motor_DoAction MOTOR_RESET t) = 0" for t
    by (simp add: Motor_DoAction_def Let_def)
  have home: "motor_position_offset s = 0 \<longrightarrow> Motor_DoAction MOTOR_RESET s = s"
    by (simp add: Motor_DoAction_def)
  have nz: "(word_of_int (if sint w < 0 then - sint w else sint w) :: u16) \<noteq> 0" if "w \<noteq> 0" for w :: i16
  proof
    assume "(word_of_int (if sint w < 0 then - sint w else sint w) :: u16) = 0"
    then have "unat (word_of_int (if sint w < 0 then - sint w else sint w) :: u16) = 0" by simp
    then have "nat \<bar>sint w\<bar> = 0" by (simp only: abs_steps)
    then have "sint w = 0" by simp
    then show False using that by (simp add: signed_eq_0_iff)
  qed
  have mv: "motor_position_offset s \<noteq> 0 \<longrightarrow>
      gpio (Motor_DoAction MOTOR_RESET s) =
        gpio s @
        [DigitalWrite MOTOR_DIR_PIN (sint (motor_position_offset s) < 0),
         DigitalWrite MOTOR_ENABLE_PIN False, DelayMicroseconds 10] @
        concat (replicate (nat \<bar>sint (motor_position_offset s)\<bar>)
          [DigitalWrite MOTOR_STEP_PIN True, DelayMicroseconds MOTOR_STEP_DELAY_US,
           DigitalWrite MOTOR_STEP_PIN False, DelayMicroseconds MOTOR_STEP_DELAY_US]) @
        [DigitalWrite MOTOR_ENABLE_PIN True]"
  proof
    assume n: "motor_position_offset s \<noteq> 0"
    have "sint (motor_position_offset s) \<noteq> 0" using n by (simp add: signed_eq_0_iff)
    then have d: "(\<not> 0 < sint (motor_position_offset s)) = (sint (motor_position_offset s) < 0)" by auto
    show "gpio (Motor_DoAction MOTOR_RESET s) =
        gpio s @
        [DigitalWrite MOTOR_DIR_PIN (sint (motor_position_offset s) < 0),
         DigitalWrite MOTOR_ENABLE_PIN False, DelayMicroseconds 10] @
        concat (replicate (nat \<bar>sint (motor_position_offset s)\<bar>)
          [DigitalWrite MOTOR_STEP_PIN True, DelayMicroseconds MOTOR_STEP_DELAY_US,
           DigitalWrite MOTOR_STEP_PIN False, DelayMicroseconds MOTOR_STEP_DELAY_US]) @
        [DigitalWrite MOTOR_ENABLE_PIN True]"
      using n nz [OF n] abs_steps [of "motor_position_offset s"] d
      by (simp add: Motor_DoAction_def Let_def Motor_Rotate_def)
  qed
  from acc rej acci reji res home mv show ?thesis by blast
qed


theorem Motor_DoAction_offset_accept_reject_reset_witness:
  "- 32743 \<le> sint (motor_position_offset kiosk) \<and>
   sint (motor_position_offset kiosk) \<le> 32742 \<and>
   motor_position_offset kiosk = 0 \<and>
   motor_position_offset (Motor_DoAction COIN_ACCEPT kiosk) \<noteq> 0 \<and>
   set [COIN_ACCEPT, COIN_REJECT, COIN_ACCEPT] \<subseteq> {COIN_ACCEPT, COIN_REJECT} \<and>
   sint (motor_position_offset (Motor_DoAction COIN_ACCEPT kiosk)) = - 25 \<and>
   sint (motor_position_offset (Motor_DoAction COIN_REJECT kiosk)) = 25 \<and>
   Motor_DoAction MOTOR_RESET kiosk = kiosk \<and>
   gpio (Motor_DoAction MOTOR_RESET (Motor_DoAction COIN_ACCEPT kiosk)) =
     gpio (Motor_DoAction COIN_ACCEPT kiosk) @
     [DigitalWrite MOTOR_DIR_PIN True, DigitalWrite MOTOR_ENABLE_PIN False,
      DelayMicroseconds 10] @
     concat (replicate 25
       [DigitalWrite MOTOR_STEP_PIN True, DelayMicroseconds MOTOR_STEP_DELAY_US,
        DigitalWrite MOTOR_STEP_PIN False, DelayMicroseconds MOTOR_STEP_DELAY_US]) @
     [DigitalWrite MOTOR_ENABLE_PIN True] \<and>
   motor_position_offset (Motor_DoAction MOTOR_RESET
     (fold Motor_DoAction [COIN_ACCEPT, COIN_REJECT, COIN_ACCEPT] kiosk)) = 0"
proof -
  have z: "motor_position_offset kiosk = 0"
    by (simp add: kiosk_def)
  have h1: "- 32743 \<le> sint (motor_position_offset kiosk)"
    and h2: "sint (motor_position_offset kiosk) \<le> 32742"
    by (simp_all add: z)
  have h3: "set [COIN_ACCEPT, COIN_REJECT, COIN_ACCEPT] \<subseteq> {COIN_ACCEPT, COIN_REJECT}"
    by simp
  note k = Motor_DoAction_offset_accept_reject_reset [of kiosk]
  have a: "sint (motor_position_offset (Motor_DoAction COIN_ACCEPT kiosk)) = - 25"
    using k h1 z by simp
  have r: "sint (motor_position_offset (Motor_DoAction COIN_REJECT kiosk)) = 25"
    using k h2 z by simp
  have home: "Motor_DoAction MOTOR_RESET kiosk = kiosk"
    using k z by blast
  have all: "motor_position_offset (Motor_DoAction MOTOR_RESET
     (fold Motor_DoAction [COIN_ACCEPT, COIN_REJECT, COIN_ACCEPT] kiosk)) = 0"
    using k h3 by blast
  have n: "motor_position_offset (Motor_DoAction COIN_ACCEPT kiosk) \<noteq> 0"
    using a by auto
  note k' = Motor_DoAction_offset_accept_reject_reset [of "Motor_DoAction COIN_ACCEPT kiosk"]
  have g: "gpio (Motor_DoAction MOTOR_RESET (Motor_DoAction COIN_ACCEPT kiosk)) =
     gpio (Motor_DoAction COIN_ACCEPT kiosk) @
     [DigitalWrite MOTOR_DIR_PIN (sint (motor_position_offset (Motor_DoAction COIN_ACCEPT kiosk)) < 0),
      DigitalWrite MOTOR_ENABLE_PIN False, DelayMicroseconds 10] @
     concat (replicate (nat \<bar>sint (motor_position_offset (Motor_DoAction COIN_ACCEPT kiosk))\<bar>)
       [DigitalWrite MOTOR_STEP_PIN True, DelayMicroseconds MOTOR_STEP_DELAY_US,
        DigitalWrite MOTOR_STEP_PIN False, DelayMicroseconds MOTOR_STEP_DELAY_US]) @
     [DigitalWrite MOTOR_ENABLE_PIN True]"
    using k' n by blast
  have g': "gpio (Motor_DoAction MOTOR_RESET (Motor_DoAction COIN_ACCEPT kiosk)) =
     gpio (Motor_DoAction COIN_ACCEPT kiosk) @
     [DigitalWrite MOTOR_DIR_PIN True, DigitalWrite MOTOR_ENABLE_PIN False,
      DelayMicroseconds 10] @
     concat (replicate 25
       [DigitalWrite MOTOR_STEP_PIN True, DelayMicroseconds MOTOR_STEP_DELAY_US,
        DigitalWrite MOTOR_STEP_PIN False, DelayMicroseconds MOTOR_STEP_DELAY_US]) @
     [DigitalWrite MOTOR_ENABLE_PIN True]"
    unfolding g a by simp
  from z h1 h2 h3 a r home all n g' show ?thesis
    by blast
qed


section \<open>Price bounds\<close>

text \<open>
  C8.  For a box id within the box count, setting a price below 10 or above 10000 cents
  returns the state unchanged: the stored price stays, nothing is written to the settings
  store and nothing is published.  A price from 10 to 10000 cents, both bounds included, is
  stored for that box and no other, written to the price slot, and published on the box
  topic when the broker is connected.
\<close>

theorem SetPrice_bounds:
  "well_formed s \<and> 1 \<le> box_id \<and> box_id \<le> box_count s \<longrightarrow>
     ((price_cents < 10 \<or> price_cents > 10000) \<longrightarrow>
        HoneyVending_SetPrice box_id price_cents s = s) \<and>
     (10 \<le> price_cents \<and> price_cents \<le> 10000 \<longrightarrow>
        box_price (HoneyVending_SetPrice box_id price_cents s) ! (unat box_id - 1) = price_cents \<and>
        box_price (HoneyVending_SetPrice box_id price_cents s) =
          (box_price s)[unat box_id - 1 := price_cents] \<and>
        settings (HoneyVending_SetPrice box_id price_cents s) =
          (settings s)(HONEY_PRICE_INDEX :=
             prices_text (s\<lparr>box_price := (box_price s)[unat box_id - 1 := price_cents]\<rparr>)) \<and>
        (mqtt_connected s \<longrightarrow>
           mqtt_out (HoneyVending_SetPrice box_id price_cents s) =
             mqtt_out s @
             [\<lparr>topic = box_topic (device_id s) box_id,
               body = BoxJson box_id (box_status s ! (unat box_id - 1)) price_cents
                        (CentsToEuroString price_cents 16)
                        (box_last_changed s ! (unat box_id - 1)),
               retained = True\<rparr>]))"
proof (intro impI, elim conjE)
  assume wf: "well_formed s" and lo: "1 \<le> box_id" and hi: "box_id \<le> box_count s"
  have g: "\<not> (box_id < 1 \<or> box_id > box_count s)"
    using lo hi by (simp add: not_less word_one_le_iff word_less_one_iff)
  have idx: "unat box_id - 1 < length (box_price s)"
    using wf box_index_bound [OF lo hi, of MAX_HONEY_BOX_COUNT] by (simp add: well_formed_def)
  have rej: "(price_cents < 10 \<or> price_cents > 10000) \<longrightarrow>
        HoneyVending_SetPrice box_id price_cents s = s"
    by (auto simp: HoneyVending_SetPrice_def)
  have acc: "10 \<le> price_cents \<and> price_cents \<le> 10000 \<longrightarrow>
        box_price (HoneyVending_SetPrice box_id price_cents s) ! (unat box_id - 1) = price_cents \<and>
        box_price (HoneyVending_SetPrice box_id price_cents s) =
          (box_price s)[unat box_id - 1 := price_cents] \<and>
        settings (HoneyVending_SetPrice box_id price_cents s) =
          (settings s)(HONEY_PRICE_INDEX :=
             prices_text (s\<lparr>box_price := (box_price s)[unat box_id - 1 := price_cents]\<rparr>)) \<and>
        (mqtt_connected s \<longrightarrow>
           mqtt_out (HoneyVending_SetPrice box_id price_cents s) =
             mqtt_out s @
             [\<lparr>topic = box_topic (device_id s) box_id,
               body = BoxJson box_id (box_status s ! (unat box_id - 1)) price_cents
                        (CentsToEuroString price_cents 16)
                        (box_last_changed s ! (unat box_id - 1)),
               retained = True\<rparr>])"
  proof
    assume "10 \<le> price_cents \<and> price_cents \<le> 10000"
    then have p: "\<not> (price_cents < 10 \<or> price_cents > 10000)"
      by (simp add: not_less)
    show "box_price (HoneyVending_SetPrice box_id price_cents s) ! (unat box_id - 1) = price_cents \<and>
        box_price (HoneyVending_SetPrice box_id price_cents s) =
          (box_price s)[unat box_id - 1 := price_cents] \<and>
        settings (HoneyVending_SetPrice box_id price_cents s) =
          (settings s)(HONEY_PRICE_INDEX :=
             prices_text (s\<lparr>box_price := (box_price s)[unat box_id - 1 := price_cents]\<rparr>)) \<and>
        (mqtt_connected s \<longrightarrow>
           mqtt_out (HoneyVending_SetPrice box_id price_cents s) =
             mqtt_out s @
             [\<lparr>topic = box_topic (device_id s) box_id,
               body = BoxJson box_id (box_status s ! (unat box_id - 1)) price_cents
                        (CentsToEuroString price_cents 16)
                        (box_last_changed s ! (unat box_id - 1)),
               retained = True\<rparr>])"
      using g p idx
      by (simp add: HoneyVending_SetPrice_def Let_def HoneyVending_SavePrices_eq
            HoneyVending_PublishBoxMQTT_eq box_json_def)
  qed
  from rej acc show "((price_cents < 10 \<or> price_cents > 10000) \<longrightarrow>
        HoneyVending_SetPrice box_id price_cents s = s) \<and>
     (10 \<le> price_cents \<and> price_cents \<le> 10000 \<longrightarrow>
        box_price (HoneyVending_SetPrice box_id price_cents s) ! (unat box_id - 1) = price_cents \<and>
        box_price (HoneyVending_SetPrice box_id price_cents s) =
          (box_price s)[unat box_id - 1 := price_cents] \<and>
        settings (HoneyVending_SetPrice box_id price_cents s) =
          (settings s)(HONEY_PRICE_INDEX :=
             prices_text (s\<lparr>box_price := (box_price s)[unat box_id - 1 := price_cents]\<rparr>)) \<and>
        (mqtt_connected s \<longrightarrow>
           mqtt_out (HoneyVending_SetPrice box_id price_cents s) =
             mqtt_out s @
             [\<lparr>topic = box_topic (device_id s) box_id,
               body = BoxJson box_id (box_status s ! (unat box_id - 1)) price_cents
                        (CentsToEuroString price_cents 16)
                        (box_last_changed s ! (unat box_id - 1)),
               retained = True\<rparr>]))" by blast
qed

theorem SetPrice_bounds_witness:
  "well_formed kiosk \<and> (1 :: u8) \<le> 3 \<and> 3 \<le> box_count kiosk \<and>
   HoneyVending_SetPrice 3 9 kiosk = kiosk \<and>
   HoneyVending_SetPrice 3 10001 kiosk = kiosk \<and>
   box_price (HoneyVending_SetPrice 3 10 kiosk) ! 2 = 10 \<and>
   box_price (HoneyVending_SetPrice 3 10000 kiosk) ! 2 = 10000"
proof -
  have h: "well_formed kiosk \<and> (1 :: u8) \<le> 3 \<and> 3 \<le> box_count kiosk"
    by (simp add: kiosk_wf) (simp add: kiosk_def)
  have p9: "(9 :: u32) < 10 \<or> (9 :: u32) > 10000" by simp
  have p10001: "(10001 :: u32) < 10 \<or> (10001 :: u32) > 10000" by simp
  have p10: "(10 :: u32) \<le> 10 \<and> (10 :: u32) \<le> 10000" by simp
  have p10000: "(10 :: u32) \<le> 10000 \<and> (10000 :: u32) \<le> 10000" by simp
  have u: "unat (3 :: u8) - 1 = 2" by simp
  have a: "HoneyVending_SetPrice 3 9 kiosk = kiosk"
    using SetPrice_bounds [of kiosk 3 9] h p9 by blast
  have b: "HoneyVending_SetPrice 3 10001 kiosk = kiosk"
    using SetPrice_bounds [of kiosk 3 10001] h p10001 by blast
  have "box_price (HoneyVending_SetPrice 3 10 kiosk) ! (unat (3 :: u8) - 1) = 10"
    using SetPrice_bounds [of kiosk 3 10] h p10 by blast
  then have c: "box_price (HoneyVending_SetPrice 3 10 kiosk) ! 2 = 10"
    by (simp only: u)
  have "box_price (HoneyVending_SetPrice 3 10000 kiosk) ! (unat (3 :: u8) - 1) = 10000"
    using SetPrice_bounds [of kiosk 3 10000] h p10000 by blast
  then have d: "box_price (HoneyVending_SetPrice 3 10000 kiosk) ! 2 = 10000"
    by (simp only: u)
  from h a b c d show ?thesis by blast
qed


section \<open>Reset and deselection\<close>

lemma CmndVendingReset_session:
  "total_cents (CmndVendingReset s) = 0"
  "coins_detected (CmndVendingReset s) = 0"
  "pulse_count (CmndVendingReset s) = 0"
  "honey_available (CmndVendingReset s) = False"
  "selected_box_id (CmndVendingReset s) = 0"
  by (simp_all add: CmndVendingReset_def HoneyVending_PublishSystemMQTT_eq ResponseCmndDone_def
        Response_P_def)

lemma CmndVendingSelectBox_deselect:
  "data_len mb = 0 \<or> (word_of_int (atoi (data mb)) :: u8) < 1 \<or>
     (word_of_int (atoi (data mb)) :: u8) > box_count s \<Longrightarrow>
   CmndVendingSelectBox mb s =
     s\<lparr>selected_box_id := 0, total_cents := 0, coins_detected := 0, honey_available := False,
       response := DeselectedJson\<rparr>"
  by (auto simp: CmndVendingSelectBox_def Response_P_def Let_def)

lemma HoneyVending_SelectBox_pulse:
  "pulse_count (HoneyVending_SelectBox b s) = pulse_count s"
  "last_pulse_ms (HoneyVending_SelectBox b s) = last_pulse_ms s"
  by (simp_all add: HoneyVending_SelectBox_def HoneyVending_PublishSystemMQTT_eq)


text \<open>
  C5.  The reset command zeroes all five session fields: \<open>total_cents\<close>,
  \<open>coins_detected\<close>, the pulse counter, \<open>honey_available\<close> and \<open>selected_box_id\<close>.
  Deselection (\<open>VendingSelectBox\<close> without an argument, or with an id outside the box
  count) zeroes \<open>total_cents\<close>, \<open>coins_detected\<close>, \<open>honey_available\<close> and
  \<open>selected_box_id\<close>, and leaves the pulse counter as it is.
\<close>

theorem reset_and_deselect_fields:
  "(total_cents (CmndVendingReset s) = 0 \<and> coins_detected (CmndVendingReset s) = 0 \<and>
    pulse_count (CmndVendingReset s) = 0 \<and> \<not> honey_available (CmndVendingReset s) \<and>
    selected_box_id (CmndVendingReset s) = 0) \<and>
   (data_len mb = 0 \<or> (word_of_int (atoi (data mb)) :: u8) < 1 \<or>
      (word_of_int (atoi (data mb)) :: u8) > box_count s \<longrightarrow>
    total_cents (CmndVendingSelectBox mb s) = 0 \<and>
    coins_detected (CmndVendingSelectBox mb s) = 0 \<and>
    \<not> honey_available (CmndVendingSelectBox mb s) \<and>
    selected_box_id (CmndVendingSelectBox mb s) = 0 \<and>
    pulse_count (CmndVendingSelectBox mb s) = pulse_count s)"
  by (auto simp: CmndVendingReset_session CmndVendingSelectBox_deselect)

theorem reset_and_deselect_fields_witness:
  "(word_of_int (atoi (data \<lparr>data_len = 2, data = ''99''\<rparr>)) :: u8) > box_count kiosk \<and>
   total_cents (CmndVendingSelectBox \<lparr>data_len = 2, data = ''99''\<rparr>
                  (kiosk\<lparr>selected_box_id := 3, total_cents := 120, coins_detected := 2,
                         pulse_count := 5\<rparr>)) = 0 \<and>
   selected_box_id (CmndVendingSelectBox \<lparr>data_len = 2, data = ''99''\<rparr>
                  (kiosk\<lparr>selected_box_id := 3, total_cents := 120, coins_detected := 2,
                         pulse_count := 5\<rparr>)) = 0 \<and>
   pulse_count (CmndVendingSelectBox \<lparr>data_len = 2, data = ''99''\<rparr>
                  (kiosk\<lparr>selected_box_id := 3, total_cents := 120, coins_detected := 2,
                         pulse_count := 5\<rparr>)) = 5"
proof -
  have h: "(word_of_int (atoi (data \<lparr>data_len = 2, data = ''99''\<rparr>)) :: u8) > box_count kiosk"
    by (simp add: atoi_def strtol_range_def LONG_BITS_def is_space_def is_digit_def kiosk_def)
  have h': "(word_of_int (atoi (data \<lparr>data_len = 2, data = ''99''\<rparr>)) :: u8) >
       box_count (kiosk\<lparr>selected_box_id := 3, total_cents := 120, coins_detected := 2,
                         pulse_count := 5\<rparr>)"
    using h by simp
  from reset_and_deselect_fields [of "kiosk\<lparr>selected_box_id := 3, total_cents := 120, coins_detected := 2,
                         pulse_count := 5\<rparr>" "\<lparr>data_len = 2, data = ''99''\<rparr>"] h'
  have "total_cents (CmndVendingSelectBox \<lparr>data_len = 2, data = ''99''\<rparr>
                  (kiosk\<lparr>selected_box_id := 3, total_cents := 120, coins_detected := 2,
                         pulse_count := 5\<rparr>)) = 0 \<and>
   selected_box_id (CmndVendingSelectBox \<lparr>data_len = 2, data = ''99''\<rparr>
                  (kiosk\<lparr>selected_box_id := 3, total_cents := 120, coins_detected := 2,
                         pulse_count := 5\<rparr>)) = 0 \<and>
   pulse_count (CmndVendingSelectBox \<lparr>data_len = 2, data = ''99''\<rparr>
                  (kiosk\<lparr>selected_box_id := 3, total_cents := 120, coins_detected := 2,
                         pulse_count := 5\<rparr>)) = 
     pulse_count (kiosk\<lparr>selected_box_id := 3, total_cents := 120, coins_detected := 2,
                         pulse_count := 5\<rparr>)"
    by blast
  with h show ?thesis by simp
qed


text \<open>
  Two pulses of a coin have arrived for box 3 when the operator deselects: the pulse counter
  still holds 2 afterwards.
\<close>

theorem deselect_keeps_pulse_counter:
  "pulse_count (CmndVendingSelectBox \<lparr>data_len = 0, data = []\<rparr>
     (HoneyVending_PulseISR 2010 (HoneyVending_PulseISR 2000 (HoneyVending_SelectBox 3 kiosk)))) = 2 \<and>
   pulse_count (CmndVendingSelectBox \<lparr>data_len = 0, data = []\<rparr>
     (HoneyVending_PulseISR 2010 (HoneyVending_PulseISR 2000 (HoneyVending_SelectBox 3 kiosk)))) \<noteq> 0"
proof -
  have k: "pulse_count kiosk = 0" by (simp add: kiosk_def)
  have "pulse_count (HoneyVending_PulseISR 2010 (HoneyVending_PulseISR 2000 (HoneyVending_SelectBox 3 kiosk))) = 2"
    by (simp add: HoneyVending_PulseISR_def HoneyVending_SelectBox_pulse k Let_def PULSE_DEBOUNCE_MS_def)
  then show ?thesis
    by (simp add: CmndVendingSelectBox_deselect)
qed


section \<open>LCD writes\<close>

text \<open>
  C6.  Writing the text \<open>Hi\<close> at row 0, column 0 over the start-up splash: \<open>strncpy\<close>
  fills the rest of the 16 bytes with terminators, so the string that is printed is just
  \<open>Hi\<close>; the display row keeps the old characters from column 2 on and is not the text
  followed by 14 spaces.
\<close>

theorem LCD_WriteText_short_text_leaves_old_characters:
  "c_str (LCD_padded 0 ''Hi'') = ''Hi'' \<and>
   lcd_rows (LCD_WriteText 0 0 ''Hi'' kiosk) = [''HiHoney Vending '', ''   Starting...  ''] \<and>
   lcd_rows (LCD_WriteText 0 0 ''Hi'' kiosk) \<noteq> [''Hi              '', ''   Starting...  '']"
  by (simp add: LCD_WriteText_def kiosk_def LCD_ROWS_def lcd_print_at_def LCD_padded_def
        memset_def strncpy_def c_str_def NUL_def LCD_COLS_def eval_nat_numeral)



section \<open>Solenoid locks\<close>

lemma ShiftReg_SetBit_other [simp]:
  "unlocked_box_id (ShiftReg_SetBit p st s) = unlocked_box_id s"
  "unlock_start_ms (ShiftReg_SetBit p st s) = unlock_start_ms s"
  "box_count (ShiftReg_SetBit p st s) = box_count s"
  using ShiftReg_SetBit_upd [of p st s] by auto

lemma ShiftReg_SetBit_length [simp]:
  "length (shift_reg_state (ShiftReg_SetBit p st s)) = length (shift_reg_state s)"
  by (simp add: ShiftReg_SetBit_def ShiftReg_Write_def Let_def)

lemma bit_one_shifted: "bit (2 ^ k :: u32) m = (m = k \<and> k < 32)"
  by (auto simp: bit_exp_iff)

lemma box_id_valid: "1 \<le> (b :: u8) \<Longrightarrow> b \<le> bc \<Longrightarrow> (b < 1 \<or> bc < b) = False"
  by (auto simp: word_less_one_iff word_one_le_iff)

lemma div_mod_8_eq: "(q div 8 = p div 8 \<and> q mod 8 = p mod 8) = (q = (p :: nat))"
  by (metis div_mult_mod_eq)

lemma ShiftReg_SetBit_bit:
  assumes "unat p < 32" "length (shift_reg_state s) = 4" "q < 32"
  shows "bit (shift_reg_state (ShiftReg_SetBit p st s) ! (q div 8)) (q mod 8) =
           (if q = unat p then st else bit (shift_reg_state s ! (q div 8)) (q mod 8))"
proof -
  have i: "unat p div 8 < length (shift_reg_state s)" "q div 8 < length (shift_reg_state s)"
    using assms by simp_all
  have m: "q mod 8 < 32" "unat p mod 8 < 32"
    using mod_less_divisor [of 8 q] mod_less_divisor [of 8 "unat p"] by linarith+
  show ?thesis
  proof (cases "q div 8 = unat p div 8")
    case True
    then have e: "(q = unat p) = (q mod 8 = unat p mod 8)"
      using div_mod_8_eq [of q "unat p"] by simp
    from True i assms(1) show ?thesis
      by (simp add: ShiftReg_SetBit_def ShiftReg_Write_def Let_def NUM_SHIFT_REGISTERS_def
            bit_or_iff bit_and_iff bit_not_iff bit_one_shifted m e)
  next
    case False
    then have "q \<noteq> unat p" by auto
    with False i assms(1) show ?thesis
      by (simp add: ShiftReg_SetBit_def ShiftReg_Write_def Let_def NUM_SHIFT_REGISTERS_def)
  qed
qed

lemma ShiftReg_SetBit_box_unlocked:
  assumes "unat p < 32" "length (shift_reg_state s) = 4" "1 \<le> c" "c \<le> 32"
  shows "box_unlocked (ShiftReg_SetBit p st s) c =
           (if c - 1 = unat p then st = SOLENOID_ACTIVE_HIGH else box_unlocked s c)"
  using ShiftReg_SetBit_bit [OF assms(1,2), of "c - 1" st] assms(3,4)
  by (simp add: box_unlocked_def)

lemma ShiftReg_SetBit_out_of_range:
  "32 \<le> unat p \<Longrightarrow> ShiftReg_SetBit p st s = s"
  by (simp add: ShiftReg_SetBit_def NUM_SHIFT_REGISTERS_def)

lemma LockBoxKey_invalid: "b < 1 \<or> box_count s < b \<Longrightarrow> LockBoxKey b s = s"
  by (auto simp: LockBoxKey_def)

lemma LockBoxKey_tracking:
  "1 \<le> b \<Longrightarrow> b \<le> box_count s \<Longrightarrow>
   unlocked_box_id (LockBoxKey b s) = (if unlocked_box_id s = b then 0 else unlocked_box_id s) \<and>
   unlock_start_ms (LockBoxKey b s) = (if unlocked_box_id s = b then 0 else unlock_start_ms s)"
  using box_id_valid [of b "box_count s"] by (simp add: LockBoxKey_def Let_def)

lemma LockBoxKey_other [simp]:
  "box_count (LockBoxKey b s) = box_count s"
  "length (shift_reg_state (LockBoxKey b s)) = length (shift_reg_state s)"
  by (simp_all add: LockBoxKey_def Let_def)

lemma unat_minus_one_box: "1 \<le> (b :: u8) \<Longrightarrow> unat (b - 1) = unat b - 1"
  by (simp add: word_one_le_iff unat_minus_one)

lemma LockBoxKey_box_unlocked:
  assumes "1 \<le> b" "b \<le> box_count s" "unat b \<le> 32" "length (shift_reg_state s) = 4"
    "1 \<le> c" "c \<le> 32"
  shows "box_unlocked (LockBoxKey b s) c = (c \<noteq> unat b \<and> box_unlocked s c)"
proof -
  have nz: "0 < unat b" using assms(1) by (simp add: word_one_le_iff unat_gt_0)
  have p: "unat (b - 1) < 32" using assms(1,3) nz by (simp add: unat_minus_one_box)
  have e: "(c - 1 = unat b - 1) = (c = unat b)" using assms(5) nz by auto
  have "box_unlocked (LockBoxKey b s) c =
          box_unlocked (ShiftReg_SetBit (b - 1) (\<not> SOLENOID_ACTIVE_HIGH) s) c"
    using box_id_valid [OF assms(1,2)] by (simp add: LockBoxKey_def Let_def box_unlocked_def)
  also have "\<dots> = (c \<noteq> unat b \<and> box_unlocked s c)"
    using ShiftReg_SetBit_box_unlocked [OF p assms(4,5,6), of "\<not> SOLENOID_ACTIVE_HIGH"] e
    by (simp add: unat_minus_one_box [OF assms(1)])
  finally show ?thesis .
qed


lemma LockBoxKey_far_box:
  assumes "1 \<le> b" "32 < unat b"
  shows "shift_reg_state (LockBoxKey b s) = shift_reg_state s"
proof -
  have "32 \<le> unat (b - 1)"
    using assms by (simp add: unat_minus_one_box)
  then show ?thesis
    by (simp add: LockBoxKey_def Let_def ShiftReg_SetBit_out_of_range)
qed

lemma box_unlocked_cong:
  "shift_reg_state s' = shift_reg_state s \<Longrightarrow> box_unlocked s' c = box_unlocked s c"
  by (simp add: box_unlocked_def)

lemma lock_inv_LockBoxKey:
  assumes "lock_inv s"
  shows "lock_inv (LockBoxKey b s)"
proof (cases "b < 1 \<or> box_count s < b")
  case True
  then show ?thesis using assms by (simp add: LockBoxKey_invalid)
next
  case False
  then have v: "1 \<le> b" "b \<le> box_count s"
    by (simp_all add: not_less word_one_le_iff word_less_one_iff)
  have len: "length (shift_reg_state s) = 4"
    using assms by (simp add: lock_inv_def NUM_SHIFT_REGISTERS_def)
  note tr = LockBoxKey_tracking [OF v]
  have bits: "unat (unlocked_box_id (LockBoxKey b s)) = c"
    if c: "1 \<le> c" "c \<le> 32" and u: "box_unlocked (LockBoxKey b s) c" for c
  proof (cases "unat b \<le> 32")
    case True
    from u have "c \<noteq> unat b" "box_unlocked s c"
      using LockBoxKey_box_unlocked [OF v True len c] by simp_all
    moreover from this c assms have "unat (unlocked_box_id s) = c"
      by (simp add: lock_inv_def)
    ultimately show ?thesis using tr by auto
  next
    case False
    then have far: "32 < unat b" by simp
    from u have "box_unlocked s c"
      using box_unlocked_cong [OF LockBoxKey_far_box [OF v(1) far]] by simp
    with c assms have e: "unat (unlocked_box_id s) = c"
      by (simp add: lock_inv_def)
    with c far have "unlocked_box_id s \<noteq> b" by auto
    with e tr show ?thesis by simp
  qed
  have "unlocked_box_id (LockBoxKey b s) \<le> box_count s"
    "unat (unlocked_box_id (LockBoxKey b s)) \<le> 32"
    using tr assms by (auto simp: lock_inv_def)
  with bits len show ?thesis
    by (simp add: lock_inv_def NUM_SHIFT_REGISTERS_def)
qed

lemma lock_inv_relock_all_locked:
  assumes "lock_inv s" "1 \<le> c" "c \<le> 32"
  shows "\<not> box_unlocked (if unlocked_box_id s > 0 then LockBoxKey (unlocked_box_id s) s else s) c"
proof (cases "unlocked_box_id s > 0")
  case True
  then have v: "1 \<le> unlocked_box_id s" "unlocked_box_id s \<le> box_count s"
    "unat (unlocked_box_id s) \<le> 32"
    using assms(1) by (simp_all add: lock_inv_def word_one_le_iff word_greater_zero_iff)
  have len: "length (shift_reg_state s) = 4"
    using assms by (simp add: lock_inv_def NUM_SHIFT_REGISTERS_def)
  show ?thesis
    using True LockBoxKey_box_unlocked [OF v len assms(2,3)] assms
    by (auto simp: lock_inv_def)
next
  case False
  then have "unlocked_box_id s = 0" by (simp add: word_greater_zero_iff)
  with False assms show ?thesis
    by (auto simp: lock_inv_def)
qed

lemma UnlockBoxKey_invalid:
  "b < 1 \<or> box_count s < b \<or> 32 < unat b \<Longrightarrow> UnlockBoxKey now b s = s"
  by (auto simp: UnlockBoxKey_def NUM_SHIFT_REGISTERS_def)

lemma UnlockBoxKey_valid:
  assumes "1 \<le> b" "b \<le> box_count s" "unat b \<le> 32"
  shows "UnlockBoxKey now b s =
           (ShiftReg_SetBit (b - 1) SOLENOID_ACTIVE_HIGH
              (if unlocked_box_id s > 0 then LockBoxKey (unlocked_box_id s) s else s))
           \<lparr>unlocked_box_id := b, unlock_start_ms := now\<rparr>"
  using box_id_valid [OF assms(1,2)] assms(3)
  by (simp add: UnlockBoxKey_def Let_def NUM_SHIFT_REGISTERS_def)

lemma box_unlocked_tracking_upd [simp]:
  "box_unlocked (s\<lparr>unlocked_box_id := u, unlock_start_ms := t\<rparr>) c = box_unlocked s c"
  by (simp add: box_unlocked_def)

lemma UnlockBoxKey_unlocks:
  assumes "1 \<le> b" "b \<le> box_count s" "unat b \<le> 32" "length (shift_reg_state s) = 4"
  shows "box_unlocked (UnlockBoxKey now b s) (unat b)"
    "unlocked_box_id (UnlockBoxKey now b s) = b"
    "unlock_start_ms (UnlockBoxKey now b s) = now"
    "box_count (UnlockBoxKey now b s) = box_count s"
    "length (shift_reg_state (UnlockBoxKey now b s)) = 4"
proof -
  let ?s1 = "if unlocked_box_id s > 0 then LockBoxKey (unlocked_box_id s) s else s"
  have nz: "0 < unat b" using assms(1) by (simp add: word_one_le_iff unat_gt_0)
  have p: "unat (b - 1) < 32" using assms(1,3) nz by (simp add: unat_minus_one_box)
  have len: "length (shift_reg_state ?s1) = 4" using assms(4) by simp
  have c: "1 \<le> unat b" "unat b \<le> 32" using nz assms(3) by simp_all
  show "box_unlocked (UnlockBoxKey now b s) (unat b)"
    using ShiftReg_SetBit_box_unlocked [OF p len c, of SOLENOID_ACTIVE_HIGH]
    by (simp add: UnlockBoxKey_valid [OF assms(1,2,3)] unat_minus_one_box [OF assms(1)])
  show "unlocked_box_id (UnlockBoxKey now b s) = b"
    "unlock_start_ms (UnlockBoxKey now b s) = now"
    "box_count (UnlockBoxKey now b s) = box_count s"
    "length (shift_reg_state (UnlockBoxKey now b s)) = 4"
    using assms(4) by (simp_all add: UnlockBoxKey_valid [OF assms(1,2,3)])
qed

lemma UnlockBoxKey_only_one:
  assumes "lock_inv s" "1 \<le> b" "b \<le> box_count s" "unat b \<le> 32" "1 \<le> c" "c \<le> 32"
  shows "box_unlocked (UnlockBoxKey now b s) c = (c = unat b)"
proof -
  let ?s1 = "if unlocked_box_id s > 0 then LockBoxKey (unlocked_box_id s) s else s"
  have nz: "0 < unat b" using assms(2) by (simp add: word_one_le_iff unat_gt_0)
  have p: "unat (b - 1) < 32" using assms(2,4) nz by (simp add: unat_minus_one_box)
  have "length (shift_reg_state s) = 4"
    using assms(1) by (simp add: lock_inv_def NUM_SHIFT_REGISTERS_def)
  then have len: "length (shift_reg_state ?s1) = 4" by simp
  have e: "(c - 1 = unat b - 1) = (c = unat b)" using assms(5) nz by auto
  have none: "\<not> box_unlocked ?s1 c"
    using lock_inv_relock_all_locked [OF assms(1,5,6)] .
  show ?thesis
    using ShiftReg_SetBit_box_unlocked [OF p len assms(5,6), of SOLENOID_ACTIVE_HIGH] none e
    by (simp add: UnlockBoxKey_valid [OF assms(2,3,4)] unat_minus_one_box [OF assms(2)])
qed

lemma lock_inv_UnlockBoxKey:
  assumes "lock_inv s"
  shows "lock_inv (UnlockBoxKey now b s)"
proof (cases "b < 1 \<or> box_count s < b \<or> 32 < unat b")
  case True
  then show ?thesis using assms by (simp add: UnlockBoxKey_invalid)
next
  case False
  then have v: "1 \<le> b" "b \<le> box_count s" "unat b \<le> 32"
    by (simp_all add: not_less word_one_le_iff word_less_one_iff)
  have len: "length (shift_reg_state s) = 4"
    using assms by (simp add: lock_inv_def NUM_SHIFT_REGISTERS_def)
  show ?thesis
    using UnlockBoxKey_unlocks [OF v len, of now] UnlockBoxKey_only_one [OF assms v, of _ now] v
    by (auto simp: lock_inv_def NUM_SHIFT_REGISTERS_def)
qed

lemma lock_inv_fold:
  "lock_inv s \<Longrightarrow> lock_inv (fold lock_step ops s)"
proof (induction ops arbitrary: s)
  case Nil
  then show ?case by simp
next
  case (Cons x xs)
  have "lock_inv (lock_step x s)"
    using Cons.prems by (cases x) (simp_all add: lock_inv_LockBoxKey lock_inv_UnlockBoxKey)
  then show ?case using Cons.IH by simp
qed

lemma LockAllBoxes_state:
  assumes "length (shift_reg_state s) = 4"
  shows "shift_reg_state (LockAllBoxes s) = [0, 0, 0, 0]"
    "unlocked_box_id (LockAllBoxes s) = 0"
    "unlock_start_ms (LockAllBoxes s) = 0"
    "box_count (LockAllBoxes s) = box_count s"
proof -
  obtain a b c d where x: "shift_reg_state s = [a, b, c, d]"
    using assms by (auto simp: length_Suc_conv eval_nat_numeral)
  have u: "[0..<4] = [0, 1, 2, 3]" by (simp add: upt_rec)
  show "shift_reg_state (LockAllBoxes s) = [0, 0, 0, 0]"
    "unlocked_box_id (LockAllBoxes s) = 0"
    "unlock_start_ms (LockAllBoxes s) = 0"
    "box_count (LockAllBoxes s) = box_count s"
    using x by (simp_all add: LockAllBoxes_def Let_def NUM_SHIFT_REGISTERS_def u
        SOLENOID_ACTIVE_HIGH_def ShiftReg_Write_def)
qed

lemma lock_inv_LockAllBoxes:
  assumes "length (shift_reg_state s) = 4"
  shows "lock_inv (LockAllBoxes s)"
proof -
  have "\<not> bit ([0, 0, 0, 0 :: u32] ! (c div 8)) (c mod 8)" if "c < 32" for c
  proof -
    have "c div 8 < 4" using that by simp
    then have "c div 8 = 0 \<or> c div 8 = 1 \<or> c div 8 = 2 \<or> c div 8 = 3" by linarith
    then show ?thesis by auto
  qed
  then have "\<not> box_unlocked (LockAllBoxes s) c" if "1 \<le> c" "c \<le> 32" for c
    using that by (simp add: box_unlocked_def LockAllBoxes_state [OF assms] SOLENOID_ACTIVE_HIGH_def)
  then show ?thesis
    by (auto simp: lock_inv_def LockAllBoxes_state [OF assms] NUM_SHIFT_REGISTERS_def)
qed


lemma CheckUnlockTimeout_early:
  "now - unlock_start_ms s < UNLOCK_DURATION_MS \<Longrightarrow> CheckUnlockTimeout now s = s"
  by (simp add: CheckUnlockTimeout_def Let_def not_le [symmetric])


lemma CheckUnlockTimeout_stale:
  "box_count s < unlocked_box_id s \<Longrightarrow> CheckUnlockTimeout now s = s"
  by (simp add: CheckUnlockTimeout_def Let_def LockBoxKey_invalid)


lemma fold_CheckUnlockTimeout_stale:
  "box_count s < unlocked_box_id s \<Longrightarrow> fold CheckUnlockTimeout ts s = s"
  by (induction ts) (simp_all add: CheckUnlockTimeout_stale)



text \<open>
  Runs of lock operations from the all-locked state, the box count unchanged.  Start with
  all boxes locked and run any sequence of unlock and lock operations.  Afterwards at most
  one of the 32 outputs has the unlock polarity, and it belongs to the tracked box.
  Unlocking a box while another one is tracked first locks the tracked box, which leaves
  every output locked and clears the tracking, then sets the new box's bit to the unlock
  polarity and records the new box and the time; after it the new box is the only one
  unlocked.
\<close>

lemma single_unlock_over_lock_operations:
  "length (shift_reg_state s0) = NUM_SHIFT_REGISTERS \<longrightarrow>
   (\<forall>ops.
      let S = fold lock_step ops (LockAllBoxes s0) in
      (\<forall>c d. 1 \<le> c \<and> c \<le> 32 \<and> 1 \<le> d \<and> d \<le> 32 \<and> box_unlocked S c \<and> box_unlocked S d
         \<longrightarrow> c = d) \<and>
      (\<forall>c. 1 \<le> c \<and> c \<le> 32 \<and> box_unlocked S c \<longrightarrow> unat (unlocked_box_id S) = c) \<and>
      (\<forall>now b. 1 \<le> b \<and> b \<le> box_count S \<and> unat b \<le> 32 \<and> unlocked_box_id S \<noteq> 0 \<longrightarrow>
         (\<forall>c. 1 \<le> c \<and> c \<le> 32 \<longrightarrow> \<not> box_unlocked (LockBoxKey (unlocked_box_id S) S) c) \<and>
         unlocked_box_id (LockBoxKey (unlocked_box_id S) S) = 0 \<and>
         UnlockBoxKey now b S =
           (ShiftReg_SetBit (b - 1) SOLENOID_ACTIVE_HIGH (LockBoxKey (unlocked_box_id S) S))
             \<lparr>unlocked_box_id := b, unlock_start_ms := now\<rparr> \<and>
         unlocked_box_id (UnlockBoxKey now b S) = b \<and>
         (\<forall>c. 1 \<le> c \<and> c \<le> 32 \<longrightarrow> box_unlocked (UnlockBoxKey now b S) c = (c = unat b))))"
proof (intro impI allI)
  fix ops
  assume len0: "length (shift_reg_state s0) = NUM_SHIFT_REGISTERS"
  define S where "S = fold lock_step ops (LockAllBoxes s0)"
  have inv: "lock_inv S"
    unfolding S_def using len0
    by (intro lock_inv_fold lock_inv_LockAllBoxes) (simp add: NUM_SHIFT_REGISTERS_def)
  have tracked: "unat (unlocked_box_id S) = c" if "1 \<le> c" "c \<le> 32" "box_unlocked S c" for c
    using inv that by (simp add: lock_inv_def)
  have one: "c = d" if "1 \<le> c" "c \<le> 32" "1 \<le> d" "d \<le> 32" "box_unlocked S c" "box_unlocked S d" for c d
    using tracked [of c] tracked [of d] that by simp
  have unl: "(\<forall>c. 1 \<le> c \<and> c \<le> 32 \<longrightarrow> \<not> box_unlocked (LockBoxKey (unlocked_box_id S) S) c) \<and>
         unlocked_box_id (LockBoxKey (unlocked_box_id S) S) = 0 \<and>
         UnlockBoxKey now b S =
           (ShiftReg_SetBit (b - 1) SOLENOID_ACTIVE_HIGH (LockBoxKey (unlocked_box_id S) S))
             \<lparr>unlocked_box_id := b, unlock_start_ms := now\<rparr> \<and>
         unlocked_box_id (UnlockBoxKey now b S) = b \<and>
         (\<forall>c. 1 \<le> c \<and> c \<le> 32 \<longrightarrow> box_unlocked (UnlockBoxKey now b S) c = (c = unat b))"
    if v: "1 \<le> b" "b \<le> box_count S" "unat b \<le> 32" and u: "unlocked_box_id S \<noteq> 0" for now b
  proof -
    have pos: "unlocked_box_id S > 0" using u by (simp add: word_greater_zero_iff)
    have uv: "1 \<le> unlocked_box_id S" "unlocked_box_id S \<le> box_count S"
      using u inv by (simp_all add: word_one_le_iff lock_inv_def)
    have len: "length (shift_reg_state S) = 4"
      using inv by (simp add: lock_inv_def NUM_SHIFT_REGISTERS_def)
    have a: "\<forall>c. 1 \<le> c \<and> c \<le> 32 \<longrightarrow> \<not> box_unlocked (LockBoxKey (unlocked_box_id S) S) c"
      using lock_inv_relock_all_locked [OF inv] pos by auto
    have b: "unlocked_box_id (LockBoxKey (unlocked_box_id S) S) = 0"
      using LockBoxKey_tracking [OF uv] by simp
    have c: "UnlockBoxKey now b S =
           (ShiftReg_SetBit (b - 1) SOLENOID_ACTIVE_HIGH (LockBoxKey (unlocked_box_id S) S))
             \<lparr>unlocked_box_id := b, unlock_start_ms := now\<rparr>"
      using UnlockBoxKey_valid [OF v, of now] pos by simp
    have d: "unlocked_box_id (UnlockBoxKey now b S) = b"
      using UnlockBoxKey_unlocks(2) [OF v len] .
    have e: "\<forall>c. 1 \<le> c \<and> c \<le> 32 \<longrightarrow> box_unlocked (UnlockBoxKey now b S) c = (c = unat b)"
      using UnlockBoxKey_only_one [OF inv v] by blast
    from a b c d e show ?thesis by blast
  qed
  from one tracked unl
  show "let S = fold lock_step ops (LockAllBoxes s0) in
      (\<forall>c d. 1 \<le> c \<and> c \<le> 32 \<and> 1 \<le> d \<and> d \<le> 32 \<and> box_unlocked S c \<and> box_unlocked S d
         \<longrightarrow> c = d) \<and>
      (\<forall>c. 1 \<le> c \<and> c \<le> 32 \<and> box_unlocked S c \<longrightarrow> unat (unlocked_box_id S) = c) \<and>
      (\<forall>now b. 1 \<le> b \<and> b \<le> box_count S \<and> unat b \<le> 32 \<and> unlocked_box_id S \<noteq> 0 \<longrightarrow>
         (\<forall>c. 1 \<le> c \<and> c \<le> 32 \<longrightarrow> \<not> box_unlocked (LockBoxKey (unlocked_box_id S) S) c) \<and>
         unlocked_box_id (LockBoxKey (unlocked_box_id S) S) = 0 \<and>
         UnlockBoxKey now b S =
           (ShiftReg_SetBit (b - 1) SOLENOID_ACTIVE_HIGH (LockBoxKey (unlocked_box_id S) S))
             \<lparr>unlocked_box_id := b, unlock_start_ms := now\<rparr> \<and>
         unlocked_box_id (UnlockBoxKey now b S) = b \<and>
         (\<forall>c. 1 \<le> c \<and> c \<le> 32 \<longrightarrow> box_unlocked (UnlockBoxKey now b S) c = (c = unat b)))"
    unfolding Let_def S_def [symmetric] by blast
qed


lemma single_unlock_at_the_kiosk:
  "length (shift_reg_state kiosk) = NUM_SHIFT_REGISTERS \<and>
   (1 :: u8) \<le> 5 \<and>
   5 \<le> box_count (fold lock_step [Unlock 1000 3] (LockAllBoxes kiosk)) \<and>
   unat (5 :: u8) \<le> 32 \<and>
   unlocked_box_id (fold lock_step [Unlock 1000 3] (LockAllBoxes kiosk)) \<noteq> 0 \<and>
   unlocked_box_id (UnlockBoxKey 2000 5 (fold lock_step [Unlock 1000 3] (LockAllBoxes kiosk))) = 5 \<and>
   box_unlocked (UnlockBoxKey 2000 5 (fold lock_step [Unlock 1000 3] (LockAllBoxes kiosk))) 5 \<and>
   \<not> box_unlocked (UnlockBoxKey 2000 5 (fold lock_step [Unlock 1000 3] (LockAllBoxes kiosk))) 3"
proof -
  define S where "S = fold lock_step [Unlock 1000 3] (LockAllBoxes kiosk)"
  have len: "length (shift_reg_state kiosk) = 4"
    by (simp add: kiosk_def)
  have h0: "length (shift_reg_state kiosk) = NUM_SHIFT_REGISTERS"
    by (simp add: kiosk_def NUM_SHIFT_REGISTERS_def)
  have "box_count kiosk = 20"
    by (simp add: kiosk_def)
  then have bc: "box_count (LockAllBoxes kiosk) = 20"
    by (simp only: LockAllBoxes_state(4) [OF len])
  have len': "length (shift_reg_state (LockAllBoxes kiosk)) = 4"
    by (simp add: LockAllBoxes_state [OF len])
  have v: "(1 :: u8) \<le> 3" "(3 :: u8) \<le> box_count (LockAllBoxes kiosk)" "unat (3 :: u8) \<le> 32"
    by (simp_all add: bc)
  have S: "S = UnlockBoxKey 1000 3 (LockAllBoxes kiosk)"
    by (simp add: S_def)
  have h1: "(1 :: u8) \<le> 5" and h3: "unat (5 :: u8) \<le> 32"
    by simp_all
  have h2: "5 \<le> box_count S"
    by (simp add: S UnlockBoxKey_unlocks(4) [OF v len'] bc)
  have h4: "unlocked_box_id S \<noteq> 0"
    by (simp add: S UnlockBoxKey_unlocks(2) [OF v len'])
  have c3: "(1 :: nat) \<le> 3 \<and> (3 :: nat) \<le> 32" and c5: "(1 :: nat) \<le> 5 \<and> (5 :: nat) \<le> 32"
    by simp_all
  from single_unlock_over_lock_operations [of kiosk] h0
  have "\<forall>now b. 1 \<le> b \<and> b \<le> box_count S \<and> unat b \<le> 32 \<and> unlocked_box_id S \<noteq> 0 \<longrightarrow>
         unlocked_box_id (UnlockBoxKey now b S) = b \<and>
         (\<forall>c. 1 \<le> c \<and> c \<le> 32 \<longrightarrow> box_unlocked (UnlockBoxKey now b S) c = (c = unat b))"
    unfolding S_def Let_def by blast
  with h1 h2 h3 h4
  have r: "unlocked_box_id (UnlockBoxKey 2000 5 S) = 5 \<and>
         (\<forall>c. 1 \<le> c \<and> c \<le> 32 \<longrightarrow> box_unlocked (UnlockBoxKey 2000 5 S) c = (c = unat (5 :: u8)))"
    by blast
  then have r5: "box_unlocked (UnlockBoxKey 2000 5 S) 5" and r3: "\<not> box_unlocked (UnlockBoxKey 2000 5 S) 3"
    using c3 c5 by simp_all
  from h0 h1 h2 h3 h4 r r5 r3 show ?thesis
    unfolding S_def by blast
qed



section \<open>Unlock timeout\<close>

lemma CheckUnlockTimeout_last_check:
  "CheckUnlockTimeout now (s\<lparr>last_check := x\<rparr>) = (CheckUnlockTimeout now s)\<lparr>last_check := x\<rparr>"
  by (simp add: CheckUnlockTimeout_def LockBoxKey_def ShiftReg_SetBit_def ShiftReg_Write_def Let_def)

lemma coin_detected_idle:
  assumes "selected_box_id s = 0"
  shows "\<exists>L R M. coin_detected now utc v s =
           s\<lparr>total_cents := total_cents s + v, last_coin_cents := v,
             coins_detected := coins_detected s + 1, lcd_rows := L, response := R, mqtt_out := M\<rparr>"
proof -
  let ?a = "s\<lparr>total_cents := total_cents s + v, last_coin_cents := v,
                coins_detected := coins_detected s + 1\<rparr>"
  obtain L where L: "LCD_WriteText 1 0
      (snprintf (LCD_COLS + 1) (''Total: '' @ CentsToEuroString (total_cents ?a) 16)) ?a = ?a\<lparr>lcd_rows := L\<rparr>"
    using LCD_WriteText_upd by blast
  have "coin_detected now utc v s = HoneyVending_PublishSystemMQTT (?a\<lparr>lcd_rows := L\<rparr>)"
    using assms L by (simp add: coin_detected_def Let_def HoneyVending_PublishSystemMQTT_eq)
  also have "\<dots> = s\<lparr>total_cents := total_cents s + v, last_coin_cents := v,
             coins_detected := coins_detected s + 1, lcd_rows := L,
             response := response (HoneyVending_PublishSystemMQTT (?a\<lparr>lcd_rows := L\<rparr>)),
             mqtt_out := mqtt_out (HoneyVending_PublishSystemMQTT (?a\<lparr>lcd_rows := L\<rparr>))\<rparr>"
    by (simp add: HoneyVending_PublishSystemMQTT_eq)
  finally show ?thesis by blast
qed

lemma tick_idle:
  assumes "selected_box_id s = 0"
  shows "lock_fields (HoneyVending_Every100ms now utc gpa gpb s) =
           lock_fields (if initialized s \<and> \<not> now - last_check s < 100
                        then CheckUnlockTimeout now s else s)"
    and "selected_box_id (HoneyVending_Every100ms now utc gpa gpb s) = 0"
    and "box_count (HoneyVending_Every100ms now utc gpa gpb s) = box_count s"
    and "initialized (HoneyVending_Every100ms now utc gpa gpb s) = initialized s"
    and "last_check (HoneyVending_Every100ms now utc gpa gpb s) =
           (if initialized s \<and> \<not> now - last_check s < 100 then now else last_check s)"
proof -
  let ?s1 = "s\<lparr>last_check := now\<rparr>"
  let ?s2 = "CheckUnlockTimeout now ?s1"
  obtain R G U T where c: "?s2 = ?s1\<lparr>shift_reg_state := R, gpio := G, unlocked_box_id := U,
      unlock_start_ms := T\<rparr>"
    using CheckUnlockTimeout_upd by blast
  have lf: "lock_fields ?s2 = lock_fields (CheckUnlockTimeout now s)"
    by (simp add: CheckUnlockTimeout_last_check lock_fields_def)
  have sel2: "selected_box_id ?s2 = 0"
    using assms by (simp add: c)
  obtain L1 R1 M1 where cd: "coin_detected now utc (PulsesToCents (pulse_count ?s2)) ?s2 =
      ?s2\<lparr>total_cents := total_cents ?s2 + PulsesToCents (pulse_count ?s2),
          last_coin_cents := PulsesToCents (pulse_count ?s2),
          coins_detected := coins_detected ?s2 + 1, lcd_rows := L1, response := R1, mqtt_out := M1\<rparr>"
    using coin_detected_idle [OF sel2] by blast
  define s3 where "s3 = (if pulse_count ?s2 > 0 \<and> now - last_pulse_ms ?s2 \<ge> COIN_TIMEOUT_MS
                  then
                    (if PulsesToCents (pulse_count ?s2) > 0
                     then coin_detected now utc (PulsesToCents (pulse_count ?s2)) ?s2 else ?s2)
                    \<lparr>pulse_count := 0\<rparr>
                  else ?s2)"
  have s3: "lock_fields s3 = lock_fields ?s2" "selected_box_id s3 = 0"
    "box_count s3 = box_count s" "initialized s3 = initialized s" "last_check s3 = now"
    unfolding s3_def using sel2 by (auto simp: cd lock_fields_def) (simp_all add: c)
  obtain L B where pb: "poll_buttons gpa gpb s3 = s3\<lparr>lcd_rows := L, last_button_state := B\<rparr>"
    using poll_buttons_upd by blast
  have tick: "HoneyVending_Every100ms now utc gpa gpb s =
      (if \<not> initialized s then s else if now - last_check s < 100 then s
       else poll_buttons gpa gpb s3)"
    by (simp add: HoneyVending_Every100ms_def Let_def s3_def)
  show "lock_fields (HoneyVending_Every100ms now utc gpa gpb s) =
           lock_fields (if initialized s \<and> \<not> now - last_check s < 100
                        then CheckUnlockTimeout now s else s)"
    using s3(1) lf by (simp add: tick pb lock_fields_def)
  show "selected_box_id (HoneyVending_Every100ms now utc gpa gpb s) = 0"
    using s3(2) assms by (simp add: tick pb)
  show "box_count (HoneyVending_Every100ms now utc gpa gpb s) = box_count s"
    using s3(3) by (simp add: tick pb)
  show "initialized (HoneyVending_Every100ms now utc gpa gpb s) = initialized s"
    using s3(4) by (simp add: tick pb)
  show "last_check (HoneyVending_Every100ms now utc gpa gpb s) =
           (if initialized s \<and> \<not> now - last_check s < 100 then now else last_check s)"
    using s3(5) by (simp add: tick pb)
qed


lemma UnlockBoxKey_upd:
  "\<exists>R G U T. UnlockBoxKey now b s =
      s\<lparr>shift_reg_state := R, gpio := G, unlocked_box_id := U, unlock_start_ms := T\<rparr>"
proof -
  let ?s1 = "if unlocked_box_id s > 0 then LockBoxKey (unlocked_box_id s) s else s"
  obtain R G U T where a: "LockBoxKey (unlocked_box_id s) s =
      s\<lparr>shift_reg_state := R, gpio := G, unlocked_box_id := U, unlock_start_ms := T\<rparr>"
    using LockBoxKey_upd by blast
  obtain R' G' where b: "ShiftReg_SetBit (b - 1) SOLENOID_ACTIVE_HIGH ?s1 =
      ?s1\<lparr>shift_reg_state := R', gpio := G'\<rparr>"
    using ShiftReg_SetBit_upd by blast
  have "UnlockBoxKey now b s = s\<lparr>shift_reg_state := shift_reg_state (UnlockBoxKey now b s),
       gpio := gpio (UnlockBoxKey now b s), unlocked_box_id := unlocked_box_id (UnlockBoxKey now b s),
       unlock_start_ms := unlock_start_ms (UnlockBoxKey now b s)\<rparr>"
    using a b by (simp add: UnlockBoxKey_def Let_def)
  then show ?thesis by blast
qed

lemma UnlockBoxKey_session [simp]:
  "selected_box_id (UnlockBoxKey now b s) = selected_box_id s"
  "initialized (UnlockBoxKey now b s) = initialized s"
  "last_check (UnlockBoxKey now b s) = last_check s"
  using UnlockBoxKey_upd [of now b s] by auto

lemma lock_fields_box_unlocked:
  "lock_fields s' = lock_fields s \<Longrightarrow> box_unlocked s' c = box_unlocked s c"
  by (simp add: lock_fields_def box_unlocked_def)

lemma run_ticks_early:
  assumes "selected_box_id s = 0"
    and "\<forall>k\<in>set ticks. fst k - unlock_start_ms s < UNLOCK_DURATION_MS"
  shows "lock_fields (run_ticks ticks s) = lock_fields s \<and>
         selected_box_id (run_ticks ticks s) = 0 \<and>
         box_count (run_ticks ticks s) = box_count s \<and>
         initialized (run_ticks ticks s) = initialized s"
  using assms
proof (induction ticks arbitrary: s)
  case Nil
  then show ?case by simp
next
  case (Cons k ticks)
  obtain now utc gpa gpb where k: "k = (now, utc, gpa, gpb)"
    by (cases k) auto
  let ?t = "HoneyVending_Every100ms now utc gpa gpb s"
  have e: "now - unlock_start_ms s < UNLOCK_DURATION_MS"
    using Cons.prems(2) k by simp
  have lf: "lock_fields ?t = lock_fields s"
    using tick_idle(1) [OF Cons.prems(1), of now utc gpa gpb] CheckUnlockTimeout_early [OF e]
    by simp
  then have st: "unlock_start_ms ?t = unlock_start_ms s"
    by (simp add: lock_fields_def)
  have "lock_fields (run_ticks ticks ?t) = lock_fields ?t \<and>
         selected_box_id (run_ticks ticks ?t) = 0 \<and>
         box_count (run_ticks ticks ?t) = box_count ?t \<and>
         initialized (run_ticks ticks ?t) = initialized ?t"
    using Cons.prems(2) st
    by (intro Cons.IH tick_idle(2) [OF Cons.prems(1)]) simp
  then show ?case
    using lf tick_idle(3,4) [OF Cons.prems(1), of now utc gpa gpb] by (simp add: k)
qed

lemma run_ticks_stale:
  assumes "selected_box_id s = 0" and "box_count s < unlocked_box_id s"
  shows "lock_fields (run_ticks ticks s) = lock_fields s"
  using assms
proof (induction ticks arbitrary: s)
  case Nil
  then show ?case by simp
next
  case (Cons k ticks)
  obtain now utc gpa gpb where k: "k = (now, utc, gpa, gpb)"
    by (cases k) auto
  let ?t = "HoneyVending_Every100ms now utc gpa gpb s"
  have lf: "lock_fields ?t = lock_fields s"
    using tick_idle(1) [OF Cons.prems(1), of now utc gpa gpb] CheckUnlockTimeout_stale [OF Cons.prems(2)]
    by simp
  then have "unlocked_box_id ?t = unlocked_box_id s"
    by (simp add: lock_fields_def)
  then have "box_count ?t < unlocked_box_id ?t"
    using Cons.prems(2) tick_idle(3) [OF Cons.prems(1), of now utc gpa gpb] by simp
  then have "lock_fields (run_ticks ticks ?t) = lock_fields ?t"
    by (intro Cons.IH tick_idle(2) [OF Cons.prems(1)])
  then show ?case using lf by (simp add: k)
qed




section \<open>A tracked box beyond the box count\<close>

text \<open>
  C10.  In a state whose tracked unlocked box has an id above the box count (reached by
  lowering the box count while that box is unlocked), \<open>LockBoxKey\<close> on that box returns
  the state unchanged, so every timeout evaluation, whatever the clock value, returns the
  state unchanged; and while no box is selected, every run of ticks leaves the register
  mirror, \<open>unlocked_box_id\<close> and \<open>unlock_start_ms\<close> as they are.  The timeout never
  locks that box again.
\<close>

theorem tracked_box_beyond_count_is_never_relocked:
  "box_count s < unlocked_box_id s \<longrightarrow>
     LockBoxKey (unlocked_box_id s) s = s \<and>
     (\<forall>now. CheckUnlockTimeout now s = s) \<and>
     (\<forall>ts. fold CheckUnlockTimeout ts s = s) \<and>
     (selected_box_id s = 0 \<longrightarrow>
        (\<forall>ticks. shift_reg_state (run_ticks ticks s) = shift_reg_state s \<and>
                  unlocked_box_id (run_ticks ticks s) = unlocked_box_id s \<and>
                  unlock_start_ms (run_ticks ticks s) = unlock_start_ms s))"
proof
  assume st: "box_count s < unlocked_box_id s"
  have a: "LockBoxKey (unlocked_box_id s) s = s"
    using st by (simp add: LockBoxKey_invalid)
  have b: "\<forall>now. CheckUnlockTimeout now s = s"
    using st by (simp add: CheckUnlockTimeout_stale)
  have c: "\<forall>ts. fold CheckUnlockTimeout ts s = s"
    using st by (simp add: fold_CheckUnlockTimeout_stale)
  have d: "selected_box_id s = 0 \<longrightarrow>
        (\<forall>ticks. shift_reg_state (run_ticks ticks s) = shift_reg_state s \<and>
                  unlocked_box_id (run_ticks ticks s) = unlocked_box_id s \<and>
                  unlock_start_ms (run_ticks ticks s) = unlock_start_ms s)"
  proof (intro impI allI)
    fix ticks
    assume "selected_box_id s = 0"
    from run_ticks_stale [OF this st, of ticks]
    show "shift_reg_state (run_ticks ticks s) = shift_reg_state s \<and>
                  unlocked_box_id (run_ticks ticks s) = unlocked_box_id s \<and>
                  unlock_start_ms (run_ticks ticks s) = unlock_start_ms s"
      by (simp add: lock_fields_def)
  qed
  from a b c d show "LockBoxKey (unlocked_box_id s) s = s \<and>
     (\<forall>now. CheckUnlockTimeout now s = s) \<and>
     (\<forall>ts. fold CheckUnlockTimeout ts s = s) \<and>
     (selected_box_id s = 0 \<longrightarrow>
        (\<forall>ticks. shift_reg_state (run_ticks ticks s) = shift_reg_state s \<and>
                  unlocked_box_id (run_ticks ticks s) = unlocked_box_id s \<and>
                  unlock_start_ms (run_ticks ticks s) = unlock_start_ms s))"
    by blast
qed

theorem tracked_box_beyond_count_is_never_relocked_witness:
  "box_count (HoneyVending_SetBoxCount 5000 1700000000 15 (UnlockBoxKey 1000 20 kiosk)) <
     unlocked_box_id (HoneyVending_SetBoxCount 5000 1700000000 15 (UnlockBoxKey 1000 20 kiosk)) \<and>
   selected_box_id (HoneyVending_SetBoxCount 5000 1700000000 15 (UnlockBoxKey 1000 20 kiosk)) = 0 \<and>
   box_unlocked (HoneyVending_SetBoxCount 5000 1700000000 15 (UnlockBoxKey 1000 20 kiosk)) 20 \<and>
   CheckUnlockTimeout 4000000000
       (HoneyVending_SetBoxCount 5000 1700000000 15 (UnlockBoxKey 1000 20 kiosk)) =
     HoneyVending_SetBoxCount 5000 1700000000 15 (UnlockBoxKey 1000 20 kiosk) \<and>
   unlocked_box_id (run_ticks [(100000, 0, 0xFF, 0xFF), (4000000000, 0, 0xFF, 0xFF)]
       (HoneyVending_SetBoxCount 5000 1700000000 15 (UnlockBoxKey 1000 20 kiosk))) = 20 \<and>
   box_unlocked (run_ticks [(100000, 0, 0xFF, 0xFF), (4000000000, 0, 0xFF, 0xFF)]
       (HoneyVending_SetBoxCount 5000 1700000000 15 (UnlockBoxKey 1000 20 kiosk))) 20"
proof -
  define u where "u = UnlockBoxKey 1000 20 kiosk"
  define S where "S = HoneyVending_SetBoxCount 5000 1700000000 15 u"
  have v: "(1 :: u8) \<le> 20" "(20 :: u8) \<le> box_count kiosk" "unat (20 :: u8) \<le> 32"
    "length (shift_reg_state kiosk) = 4"
    by (simp_all add: kiosk_def)
  note uu = UnlockBoxKey_unlocks [OF v, of 1000, folded u_def]
  have su: "selected_box_id u = 0"
    by (simp add: u_def) (simp add: kiosk_def)
  obtain bs lc bp st r ms d l where "S =
       u\<lparr>box_count := (if (15 :: u8) < 1 \<or> unat (15 :: u8) > MAX_HONEY_BOX_COUNT
                          then box_count u else 15),
         box_status := bs, box_last_changed := lc, box_price := bp, settings := st,
         response := r, mqtt_out := mqtt_out u @ ms, discovery_sent := d, last_publish_ms := l\<rparr>"
    using HoneyVending_SetBoxCount_upd [of 5000 1700000000 15 u] unfolding S_def by blast
  then have S: "S = u\<lparr>box_count := 15,
         box_status := bs, box_last_changed := lc, box_price := bp, settings := st,
         response := r, mqtt_out := mqtt_out u @ ms, discovery_sent := d, last_publish_ms := l\<rparr>"
    by (simp add: MAX_HONEY_BOX_COUNT_def)
  have f: "box_count S = 15" "unlocked_box_id S = 20" "selected_box_id S = 0"
    "shift_reg_state S = shift_reg_state u"
    using uu(2) su by (simp_all add: S)
  have h: "box_count S < unlocked_box_id S"
    by (simp add: f)
  have bu: "box_unlocked S 20"
    using uu(1) box_unlocked_cong [OF f(4), of 20] by simp
  note t = tracked_box_beyond_count_is_never_relocked [of S]
  have a: "CheckUnlockTimeout 4000000000 S = S"
    using t h by blast
  have b: "shift_reg_state (run_ticks [(100000, 0, 0xFF, 0xFF), (4000000000, 0, 0xFF, 0xFF)] S) =
             shift_reg_state S \<and>
           unlocked_box_id (run_ticks [(100000, 0, 0xFF, 0xFF), (4000000000, 0, 0xFF, 0xFF)] S) =
             unlocked_box_id S"
    using t h f(3) by blast
  then have c: "unlocked_box_id (run_ticks [(100000, 0, 0xFF, 0xFF), (4000000000, 0, 0xFF, 0xFF)] S) = 20"
    and e: "box_unlocked (run_ticks [(100000, 0, 0xFF, 0xFF), (4000000000, 0, 0xFF, 0xFF)] S) 20"
    using f(2) bu box_unlocked_cong [of "run_ticks [(100000, 0, 0xFF, 0xFF), (4000000000, 0, 0xFF, 0xFF)] S" S 20]
    by simp_all
  from h f(3) bu a c e show ?thesis
    unfolding S_def u_def by blast
qed



section \<open>Withdrawing discovery when the box count shrinks\<close>

lemma fold_MqttPublish_out:
  "mqtt_connected s \<Longrightarrow>
   fold (\<lambda>i st. MqttPublish (f i) r st) xs s =
     s\<lparr>mqtt_out := mqtt_out s @ map (\<lambda>i. \<lparr>topic = f i, body = response s, retained = r\<rparr>) xs\<rparr>"
proof (induction xs arbitrary: s)
  case Nil
  show ?case by simp
next
  case (Cons x xs)
  let ?t = "s\<lparr>mqtt_out := mqtt_out s @ [\<lparr>topic = f x, body = response s, retained = r\<rparr>]\<rparr>"
  have "MqttPublish (f x) r s = ?t"
    using Cons.prems by (simp add: MqttPublish_def)
  moreover have "fold (\<lambda>i st. MqttPublish (f i) r st) xs ?t =
      ?t\<lparr>mqtt_out := mqtt_out ?t @ map (\<lambda>i. \<lparr>topic = f i, body = response ?t, retained = r\<rparr>) xs\<rparr>"
    using Cons.prems by (intro Cons.IH) simp
  ultimately show ?case by simp
qed

lemma HoneyVending_CleanupOldBoxes_eq:
  assumes "new_count < old_count" "mqtt_connected s"
  shows "HoneyVending_CleanupOldBoxes old_count new_count s =
           s\<lparr>mqtt_out := mqtt_out s @
                map (\<lambda>i. \<lparr>topic = discovery_box_topic (snprintf 64 (device_name s)) i,
                          body = response s, retained = True\<rparr>)
                  [unat new_count + 1..<Suc (unat old_count)]\<rparr>"
proof -
  have n: "\<not> old_count \<le> new_count"
    using assms(1) by (simp add: not_le)
  show ?thesis
    using n assms(2) fold_MqttPublish_out [OF assms(2),
      of "discovery_box_topic (snprintf 64 (device_name s))" True
         "[unat new_count + 1..<Suc (unat old_count)]"]
    by (simp add: HoneyVending_CleanupOldBoxes_def Let_def del: upt_Suc)
qed

lemma HoneyVending_SetBoxCount_shrink:
  assumes "1 \<le> c" "c \<le> box_count s" "unat c \<le> MAX_HONEY_BOX_COUNT"
  shows "\<exists>st r ms d l.
     HoneyVending_SetBoxCount now utc c s =
       s\<lparr>box_count := c, settings := st, response := r,
         mqtt_out := mqtt_out s @
           (if mqtt_connected s \<and> c < box_count s
            then map (\<lambda>i. \<lparr>topic = discovery_box_topic (snprintf 64 (device_name s)) i,
                          body = response s, retained = True\<rparr>)
                  [unat c + 1..<Suc (unat (box_count s))]
            else []) @ ms,
         discovery_sent := d, last_publish_ms := l\<rparr>"
proof -
  define s4 where "s4 = (HoneyVending_SavePrices (HoneyVending_SaveStatus
                           (HoneyVending_SaveBoxCount (s\<lparr>box_count := c\<rparr>))))\<lparr>discovery_sent := False\<rparr>"
  define s5 where "s5 = HoneyVending_CleanupOldBoxes (box_count s) c s4"
  define s6 where "s6 = HoneyVending_PublishSystemMQTT
                  (HoneyVending_PublishAllBoxesMQTT now (HoneyVending_PublishDiscovery s5))"
  define cl where "cl = (if mqtt_connected s \<and> c < box_count s
            then map (\<lambda>i. \<lparr>topic = discovery_box_topic (snprintf 64 (device_name s)) i,
                          body = response s, retained = True\<rparr>)
                  [unat c + 1..<Suc (unat (box_count s))]
            else [])"
  define st where "st = settings s4"
  have v: "\<not> (c < 1 \<or> unat c > MAX_HONEY_BOX_COUNT)" "\<not> c > box_count s"
    using assms by (simp_all add: not_less word_less_one_iff word_one_le_iff)
  have s4: "s4 = s\<lparr>box_count := c, settings := st, discovery_sent := False\<rparr>"
    by (simp add: st_def s4_def HoneyVending_SavePrices_eq HoneyVending_SaveStatus_eq
          HoneyVending_SaveBoxCount_eq)
  have s5: "s5 = s4\<lparr>mqtt_out := mqtt_out s @ cl\<rparr>"
  proof (cases "mqtt_connected s \<and> c < box_count s")
    case True
    then have "c < box_count s" "mqtt_connected s4" by (simp_all add: s4)
    from HoneyVending_CleanupOldBoxes_eq [OF this] True show ?thesis
      by (simp add: s5_def cl_def) (simp add: s4)
  next
    case False
    then have e: "s5 = s4"
      by (auto simp: s5_def HoneyVending_CleanupOldBoxes_def s4 not_less)
    have "cl = []" using False by (simp add: cl_def)
    then have "s4\<lparr>mqtt_out := mqtt_out s @ cl\<rparr> = s4"
      by (simp add: s4)
    then show ?thesis by (simp only: e)
  qed
  have "mqtt_only s5 s6"
    unfolding s6_def
    by (rule mqtt_only_trans [OF mqtt_only_PublishDiscovery
            mqtt_only_trans [OF mqtt_only_PublishAllBoxesMQTT mqtt_only_PublishSystemMQTT]])
  then obtain r ms d l where "s6 = s5\<lparr>response := r, mqtt_out := mqtt_out s5 @ ms,
      discovery_sent := d, last_publish_ms := l\<rparr>"
    unfolding mqtt_only_def by blast
  then have s6: "s6 = s\<lparr>box_count := c, settings := st, response := r,
      mqtt_out := mqtt_out s @ cl @ ms, discovery_sent := d, last_publish_ms := l\<rparr>"
    by (simp add: s5 s4)
  have m4: "mqtt_connected (HoneyVending_SavePrices
      (HoneyVending_SaveStatus (HoneyVending_SaveBoxCount (s\<lparr>box_count := c\<rparr>)))) = mqtt_connected s"
    by (simp add: HoneyVending_SavePrices_eq HoneyVending_SaveStatus_eq
          HoneyVending_SaveBoxCount_eq)
  have res: "HoneyVending_SetBoxCount now utc c s = (if mqtt_connected s then s6 else s4)"
    using v m4
    by (simp add: HoneyVending_SetBoxCount_def Let_def s4_def [symmetric]
          s5_def [symmetric] s6_def [symmetric])
  show ?thesis
  proof (cases "mqtt_connected s")
    case True
    have "HoneyVending_SetBoxCount now utc c s =
        s\<lparr>box_count := c, settings := st, response := r,
          mqtt_out := mqtt_out s @ cl @ ms, discovery_sent := d, last_publish_ms := l\<rparr>"
      using True res by (simp add: s6)
    then show ?thesis unfolding cl_def by (intro exI)
  next
    case False
    then have "cl = []" by (simp add: cl_def)
    then have "HoneyVending_SetBoxCount now utc c s =
        s\<lparr>box_count := c, settings := st, response := response s,
          mqtt_out := mqtt_out s @ cl @ [], discovery_sent := False,
          last_publish_ms := last_publish_ms s\<rparr>"
      using False res by (simp add: s4)
    then show ?thesis unfolding cl_def by (intro exI)
  qed
qed

lemma discovery_topics_16_to_20:
  "map (\<lambda>i. discovery_box_topic (snprintf 64 ''hive'') i) [16, 17, 18, 19, 20] =
     [''homeassistant/binary_sensor/hive_box16/config'',
      ''homeassistant/binary_sensor/hive_box17/config'',
      ''homeassistant/binary_sensor/hive_box18/config'',
      ''homeassistant/binary_sensor/hive_box19/config'',
      ''homeassistant/binary_sensor/hive_box20/config'']"
  by (simp add: discovery_box_topic_def snprintf_def fmt_dec_def to_base_numeral digit_char_def)


lemma kiosk_cleanup_messages:
  "map (\<lambda>i. \<lparr>topic = discovery_box_topic (snprintf 64 (device_name kiosk)) i,
              body = response kiosk, retained = True\<rparr>)
     [unat (15 :: u8) + 1..<Suc (unat (20 :: u8))] =
   [\<lparr>topic = ''homeassistant/binary_sensor/hive_box16/config'', body = Raw ''_1'', retained = True\<rparr>,
    \<lparr>topic = ''homeassistant/binary_sensor/hive_box17/config'', body = Raw ''_1'', retained = True\<rparr>,
    \<lparr>topic = ''homeassistant/binary_sensor/hive_box18/config'', body = Raw ''_1'', retained = True\<rparr>,
    \<lparr>topic = ''homeassistant/binary_sensor/hive_box19/config'', body = Raw ''_1'', retained = True\<rparr>,
    \<lparr>topic = ''homeassistant/binary_sensor/hive_box20/config'', body = Raw ''_1'', retained = True\<rparr>]"
proof -
  have r: "[unat (15 :: u8) + 1..<Suc (unat (20 :: u8))] = [16, 17, 18, 19, 20]"
    by (simp add: upt_rec)
  have k: "device_name kiosk = ''hive''" "response kiosk = Raw ''_1''"
    by (simp_all add: kiosk_def)
  show ?thesis
    using discovery_topics_16_to_20 by (simp add: r k)
qed


text \<open>
  C7.  Lowering the box count from 20 to 15 on the connected machine: the clean-up hands
  five retained messages to the broker, one for the discovery topic of each of the boxes
  16 to 20 and none for any other topic, and they are the first messages of the whole
  operation.  Their body is what the response buffer holds when the operation starts
  (here the text left by the host), not an empty payload: the clean-up calls
  \<open>MqttPublish\<close> without clearing or filling the buffer first.
\<close>

theorem shrinking_box_count_publishes_the_response_buffer:
  "mqtt_out (HoneyVending_CleanupOldBoxes 20 15 kiosk) =
     [\<lparr>topic = ''homeassistant/binary_sensor/hive_box16/config'', body = Raw ''_1'', retained = True\<rparr>,
      \<lparr>topic = ''homeassistant/binary_sensor/hive_box17/config'', body = Raw ''_1'', retained = True\<rparr>,
      \<lparr>topic = ''homeassistant/binary_sensor/hive_box18/config'', body = Raw ''_1'', retained = True\<rparr>,
      \<lparr>topic = ''homeassistant/binary_sensor/hive_box19/config'', body = Raw ''_1'', retained = True\<rparr>,
      \<lparr>topic = ''homeassistant/binary_sensor/hive_box20/config'', body = Raw ''_1'', retained = True\<rparr>] \<and>
   take 5 (mqtt_out (HoneyVending_SetBoxCount 5000 1700000000 15 kiosk)) =
     [\<lparr>topic = ''homeassistant/binary_sensor/hive_box16/config'', body = Raw ''_1'', retained = True\<rparr>,
      \<lparr>topic = ''homeassistant/binary_sensor/hive_box17/config'', body = Raw ''_1'', retained = True\<rparr>,
      \<lparr>topic = ''homeassistant/binary_sensor/hive_box18/config'', body = Raw ''_1'', retained = True\<rparr>,
      \<lparr>topic = ''homeassistant/binary_sensor/hive_box19/config'', body = Raw ''_1'', retained = True\<rparr>,
      \<lparr>topic = ''homeassistant/binary_sensor/hive_box20/config'', body = Raw ''_1'', retained = True\<rparr>] \<and>
   body (hd (mqtt_out (HoneyVending_CleanupOldBoxes 20 15 kiosk))) \<noteq> Raw []"
proof -
  let ?five = "[\<lparr>topic = ''homeassistant/binary_sensor/hive_box16/config'', body = Raw ''_1'', retained = True\<rparr>,
      \<lparr>topic = ''homeassistant/binary_sensor/hive_box17/config'', body = Raw ''_1'', retained = True\<rparr>,
      \<lparr>topic = ''homeassistant/binary_sensor/hive_box18/config'', body = Raw ''_1'', retained = True\<rparr>,
      \<lparr>topic = ''homeassistant/binary_sensor/hive_box19/config'', body = Raw ''_1'', retained = True\<rparr>,
      \<lparr>topic = ''homeassistant/binary_sensor/hive_box20/config'', body = Raw ''_1'', retained = True\<rparr>]"
  have k: "mqtt_connected kiosk" "mqtt_out kiosk = []" "box_count kiosk = 20"
    by (simp_all add: kiosk_def)
  have lt: "(15 :: u8) < 20" by simp
  have a: "mqtt_out (HoneyVending_CleanupOldBoxes 20 15 kiosk) = ?five"
    by (simp only: HoneyVending_CleanupOldBoxes_eq [OF lt k(1)] kiosk_cleanup_messages)
       (simp add: k)
  have v: "(1 :: u8) \<le> 15" "(15 :: u8) \<le> box_count kiosk" "unat (15 :: u8) \<le> MAX_HONEY_BOX_COUNT"
    by (simp_all add: k MAX_HONEY_BOX_COUNT_def)
  obtain st r ms d l where "HoneyVending_SetBoxCount 5000 1700000000 15 kiosk =
       kiosk\<lparr>box_count := 15, settings := st, response := r,
         mqtt_out := mqtt_out kiosk @
           (if mqtt_connected kiosk \<and> 15 < box_count kiosk
            then map (\<lambda>i. \<lparr>topic = discovery_box_topic (snprintf 64 (device_name kiosk)) i,
                          body = response kiosk, retained = True\<rparr>)
                  [unat (15 :: u8) + 1..<Suc (unat (box_count kiosk))]
            else []) @ ms,
         discovery_sent := d, last_publish_ms := l\<rparr>"
    using HoneyVending_SetBoxCount_shrink [OF v, of 5000 1700000000] by blast
  then have "mqtt_out (HoneyVending_SetBoxCount 5000 1700000000 15 kiosk) = ?five @ ms"
    by (simp only: k if_True simp_thms lt kiosk_cleanup_messages) simp
  then have b: "take 5 (mqtt_out (HoneyVending_SetBoxCount 5000 1700000000 15 kiosk)) = ?five"
    by simp
  have c: "body (hd (mqtt_out (HoneyVending_CleanupOldBoxes 20 15 kiosk))) \<noteq> Raw []"
    by (simp add: a)
  from a b c show ?thesis by blast
qed


section \<open>Completing a sale\<close>

lemma HoneyVending_PublishSystemMQTT_upd:
  "HoneyVending_PublishSystemMQTT s =
     s\<lparr>response := (if mqtt_connected s then system_json s else response s),
       mqtt_out := mqtt_out s @
         (if mqtt_connected s
          then [\<lparr>topic = system_topic (device_id s), body = system_json s, retained = True\<rparr>]
          else [])\<rparr>"
  by (simp add: HoneyVending_PublishSystemMQTT_eq)

lemma status_text_cong:
  "box_status s' = box_status s \<Longrightarrow> box_count s' = box_count s \<Longrightarrow>
   status_text s' = status_text s"
  by (simp add: status_text_def pack_status_def)

lemma timestamps_text_cong:
  "box_last_changed s' = box_last_changed s \<Longrightarrow> box_count s' = box_count s \<Longrightarrow>
   timestamps_text s' = timestamps_text s"
  by (simp add: timestamps_text_def)

lemma available_count_cong:
  "box_status s' = box_status s \<Longrightarrow> box_count s' = box_count s \<Longrightarrow>
   available_count s' = available_count s"
  by (simp add: available_count_def)

lemma HoneyVending_PublishBoxMQTT_upd:
  assumes "1 \<le> b" "b \<le> box_count s"
  shows "HoneyVending_PublishBoxMQTT b s =
     s\<lparr>response := (if mqtt_connected s then box_json b s else response s),
       mqtt_out := mqtt_out s @
         (if mqtt_connected s
          then [\<lparr>topic = box_topic (device_id s) b, body = box_json b s, retained = True\<rparr>]
          else [])\<rparr>"
  using box_id_valid [OF assms] by (simp add: HoneyVending_PublishBoxMQTT_eq)

lemma HoneyVending_SetStatus_valid:
  fixes s :: machine and b :: u8 and h :: bool and utc :: u32
  assumes "1 \<le> b" "b \<le> box_count s"
  defines "s1 \<equiv> s\<lparr>box_status := (box_status s)[unat b - 1 := h],
                     box_last_changed := (box_last_changed s)[unat b - 1 := utc]\<rparr>"
  shows "HoneyVending_SetStatus utc b h s =
     s\<lparr>box_status := (box_status s)[unat b - 1 := h],
       box_last_changed := (box_last_changed s)[unat b - 1 := utc],
       settings := (settings s)
         (HONEY_SETTINGS_INDEX := status_text s1, HONEY_TIMESTAMP_INDEX := timestamps_text s1),
       response := SummaryJson (unat (box_count s)) (available_count s1)
          (unat (box_count s) - available_count s1),
       mqtt_out := mqtt_out s @
         (if mqtt_connected s
          then [\<lparr>topic = box_topic (device_id s) b, body = box_json b s1, retained = True\<rparr>,
                \<lparr>topic = summary_topic (device_id s),
                  body = SummaryJson (unat (box_count s)) (available_count s1)
                    (unat (box_count s) - available_count s1),
                  retained = True\<rparr>]
          else [])\<rparr>"
proof -
  define s2 where "s2 = HoneyVending_SaveStatus s1"
  define s3 where "s3 = HoneyVending_PublishBoxMQTT b s2"
  have s2: "s2 = s1\<lparr>settings := (settings s)
         (HONEY_SETTINGS_INDEX := status_text s1, HONEY_TIMESTAMP_INDEX := timestamps_text s1)\<rparr>"
    by (simp add: s2_def HoneyVending_SaveStatus_eq) (simp add: s1_def)
  have v2: "b \<le> box_count s2"
    using assms(2) by (simp add: s2 s1_def)
  have bj: "box_json b s2 = box_json b s1"
    by (simp add: box_json_def s2)
  have s3: "s3 = s2\<lparr>response := (if mqtt_connected s then box_json b s1 else response s),
       mqtt_out := mqtt_out s @
         (if mqtt_connected s
          then [\<lparr>topic = box_topic (device_id s) b, body = box_json b s1, retained = True\<rparr>]
          else [])\<rparr>"
    unfolding s3_def HoneyVending_PublishBoxMQTT_upd [OF assms(1) v2] bj
    by (simp add: s2 s1_def)
  have ac: "available_count s3 = available_count s1"
    by (rule available_count_cong) (simp_all add: s3 s2)
  have bc: "box_count s3 = box_count s" "device_id s3 = device_id s"
    "mqtt_connected s3 = mqtt_connected s"
    by (simp_all add: s3 s2 s1_def)
  define s4 where "s4 = s3\<lparr>response := SummaryJson (unat (box_count s3)) (available_count s3)
          (unat (box_count s3) - available_count s3)\<rparr>"
  have s4: "s4 = s3\<lparr>response := SummaryJson (unat (box_count s)) (available_count s1)
          (unat (box_count s) - available_count s1)\<rparr>"
    by (simp only: s4_def ac bc)
  have d4: "device_id s4 = device_id s"
    by (simp add: s4 bc)
  have "HoneyVending_SetStatus utc b h s = MqttPublish (summary_topic (device_id s4)) True s4"
    unfolding HoneyVending_SetStatus_def Let_def s4_def s3_def s2_def s1_def Response_P_def
    using box_id_valid [OF assms(1,2)] by (simp only: if_False)
  then have "HoneyVending_SetStatus utc b h s =
      MqttPublish (summary_topic (device_id s)) True
        (s3\<lparr>response := SummaryJson (unat (box_count s)) (available_count s1)
          (unat (box_count s) - available_count s1)\<rparr>)"
    by (simp only: d4) (simp only: s4)
  also have "\<dots> = s\<lparr>box_status := (box_status s)[unat b - 1 := h],
       box_last_changed := (box_last_changed s)[unat b - 1 := utc],
       settings := (settings s)
         (HONEY_SETTINGS_INDEX := status_text s1, HONEY_TIMESTAMP_INDEX := timestamps_text s1),
       response := SummaryJson (unat (box_count s)) (available_count s1)
          (unat (box_count s) - available_count s1),
       mqtt_out := mqtt_out s @
         (if mqtt_connected s
          then [\<lparr>topic = box_topic (device_id s) b, body = box_json b s1, retained = True\<rparr>,
                \<lparr>topic = summary_topic (device_id s),
                  body = SummaryJson (unat (box_count s)) (available_count s1)
                    (unat (box_count s) - available_count s1),
                  retained = True\<rparr>]
          else [])\<rparr>"
    by (simp add: MqttPublish_def s3 s2) (simp add: s1_def)
  finally show ?thesis .
qed


lemma system_json_cong:
  "total_cents s' = total_cents s \<Longrightarrow> selected_box_id s' = selected_box_id s \<Longrightarrow>
   box_count s' = box_count s \<Longrightarrow> box_price s' = box_price s \<Longrightarrow>
   coins_detected s' = coins_detected s \<Longrightarrow> honey_available s' = honey_available s \<Longrightarrow>
   system_json s' = system_json s"
  by (simp add: system_json_def)

lemma box_json_cong:
  "box_status s' = box_status s \<Longrightarrow> box_price s' = box_price s \<Longrightarrow>
   box_last_changed s' = box_last_changed s \<Longrightarrow> box_json b s' = box_json b s"
  by (simp add: box_json_def)

lemma system_json_idle:
  "selected_box_id s = 0 \<Longrightarrow> total_cents s = 0 \<Longrightarrow> coins_detected s = 0 \<Longrightarrow>
   \<not> honey_available s \<Longrightarrow>
   system_json s = SystemJson 0 (CentsToEuroString 0 16) 0 (CentsToEuroString 0 16) 0 0 False
     (box_count s)"
  by (simp add: system_json_def)

lemma CmndVendingReset_upd:
  "CmndVendingReset s =
     s\<lparr>total_cents := 0, coins_detected := 0, honey_available := False, pulse_count := 0,
       selected_box_id := 0, response := CmndDone,
       mqtt_out := mqtt_out s @
         (if mqtt_connected s
          then [\<lparr>topic = system_topic (device_id s),
                 body = SystemJson 0 (CentsToEuroString 0 16) 0 (CentsToEuroString 0 16) 0 0 False
                          (box_count s),
                 retained = True\<rparr>]
          else [])\<rparr>"
  by (simp add: CmndVendingReset_def HoneyVending_PublishSystemMQTT_upd ResponseCmndDone_def
        Response_P_def system_json_idle)

lemma HoneyVending_HoneyAvailable_valid:
  fixes s :: machine and now utc :: u32
  assumes v: "1 \<le> selected_box_id s" "selected_box_id s \<le> box_count s"
    and b32: "unat (selected_box_id s) \<le> 32" and len: "length (shift_reg_state s) = 4"
  defines "b \<equiv> selected_box_id s"
  defines "sA \<equiv> s\<lparr>box_status := (box_status s)[unat (selected_box_id s) - 1 := False],
       box_last_changed := (box_last_changed s)[unat (selected_box_id s) - 1 := utc]\<rparr>"
  shows "\<exists>R G. box_unlocked (s\<lparr>shift_reg_state := R\<rparr>) (unat b) \<and> length R = 4 \<and>
     HoneyVending_HoneyAvailable now utc s =
     s\<lparr>total_cents := 0, coins_detected := 0, honey_available := False, pulse_count := 0,
       selected_box_id := 0,
       box_status := (box_status s)[unat b - 1 := False],
       box_last_changed := (box_last_changed s)[unat b - 1 := utc],
       settings := (settings s)
         (HONEY_SETTINGS_INDEX := status_text sA, HONEY_TIMESTAMP_INDEX := timestamps_text sA),
       shift_reg_state := R, gpio := G, unlocked_box_id := b, unlock_start_ms := now,
       response := CmndDone,
       mqtt_out := mqtt_out s @
         (if mqtt_connected s
          then [\<lparr>topic = system_topic (device_id s), body = system_json s, retained = True\<rparr>,
                \<lparr>topic = box_topic (device_id s) b, body = box_json b sA, retained = True\<rparr>,
                \<lparr>topic = summary_topic (device_id s),
                  body = SummaryJson (unat (box_count s)) (available_count sA)
                    (unat (box_count s) - available_count sA),
                  retained = True\<rparr>,
                \<lparr>topic = system_topic (device_id s),
                  body = SystemJson 0 (CentsToEuroString 0 16) 0 (CentsToEuroString 0 16) 0 0
                           False (box_count s),
                  retained = True\<rparr>]
          else [])\<rparr>"
proof -
  obtain R G U T where h1: "UnlockBoxKey now b s =
      s\<lparr>shift_reg_state := R, gpio := G, unlocked_box_id := U, unlock_start_ms := T\<rparr>"
    using UnlockBoxKey_upd by blast
  have u: "box_unlocked (UnlockBoxKey now b s) (unat b)"
    "unlocked_box_id (UnlockBoxKey now b s) = b"
    "unlock_start_ms (UnlockBoxKey now b s) = now"
    "length (shift_reg_state (UnlockBoxKey now b s)) = 4"
    using UnlockBoxKey_unlocks [OF v b32 len, of now] by (simp_all add: b_def)
  have U: "U = b" and T: "T = now" and lR: "length R = 4"
    using u(2,3,4) by (simp_all add: h1)
  have bu: "box_unlocked (s\<lparr>shift_reg_state := R\<rparr>) (unat b)"
    using u(1) by (simp add: h1 box_unlocked_def)
  define h1s where "h1s = s\<lparr>shift_reg_state := R, gpio := G, unlocked_box_id := b,
      unlock_start_ms := now\<rparr>"
  have h1': "UnlockBoxKey now b s = h1s"
    by (simp add: h1 U T h1s_def)
  define h2 where "h2 = HoneyVending_PublishSystemMQTT h1s"
  have sj: "system_json h1s = system_json s"
    by (rule system_json_cong) (simp_all add: h1s_def)
  have h2: "h2 = h1s\<lparr>response := (if mqtt_connected s then system_json s else response s),
      mqtt_out := mqtt_out s @
        (if mqtt_connected s
         then [\<lparr>topic = system_topic (device_id s), body = system_json s, retained = True\<rparr>]
         else [])\<rparr>"
    unfolding h2_def HoneyVending_PublishSystemMQTT_upd sj by (simp add: h1s_def)
  have f2: "selected_box_id h2 = b" "box_count h2 = box_count s" "device_id h2 = device_id s"
    "mqtt_connected h2 = mqtt_connected s" "box_status h2 = box_status s"
    "box_last_changed h2 = box_last_changed s" "box_price h2 = box_price s"
    "settings h2 = settings s"
    by (simp_all add: h2 h1s_def b_def)
  let ?h2A = "h2\<lparr>box_status := (box_status s)[unat b - 1 := False],
       box_last_changed := (box_last_changed s)[unat b - 1 := utc]\<rparr>"
  have cA: "status_text ?h2A = status_text sA" "timestamps_text ?h2A = timestamps_text sA"
    "available_count ?h2A = available_count sA" "box_json b ?h2A = box_json b sA"
    by (rule status_text_cong timestamps_text_cong available_count_cong box_json_cong,
        simp_all add: sA_def f2 b_def)+
  have v2: "1 \<le> b" "b \<le> box_count h2"
    using v by (simp_all add: f2 b_def)
  define h3 where "h3 = HoneyVending_SetStatus utc b False h2"
  have h3: "h3 = h2\<lparr>box_status := (box_status s)[unat b - 1 := False],
       box_last_changed := (box_last_changed s)[unat b - 1 := utc],
       settings := (settings s)
         (HONEY_SETTINGS_INDEX := status_text sA, HONEY_TIMESTAMP_INDEX := timestamps_text sA),
       response := SummaryJson (unat (box_count s)) (available_count sA)
          (unat (box_count s) - available_count sA),
       mqtt_out := mqtt_out h2 @
         (if mqtt_connected s
          then [\<lparr>topic = box_topic (device_id s) b, body = box_json b sA, retained = True\<rparr>,
                \<lparr>topic = summary_topic (device_id s),
                  body = SummaryJson (unat (box_count s)) (available_count sA)
                    (unat (box_count s) - available_count sA),
                  retained = True\<rparr>]
          else [])\<rparr>"
    by (simp only: h3_def HoneyVending_SetStatus_valid [OF v2] f2) (simp only: cA)
  have "HoneyVending_HoneyAvailable now utc s = CmndVendingReset h3"
    using v(1)
    by (simp add: HoneyVending_HoneyAvailable_def Let_def word_one_le_iff word_neq_0_conv [symmetric]
          b_def [symmetric] h1' h2_def [symmetric] f2 h3_def [symmetric])
  also have "\<dots> = s\<lparr>total_cents := 0, coins_detected := 0, honey_available := False, pulse_count := 0,
       selected_box_id := 0,
       box_status := (box_status s)[unat b - 1 := False],
       box_last_changed := (box_last_changed s)[unat b - 1 := utc],
       settings := (settings s)
         (HONEY_SETTINGS_INDEX := status_text sA, HONEY_TIMESTAMP_INDEX := timestamps_text sA),
       shift_reg_state := R, gpio := G, unlocked_box_id := b, unlock_start_ms := now,
       response := CmndDone,
       mqtt_out := mqtt_out s @
         (if mqtt_connected s
          then [\<lparr>topic = system_topic (device_id s), body = system_json s, retained = True\<rparr>,
                \<lparr>topic = box_topic (device_id s) b, body = box_json b sA, retained = True\<rparr>,
                \<lparr>topic = summary_topic (device_id s),
                  body = SummaryJson (unat (box_count s)) (available_count sA)
                    (unat (box_count s) - available_count sA),
                  retained = True\<rparr>,
                \<lparr>topic = system_topic (device_id s),
                  body = SystemJson 0 (CentsToEuroString 0 16) 0 (CentsToEuroString 0 16) 0 0
                           False (box_count s),
                  retained = True\<rparr>]
          else [])\<rparr>"
    unfolding CmndVendingReset_upd by (simp add: h3 h2 h1s_def)
  finally show ?thesis using bu lR by blast
qed


lemma HoneyVending_HoneyAvailable_stale:
  assumes "box_count s < selected_box_id s"
  shows "HoneyVending_HoneyAvailable now utc s =
           CmndVendingReset (HoneyVending_PublishSystemMQTT s)"
proof -
  have p: "0 < selected_box_id s"
    using assms by (simp add: word_greater_zero_iff) (metis word_not_simps(1))
  have f: "selected_box_id (HoneyVending_PublishSystemMQTT s) = selected_box_id s"
    "box_count (HoneyVending_PublishSystemMQTT s) = box_count s"
    by (simp_all add: HoneyVending_PublishSystemMQTT_eq)
  have u: "UnlockBoxKey now (selected_box_id s) s = s"
    using assms by (simp add: UnlockBoxKey_invalid)
  have st: "HoneyVending_SetStatus utc (selected_box_id s) False (HoneyVending_PublishSystemMQTT s) =
      HoneyVending_PublishSystemMQTT s"
    using assms by (simp add: HoneyVending_SetStatus_def f)
  show ?thesis
    using p by (simp add: HoneyVending_HoneyAvailable_def Let_def u f st)
qed

lemma coin_detected_sale:
  fixes s :: machine and now utc cv :: u32
  assumes v: "1 \<le> selected_box_id s" "selected_box_id s \<le> box_count s"
    and b32: "unat (selected_box_id s) \<le> 32" and len: "length (shift_reg_state s) = 4"
    and nh: "\<not> honey_available s"
    and paid: "box_price s ! (unat (selected_box_id s) - 1) \<le> total_cents s + cv"
  defines "b \<equiv> selected_box_id s"
  defines "sA \<equiv> s\<lparr>box_status := (box_status s)[unat (selected_box_id s) - 1 := False],
       box_last_changed := (box_last_changed s)[unat (selected_box_id s) - 1 := utc]\<rparr>"
  defines "sB \<equiv> s\<lparr>total_cents := total_cents s + cv, coins_detected := coins_detected s + 1\<rparr>"
  shows "\<exists>R G L. box_unlocked (s\<lparr>shift_reg_state := R\<rparr>) (unat b) \<and> length R = 4 \<and>
     coin_detected now utc cv s =
     s\<lparr>total_cents := 0, last_coin_cents := cv, coins_detected := 0, honey_available := False,
       pulse_count := 0, selected_box_id := 0,
       box_status := (box_status s)[unat b - 1 := False],
       box_last_changed := (box_last_changed s)[unat b - 1 := utc],
       settings := (settings s)
         (HONEY_SETTINGS_INDEX := status_text sA, HONEY_TIMESTAMP_INDEX := timestamps_text sA),
       shift_reg_state := R, gpio := G, unlocked_box_id := b, unlock_start_ms := now,
       lcd_rows := L, response := CmndDone,
       mqtt_out := mqtt_out s @
         (if mqtt_connected s
          then [\<lparr>topic = system_topic (device_id s), body = system_json sB, retained = True\<rparr>,
                \<lparr>topic = system_topic (device_id s),
                  body = system_json (sB\<lparr>honey_available := True\<rparr>), retained = True\<rparr>,
                \<lparr>topic = box_topic (device_id s) b, body = box_json b sA, retained = True\<rparr>,
                \<lparr>topic = summary_topic (device_id s),
                  body = SummaryJson (unat (box_count s)) (available_count sA)
                    (unat (box_count s) - available_count sA),
                  retained = True\<rparr>,
                \<lparr>topic = system_topic (device_id s),
                  body = SystemJson 0 (CentsToEuroString 0 16) 0 (CentsToEuroString 0 16) 0 0
                           False (box_count s),
                  retained = True\<rparr>]
          else [])\<rparr>"
proof -
  define c1 where "c1 = s\<lparr>total_cents := total_cents s + cv, last_coin_cents := cv,
      coins_detected := coins_detected s + 1\<rparr>"
  define c2 where "c2 = LCD_WriteText 1 0
      (snprintf (LCD_COLS + 1) (''Total: '' @ CentsToEuroString (total_cents c1) 16)) c1"
  define c3 where "c3 = HoneyVending_PublishSystemMQTT c2"
  define h0 where "h0 = c3\<lparr>honey_available := True\<rparr>"
  have cd: "coin_detected now utc cv s =
      (if selected_box_id c3 > 0 \<and> \<not> honey_available c3
       then if total_cents c3 \<ge> box_price c3 ! (unat (selected_box_id c3) - 1)
            then HoneyVending_HoneyAvailable now utc h0 else c3
       else c3)"
    unfolding coin_detected_def Let_def h0_def c3_def c2_def c1_def by (rule refl)
  obtain L where c2: "c2 = c1\<lparr>lcd_rows := L\<rparr>"
    unfolding c2_def using LCD_WriteText_upd by blast
  have sj: "system_json c2 = system_json sB"
    by (rule system_json_cong) (simp_all add: c2 c1_def sB_def)
  have c3: "c3 = c2\<lparr>response := (if mqtt_connected s then system_json sB else response s),
      mqtt_out := mqtt_out s @
        (if mqtt_connected s
         then [\<lparr>topic = system_topic (device_id s), body = system_json sB, retained = True\<rparr>]
         else [])\<rparr>"
    unfolding c3_def HoneyVending_PublishSystemMQTT_upd sj by (simp add: c2 c1_def)
  have f3: "selected_box_id c3 = b" "honey_available c3 = honey_available s"
    "total_cents c3 = total_cents s + cv" "box_price c3 = box_price s"
    by (simp_all add: c3 c2 c1_def b_def)
  have pos: "0 < b"
    using v(1) by (simp add: b_def word_one_le_iff word_neq_0_conv)
  have cd': "coin_detected now utc cv s = HoneyVending_HoneyAvailable now utc h0"
    using pos nh paid by (simp only: cd f3 b_def) simp
  have f0: "selected_box_id h0 = b" "box_count h0 = box_count s"
    "shift_reg_state h0 = shift_reg_state s" "mqtt_connected h0 = mqtt_connected s"
    "device_id h0 = device_id s" "box_status h0 = box_status s"
    "box_last_changed h0 = box_last_changed s" "settings h0 = settings s"
    "box_price h0 = box_price s"
    by (simp_all add: h0_def c3 c2 c1_def b_def)
  have v0: "1 \<le> selected_box_id h0" "selected_box_id h0 \<le> box_count h0"
    "unat (selected_box_id h0) \<le> 32" "length (shift_reg_state h0) = 4"
    using v b32 len by (simp_all add: f0 b_def)
  let ?hA = "h0\<lparr>box_status := (box_status h0)[unat (selected_box_id h0) - 1 := False],
       box_last_changed := (box_last_changed h0)[unat (selected_box_id h0) - 1 := utc]\<rparr>"
  have cA: "status_text ?hA = status_text sA" "timestamps_text ?hA = timestamps_text sA"
    "available_count ?hA = available_count sA" "box_json b ?hA = box_json b sA"
    by (rule status_text_cong timestamps_text_cong available_count_cong box_json_cong,
        simp_all add: sA_def f0 b_def)+
  have sj0: "system_json h0 = system_json (sB\<lparr>honey_available := True\<rparr>)"
    by (rule system_json_cong) (simp_all add: h0_def c3 c2 c1_def sB_def)
  obtain R G where bu: "box_unlocked (h0\<lparr>shift_reg_state := R\<rparr>) (unat (selected_box_id h0))"
    and lR: "length R = 4"
    and ha: "HoneyVending_HoneyAvailable now utc h0 =
     h0\<lparr>total_cents := 0, coins_detected := 0, honey_available := False, pulse_count := 0,
       selected_box_id := 0,
       box_status := (box_status h0)[unat (selected_box_id h0) - 1 := False],
       box_last_changed := (box_last_changed h0)[unat (selected_box_id h0) - 1 := utc],
       settings := (settings h0)
         (HONEY_SETTINGS_INDEX := status_text ?hA, HONEY_TIMESTAMP_INDEX := timestamps_text ?hA),
       shift_reg_state := R, gpio := G, unlocked_box_id := selected_box_id h0,
       unlock_start_ms := now, response := CmndDone,
       mqtt_out := mqtt_out h0 @
         (if mqtt_connected h0
          then [\<lparr>topic = system_topic (device_id h0), body = system_json h0, retained = True\<rparr>,
                \<lparr>topic = box_topic (device_id h0) (selected_box_id h0),
                  body = box_json (selected_box_id h0) ?hA, retained = True\<rparr>,
                \<lparr>topic = summary_topic (device_id h0),
                  body = SummaryJson (unat (box_count h0)) (available_count ?hA)
                    (unat (box_count h0) - available_count ?hA),
                  retained = True\<rparr>,
                \<lparr>topic = system_topic (device_id h0),
                  body = SystemJson 0 (CentsToEuroString 0 16) 0 (CentsToEuroString 0 16) 0 0
                           False (box_count h0),
                  retained = True\<rparr>]
          else [])\<rparr>"
    using HoneyVending_HoneyAvailable_valid [OF v0, of now utc] by blast
  have bu': "box_unlocked (s\<lparr>shift_reg_state := R\<rparr>) (unat b)"
    using bu by (simp add: f0 box_unlocked_def)
  have ha': "HoneyVending_HoneyAvailable now utc h0 =
     h0\<lparr>total_cents := 0, coins_detected := 0, honey_available := False, pulse_count := 0,
       selected_box_id := 0,
       box_status := (box_status s)[unat b - 1 := False],
       box_last_changed := (box_last_changed s)[unat b - 1 := utc],
       settings := (settings s)
         (HONEY_SETTINGS_INDEX := status_text sA, HONEY_TIMESTAMP_INDEX := timestamps_text sA),
       shift_reg_state := R, gpio := G, unlocked_box_id := b,
       unlock_start_ms := now, response := CmndDone,
       mqtt_out := mqtt_out h0 @
         (if mqtt_connected s
          then [\<lparr>topic = system_topic (device_id s),
                  body = system_json (sB\<lparr>honey_available := True\<rparr>), retained = True\<rparr>,
                \<lparr>topic = box_topic (device_id s) b, body = box_json b sA, retained = True\<rparr>,
                \<lparr>topic = summary_topic (device_id s),
                  body = SummaryJson (unat (box_count s)) (available_count sA)
                    (unat (box_count s) - available_count sA),
                  retained = True\<rparr>,
                \<lparr>topic = system_topic (device_id s),
                  body = SystemJson 0 (CentsToEuroString 0 16) 0 (CentsToEuroString 0 16) 0 0
                           False (box_count s),
                  retained = True\<rparr>]
          else [])\<rparr>"
    by (simp only: ha cA [unfolded f0] sj0 f0) 
  have "coin_detected now utc cv s =
     s\<lparr>total_cents := 0, last_coin_cents := cv, coins_detected := 0, honey_available := False,
       pulse_count := 0, selected_box_id := 0,
       box_status := (box_status s)[unat b - 1 := False],
       box_last_changed := (box_last_changed s)[unat b - 1 := utc],
       settings := (settings s)
         (HONEY_SETTINGS_INDEX := status_text sA, HONEY_TIMESTAMP_INDEX := timestamps_text sA),
       shift_reg_state := R, gpio := G, unlocked_box_id := b, unlock_start_ms := now,
       lcd_rows := L, response := CmndDone,
       mqtt_out := mqtt_out s @
         (if mqtt_connected s
          then [\<lparr>topic = system_topic (device_id s), body = system_json sB, retained = True\<rparr>,
                \<lparr>topic = system_topic (device_id s),
                  body = system_json (sB\<lparr>honey_available := True\<rparr>), retained = True\<rparr>,
                \<lparr>topic = box_topic (device_id s) b, body = box_json b sA, retained = True\<rparr>,
                \<lparr>topic = summary_topic (device_id s),
                  body = SummaryJson (unat (box_count s)) (available_count sA)
                    (unat (box_count s) - available_count sA),
                  retained = True\<rparr>,
                \<lparr>topic = system_topic (device_id s),
                  body = SystemJson 0 (CentsToEuroString 0 16) 0 (CentsToEuroString 0 16) 0 0
                           False (box_count s),
                  retained = True\<rparr>]
          else [])\<rparr>"
    unfolding cd' ha' by (simp add: h0_def c3 c2 c1_def)
  then show ?thesis using bu' lR by blast
qed


lemma CheckUnlockTimeout_length:
  "length (shift_reg_state (CheckUnlockTimeout now s)) = length (shift_reg_state s)"
  by (simp add: CheckUnlockTimeout_def Let_def)

lemma tick_sale:
  fixes s :: machine and now utc :: u32
  assumes wf: "well_formed s" and ini: "initialized s" and due: "100 \<le> now - last_check s"
    and pc: "0 < pulse_count s" and quiet: "COIN_TIMEOUT_MS \<le> now - last_pulse_ms s"
    and coin: "0 < PulsesToCents (pulse_count s)"
    and v: "1 \<le> selected_box_id s" "selected_box_id s \<le> box_count s"
    and nh: "\<not> honey_available s"
    and paid: "box_price s ! (unat (selected_box_id s) - 1)
                 \<le> total_cents s + PulsesToCents (pulse_count s)"
  defines "b \<equiv> selected_box_id s"
  defines "cv \<equiv> PulsesToCents (pulse_count s)"
  defines "sA \<equiv> s\<lparr>box_status := (box_status s)[unat (selected_box_id s) - 1 := False],
       box_last_changed := (box_last_changed s)[unat (selected_box_id s) - 1 := utc]\<rparr>"
  defines "sB \<equiv> s\<lparr>total_cents := total_cents s + PulsesToCents (pulse_count s),
       coins_detected := coins_detected s + 1\<rparr>"
  shows "\<exists>R G L B. box_unlocked (s\<lparr>shift_reg_state := R\<rparr>) (unat b) \<and>
     HoneyVending_Every100ms now utc gpa gpb s =
     s\<lparr>last_check := now,
       total_cents := 0, last_coin_cents := cv, coins_detected := 0, honey_available := False,
       pulse_count := 0, selected_box_id := 0,
       box_status := (box_status s)[unat b - 1 := False],
       box_last_changed := (box_last_changed s)[unat b - 1 := utc],
       settings := (settings s)
         (HONEY_SETTINGS_INDEX := status_text sA, HONEY_TIMESTAMP_INDEX := timestamps_text sA),
       shift_reg_state := R, gpio := G, unlocked_box_id := b, unlock_start_ms := now,
       lcd_rows := L, last_button_state := B, response := CmndDone,
       mqtt_out := mqtt_out s @
         (if mqtt_connected s
          then [\<lparr>topic = system_topic (device_id s), body = system_json sB, retained = True\<rparr>,
                \<lparr>topic = system_topic (device_id s),
                  body = system_json (sB\<lparr>honey_available := True\<rparr>), retained = True\<rparr>,
                \<lparr>topic = box_topic (device_id s) b, body = box_json b sA, retained = True\<rparr>,
                \<lparr>topic = summary_topic (device_id s),
                  body = SummaryJson (unat (box_count s)) (available_count sA)
                    (unat (box_count s) - available_count sA),
                  retained = True\<rparr>,
                \<lparr>topic = system_topic (device_id s),
                  body = SystemJson 0 (CentsToEuroString 0 16) 0 (CentsToEuroString 0 16) 0 0
                           False (box_count s),
                  retained = True\<rparr>]
          else [])\<rparr>"
proof -
  define s2 where "s2 = CheckUnlockTimeout now (s\<lparr>last_check := now\<rparr>)"
  define s4 where "s4 = coin_detected now utc (PulsesToCents (pulse_count s2)) s2"
  have tk: "HoneyVending_Every100ms now utc gpa gpb s =
      (if \<not> initialized s then s
       else if now - last_check s < 100 then s
       else poll_buttons gpa gpb
              (if pulse_count s2 > 0 \<and> now - last_pulse_ms s2 \<ge> COIN_TIMEOUT_MS
               then (if PulsesToCents (pulse_count s2) > 0 then s4 else s2)\<lparr>pulse_count := 0\<rparr>
               else s2))"
    unfolding HoneyVending_Every100ms_def Let_def s4_def s2_def by (rule refl)
  obtain R0 G0 U0 T0 where s2: "s2 = s\<lparr>last_check := now, shift_reg_state := R0, gpio := G0,
      unlocked_box_id := U0, unlock_start_ms := T0\<rparr>"
    unfolding s2_def using CheckUnlockTimeout_upd by blast
  have len: "length (shift_reg_state s) = 4"
    using wf by (simp add: well_formed_def NUM_SHIFT_REGISTERS_def)
  have len2: "length (shift_reg_state s2) = 4"
    using len by (simp add: s2_def CheckUnlockTimeout_length)
  have f2: "pulse_count s2 = pulse_count s" "last_pulse_ms s2 = last_pulse_ms s"
    "selected_box_id s2 = selected_box_id s" "box_count s2 = box_count s"
    "honey_available s2 = honey_available s" "box_price s2 = box_price s"
    "total_cents s2 = total_cents s" "coins_detected s2 = coins_detected s"
    "box_status s2 = box_status s" "box_last_changed s2 = box_last_changed s"
    "settings s2 = settings s" "mqtt_out s2 = mqtt_out s" "mqtt_connected s2 = mqtt_connected s"
    "device_id s2 = device_id s"
    by (simp_all add: s2)
  have nd: "\<not> now - last_check s < 100"
    using due by (simp add: not_less)
  have tk': "HoneyVending_Every100ms now utc gpa gpb s = poll_buttons gpa gpb (s4\<lparr>pulse_count := 0\<rparr>)"
    using ini nd pc quiet coin by (simp only: tk f2) simp
  have b30: "unat (selected_box_id s) \<le> 30"
    using v(2) wf by (simp add: well_formed_def MAX_HONEY_BOX_COUNT_def word_le_nat_alt)
  have v2: "1 \<le> selected_box_id s2" "selected_box_id s2 \<le> box_count s2"
    "unat (selected_box_id s2) \<le> 32" "length (shift_reg_state s2) = 4"
    "\<not> honey_available s2"
    "box_price s2 ! (unat (selected_box_id s2) - 1) \<le> total_cents s2 + PulsesToCents (pulse_count s2)"
    using v b30 len2 nh paid by (simp_all add: f2)
  let ?A2 = "s2\<lparr>box_status := (box_status s2)[unat (selected_box_id s2) - 1 := False],
       box_last_changed := (box_last_changed s2)[unat (selected_box_id s2) - 1 := utc]\<rparr>"
  let ?B2 = "s2\<lparr>total_cents := total_cents s2 + PulsesToCents (pulse_count s2),
       coins_detected := coins_detected s2 + 1\<rparr>"
  have cA: "status_text ?A2 = status_text sA" "timestamps_text ?A2 = timestamps_text sA"
    "available_count ?A2 = available_count sA" "box_json b ?A2 = box_json b sA"
    by (rule status_text_cong timestamps_text_cong available_count_cong box_json_cong,
        simp_all add: sA_def f2 b_def)+
  have cB: "system_json ?B2 = system_json sB"
    "system_json (?B2\<lparr>honey_available := True\<rparr>) = system_json (sB\<lparr>honey_available := True\<rparr>)"
    by (rule system_json_cong, simp_all add: sB_def f2)+
  obtain R G L where bu: "box_unlocked (s2\<lparr>shift_reg_state := R\<rparr>) (unat (selected_box_id s2))"
    and s4: "s4 =
     s2\<lparr>total_cents := 0, last_coin_cents := PulsesToCents (pulse_count s2), coins_detected := 0,
       honey_available := False, pulse_count := 0, selected_box_id := 0,
       box_status := (box_status s2)[unat (selected_box_id s2) - 1 := False],
       box_last_changed := (box_last_changed s2)[unat (selected_box_id s2) - 1 := utc],
       settings := (settings s2)
         (HONEY_SETTINGS_INDEX := status_text ?A2, HONEY_TIMESTAMP_INDEX := timestamps_text ?A2),
       shift_reg_state := R, gpio := G, unlocked_box_id := selected_box_id s2,
       unlock_start_ms := now, lcd_rows := L, response := CmndDone,
       mqtt_out := mqtt_out s2 @
         (if mqtt_connected s2
          then [\<lparr>topic = system_topic (device_id s2), body = system_json ?B2, retained = True\<rparr>,
                \<lparr>topic = system_topic (device_id s2),
                  body = system_json (?B2\<lparr>honey_available := True\<rparr>), retained = True\<rparr>,
                \<lparr>topic = box_topic (device_id s2) (selected_box_id s2),
                  body = box_json (selected_box_id s2) ?A2, retained = True\<rparr>,
                \<lparr>topic = summary_topic (device_id s2),
                  body = SummaryJson (unat (box_count s2)) (available_count ?A2)
                    (unat (box_count s2) - available_count ?A2),
                  retained = True\<rparr>,
                \<lparr>topic = system_topic (device_id s2),
                  body = SystemJson 0 (CentsToEuroString 0 16) 0 (CentsToEuroString 0 16) 0 0
                           False (box_count s2),
                  retained = True\<rparr>]
          else [])\<rparr>"
    unfolding s4_def using coin_detected_sale [OF v2, of now utc] by blast
  have bu': "box_unlocked (s\<lparr>shift_reg_state := R\<rparr>) (unat b)"
    using bu by (simp add: f2 b_def box_unlocked_def)
  have s4': "s4 =
     s2\<lparr>total_cents := 0, last_coin_cents := cv, coins_detected := 0,
       honey_available := False, pulse_count := 0, selected_box_id := 0,
       box_status := (box_status s)[unat b - 1 := False],
       box_last_changed := (box_last_changed s)[unat b - 1 := utc],
       settings := (settings s)
         (HONEY_SETTINGS_INDEX := status_text sA, HONEY_TIMESTAMP_INDEX := timestamps_text sA),
       shift_reg_state := R, gpio := G, unlocked_box_id := b,
       unlock_start_ms := now, lcd_rows := L, response := CmndDone,
       mqtt_out := mqtt_out s @
         (if mqtt_connected s
          then [\<lparr>topic = system_topic (device_id s), body = system_json sB, retained = True\<rparr>,
                \<lparr>topic = system_topic (device_id s),
                  body = system_json (sB\<lparr>honey_available := True\<rparr>), retained = True\<rparr>,
                \<lparr>topic = box_topic (device_id s) b, body = box_json b sA, retained = True\<rparr>,
                \<lparr>topic = summary_topic (device_id s),
                  body = SummaryJson (unat (box_count s)) (available_count sA)
                    (unat (box_count s) - available_count sA),
                  retained = True\<rparr>,
                \<lparr>topic = system_topic (device_id s),
                  body = SystemJson 0 (CentsToEuroString 0 16) 0 (CentsToEuroString 0 16) 0 0
                           False (box_count s),
                  retained = True\<rparr>]
          else [])\<rparr>"
    by (simp only: s4 cA [unfolded f2 b_def] cB [unfolded f2] f2 b_def cv_def)
  obtain L' B where pb: "poll_buttons gpa gpb (s4\<lparr>pulse_count := 0\<rparr>) =
      (s4\<lparr>pulse_count := 0\<rparr>)\<lparr>lcd_rows := L', last_button_state := B\<rparr>"
    using poll_buttons_upd by blast
  have "HoneyVending_Every100ms now utc gpa gpb s =
     s\<lparr>last_check := now,
       total_cents := 0, last_coin_cents := cv, coins_detected := 0, honey_available := False,
       pulse_count := 0, selected_box_id := 0,
       box_status := (box_status s)[unat b - 1 := False],
       box_last_changed := (box_last_changed s)[unat b - 1 := utc],
       settings := (settings s)
         (HONEY_SETTINGS_INDEX := status_text sA, HONEY_TIMESTAMP_INDEX := timestamps_text sA),
       shift_reg_state := R, gpio := G, unlocked_box_id := b, unlock_start_ms := now,
       lcd_rows := L', last_button_state := B, response := CmndDone,
       mqtt_out := mqtt_out s @
         (if mqtt_connected s
          then [\<lparr>topic = system_topic (device_id s), body = system_json sB, retained = True\<rparr>,
                \<lparr>topic = system_topic (device_id s),
                  body = system_json (sB\<lparr>honey_available := True\<rparr>), retained = True\<rparr>,
                \<lparr>topic = box_topic (device_id s) b, body = box_json b sA, retained = True\<rparr>,
                \<lparr>topic = summary_topic (device_id s),
                  body = SummaryJson (unat (box_count s)) (available_count sA)
                    (unat (box_count s) - available_count sA),
                  retained = True\<rparr>,
                \<lparr>topic = system_topic (device_id s),
                  body = SystemJson 0 (CentsToEuroString 0 16) 0 (CentsToEuroString 0 16) 0 0
                           False (box_count s),
                  retained = True\<rparr>]
          else [])\<rparr>"
    unfolding tk' pb by (simp add: s4' s2)
  then show ?thesis using bu' by blast
qed

lemma coin_burst_counted:
  "pulse_count s = 0 \<Longrightarrow>
   fold HoneyVending_PulseISR coin_burst s =
     s\<lparr>first_pulse_ms := 5020, pulse_count := 20, last_pulse_ms := 5400\<rparr>"
  by (simp add: coin_burst_def HoneyVending_PulseISR_def Let_def PULSE_DEBOUNCE_MS_def)

lemma HoneyVending_SelectBox_kiosk:
  "(b = 3 \<or> b = 20) \<Longrightarrow> HoneyVending_SelectBox b kiosk =
     kiosk\<lparr>selected_box_id := b,
       response := system_json (kiosk\<lparr>selected_box_id := b\<rparr>),
       mqtt_out := [\<lparr>topic = system_topic (device_id kiosk),
                     body = system_json (kiosk\<lparr>selected_box_id := b\<rparr>), retained = True\<rparr>]\<rparr>"
  by (auto simp add: HoneyVending_SelectBox_def HoneyVending_PublishSystemMQTT_upd kiosk_def
        system_json_def)

lemma paying_kiosk_eq:
  "paying_kiosk =
     kiosk\<lparr>selected_box_id := 3,
       response := system_json (kiosk\<lparr>selected_box_id := 3\<rparr>),
       mqtt_out := [\<lparr>topic = system_topic (device_id kiosk),
                     body = system_json (kiosk\<lparr>selected_box_id := 3\<rparr>), retained = True\<rparr>],
       first_pulse_ms := 5020, pulse_count := 20, last_pulse_ms := 5400\<rparr>"
proof -
  have "pulse_count (HoneyVending_SelectBox 3 kiosk) = 0"
    by (simp add: HoneyVending_SelectBox_pulse) (simp add: kiosk_def)
  then show ?thesis
    by (simp add: paying_kiosk_def coin_burst_counted) (simp add: HoneyVending_SelectBox_kiosk)
qed

lemma shrunk_kiosk_eq:
  "\<exists>st r ms d l. shrunk_kiosk =
     kiosk\<lparr>selected_box_id := 20, box_count := 15, settings := st, response := r,
       mqtt_out := ms, discovery_sent := d, last_publish_ms := l,
       first_pulse_ms := 5020, pulse_count := 20, last_pulse_ms := 5400\<rparr>"
proof -
  let ?k = "HoneyVending_SelectBox 20 kiosk"
  have k: "?k = kiosk\<lparr>selected_box_id := 20,
       response := system_json (kiosk\<lparr>selected_box_id := 20\<rparr>),
       mqtt_out := [\<lparr>topic = system_topic (device_id kiosk),
                     body = system_json (kiosk\<lparr>selected_box_id := 20\<rparr>), retained = True\<rparr>]\<rparr>"
    by (simp add: HoneyVending_SelectBox_kiosk)
  have bc: "box_count ?k = 20"
    by (simp add: k) (simp add: kiosk_def)
  have a: "(1 :: u8) \<le> 15" "(15 :: u8) \<le> box_count ?k" "unat (15 :: u8) \<le> MAX_HONEY_BOX_COUNT"
    by (simp_all add: bc MAX_HONEY_BOX_COUNT_def)
  obtain st r ms d l where e: "HoneyVending_SetBoxCount 4000 1700000000 15 ?k =
       ?k\<lparr>box_count := 15, settings := st, response := r, mqtt_out := ms,
         discovery_sent := d, last_publish_ms := l\<rparr>"
    using HoneyVending_SetBoxCount_shrink [OF a, of 4000 1700000000] by blast
  have pk: "pulse_count ?k = 0"
    by (simp add: HoneyVending_SelectBox_pulse) (simp add: kiosk_def)
  have p: "pulse_count (HoneyVending_SetBoxCount 4000 1700000000 15 ?k) = 0"
    by (simp only: e) (simp add: pk)
  have "shrunk_kiosk =
     kiosk\<lparr>selected_box_id := 20, box_count := 15, settings := st, response := r,
       mqtt_out := ms, discovery_sent := d, last_publish_ms := l,
       first_pulse_ms := 5020, pulse_count := 20, last_pulse_ms := 5400\<rparr>"
    apply (simp only: shrunk_kiosk_def coin_burst_counted [OF p])
    apply (simp only: e)
    apply (simp add: k)
    done
  then show ?thesis by blast
qed

lemma coin_detected_stale:
  fixes s :: machine and now utc cv :: u32
  assumes st: "box_count s < selected_box_id s" and nh: "\<not> honey_available s"
    and paid: "box_price s ! (unat (selected_box_id s) - 1) \<le> total_cents s + cv"
  shows "\<exists>L r M. coin_detected now utc cv s =
     s\<lparr>total_cents := 0, last_coin_cents := cv, coins_detected := 0, honey_available := False,
       pulse_count := 0, selected_box_id := 0, lcd_rows := L, response := r, mqtt_out := M\<rparr>"
proof -
  define c1 where "c1 = s\<lparr>total_cents := total_cents s + cv, last_coin_cents := cv,
      coins_detected := coins_detected s + 1\<rparr>"
  define c2 where "c2 = LCD_WriteText 1 0
      (snprintf (LCD_COLS + 1) (''Total: '' @ CentsToEuroString (total_cents c1) 16)) c1"
  define c3 where "c3 = HoneyVending_PublishSystemMQTT c2"
  define h0 where "h0 = c3\<lparr>honey_available := True\<rparr>"
  have cd: "coin_detected now utc cv s =
      (if selected_box_id c3 > 0 \<and> \<not> honey_available c3
       then if total_cents c3 \<ge> box_price c3 ! (unat (selected_box_id c3) - 1)
            then HoneyVending_HoneyAvailable now utc h0 else c3
       else c3)"
    unfolding coin_detected_def Let_def h0_def c3_def c2_def c1_def by (rule refl)
  obtain L where c2: "c2 = c1\<lparr>lcd_rows := L\<rparr>"
    unfolding c2_def using LCD_WriteText_upd by blast
  obtain r3 M3 where c3: "c3 = c2\<lparr>response := r3, mqtt_out := M3\<rparr>"
    unfolding c3_def HoneyVending_PublishSystemMQTT_upd by blast
  have f3: "selected_box_id c3 = selected_box_id s" "honey_available c3 = honey_available s"
    "total_cents c3 = total_cents s + cv" "box_price c3 = box_price s"
    by (simp_all add: c3 c2 c1_def)
  have pos: "0 < selected_box_id s"
    using st by (simp add: word_greater_zero_iff) (metis word_not_simps(1))
  have cd': "coin_detected now utc cv s = HoneyVending_HoneyAvailable now utc h0"
    using pos nh paid by (simp only: cd f3) simp
  have st0: "box_count h0 < selected_box_id h0"
    using st by (simp add: h0_def c3 c2 c1_def)
  obtain r4 M4 where h4: "HoneyVending_PublishSystemMQTT h0 = h0\<lparr>response := r4, mqtt_out := M4\<rparr>"
    unfolding HoneyVending_PublishSystemMQTT_upd by blast
  obtain M5 where h5: "CmndVendingReset (h0\<lparr>response := r4, mqtt_out := M4\<rparr>) =
     h0\<lparr>total_cents := 0, coins_detected := 0, honey_available := False, pulse_count := 0,
       selected_box_id := 0, response := CmndDone, mqtt_out := M5\<rparr>"
    unfolding CmndVendingReset_upd by simp
  have "coin_detected now utc cv s =
     s\<lparr>total_cents := 0, last_coin_cents := cv, coins_detected := 0, honey_available := False,
       pulse_count := 0, selected_box_id := 0, lcd_rows := L, response := CmndDone, mqtt_out := M5\<rparr>"
    unfolding cd' HoneyVending_HoneyAvailable_stale [OF st0] h4 h5
    by (simp add: h0_def c3 c2 c1_def)
  then show ?thesis by blast
qed

lemma tick_stale_sale:
  fixes s :: machine and now utc :: u32
  assumes ini: "initialized s" and due: "100 \<le> now - last_check s"
    and pc: "0 < pulse_count s" and quiet: "COIN_TIMEOUT_MS \<le> now - last_pulse_ms s"
    and coin: "0 < PulsesToCents (pulse_count s)"
    and st: "box_count s < selected_box_id s" and nh: "\<not> honey_available s"
    and paid: "box_price s ! (unat (selected_box_id s) - 1)
                 \<le> total_cents s + PulsesToCents (pulse_count s)"
    and nu: "unlocked_box_id s = 0"
  shows "\<exists>L B r M. HoneyVending_Every100ms now utc gpa gpb s =
     s\<lparr>last_check := now, total_cents := 0, last_coin_cents := PulsesToCents (pulse_count s),
       coins_detected := 0, honey_available := False, pulse_count := 0, selected_box_id := 0,
       lcd_rows := L, last_button_state := B, response := r, mqtt_out := M\<rparr>"
proof -
  define s2 where "s2 = CheckUnlockTimeout now (s\<lparr>last_check := now\<rparr>)"
  define s4 where "s4 = coin_detected now utc (PulsesToCents (pulse_count s2)) s2"
  have tk: "HoneyVending_Every100ms now utc gpa gpb s =
      (if \<not> initialized s then s
       else if now - last_check s < 100 then s
       else poll_buttons gpa gpb
              (if pulse_count s2 > 0 \<and> now - last_pulse_ms s2 \<ge> COIN_TIMEOUT_MS
               then (if PulsesToCents (pulse_count s2) > 0 then s4 else s2)\<lparr>pulse_count := 0\<rparr>
               else s2))"
    unfolding HoneyVending_Every100ms_def Let_def s4_def s2_def by (rule refl)
  have s2: "s2 = s\<lparr>last_check := now\<rparr>"
    using nu by (simp add: s2_def CheckUnlockTimeout_def)
  have f2: "pulse_count s2 = pulse_count s" "last_pulse_ms s2 = last_pulse_ms s"
    by (simp_all add: s2)
  have nd: "\<not> now - last_check s < 100"
    using due by (simp add: not_less)
  have tk': "HoneyVending_Every100ms now utc gpa gpb s = poll_buttons gpa gpb (s4\<lparr>pulse_count := 0\<rparr>)"
    using ini nd pc quiet coin by (simp only: tk f2) simp
  have v2: "box_count s2 < selected_box_id s2" "\<not> honey_available s2"
    "box_price s2 ! (unat (selected_box_id s2) - 1) \<le> total_cents s2 + PulsesToCents (pulse_count s2)"
    using st nh paid by (simp_all add: s2)
  obtain L r M where s4: "s4 =
     s2\<lparr>total_cents := 0, last_coin_cents := PulsesToCents (pulse_count s2), coins_detected := 0,
       honey_available := False, pulse_count := 0, selected_box_id := 0, lcd_rows := L,
       response := r, mqtt_out := M\<rparr>"
    unfolding s4_def using coin_detected_stale [OF v2, of now utc] by blast
  obtain L' B where pb: "poll_buttons gpa gpb (s4\<lparr>pulse_count := 0\<rparr>) =
      (s4\<lparr>pulse_count := 0\<rparr>)\<lparr>lcd_rows := L', last_button_state := B\<rparr>"
    using poll_buttons_upd by blast
  have "HoneyVending_Every100ms now utc gpa gpb s =
     s\<lparr>last_check := now, total_cents := 0, last_coin_cents := PulsesToCents (pulse_count s),
       coins_detected := 0, honey_available := False, pulse_count := 0, selected_box_id := 0,
       lcd_rows := L', last_button_state := B, response := r, mqtt_out := M\<rparr>"
    unfolding tk' pb by (simp add: s4 s2)
  then show ?thesis by blast
qed


lemma kiosk_available_after_sale:
  "fold (\<lambda>i n. if (replicate 30 True)[2 := False] ! i then n + 1 else n) [0..<20] (0 :: nat) = 19"
  by code_simp


text \<open>
  A sale of a box within the box count.  When the tick finds a complete burst of a known
  coin that brings the total to the price of the selected box, and the selected box lies
  within the box count, then the state the tick returns has that box unlocked and tracked
  from the tick's clock value, the box marked empty with the time of day, the status and
  time stamps saved to their settings slots, five messages handed to the broker when it is
  connected (system state after the coin, system state with the honey flag set, the box,
  the summary, system state after the reset), and the session fields back at their idle
  values.
\<close>

lemma sale_is_completed_within_the_tick:
  fixes s :: machine and now utc :: u32
  assumes "well_formed s" and "initialized s" and "100 \<le> now - last_check s"
    and "0 < pulse_count s" and "COIN_TIMEOUT_MS \<le> now - last_pulse_ms s"
    and "0 < PulsesToCents (pulse_count s)"
    and "1 \<le> selected_box_id s" and "selected_box_id s \<le> box_count s"
    and "\<not> honey_available s"
    and "box_price s ! (unat (selected_box_id s) - 1)
           \<le> total_cents s + PulsesToCents (pulse_count s)"
  shows "let s' = HoneyVending_Every100ms now utc gpa gpb s;
             b = selected_box_id s;
             i = unat (selected_box_id s) - 1;
             paid = total_cents s + PulsesToCents (pulse_count s);
             price = box_price s ! (unat (selected_box_id s) - 1);
             sys = system_topic (device_id s)
         in box_unlocked s' (unat b) \<and> unlocked_box_id s' = b \<and> unlock_start_ms s' = now \<and>
            box_status s' = (box_status s)[i := False] \<and> \<not> box_status s' ! i \<and>
            box_last_changed s' = (box_last_changed s)[i := utc] \<and>
            settings s' HONEY_SETTINGS_INDEX = status_text s' \<and>
            settings s' HONEY_TIMESTAMP_INDEX = timestamps_text s' \<and>
            mqtt_out s' = mqtt_out s @
              (if mqtt_connected s
               then [\<lparr>topic = sys,
                       body = SystemJson paid (CentsToEuroString paid 16)
                                price (CentsToEuroString price 16) b (coins_detected s + 1)
                                False (box_count s),
                       retained = True\<rparr>,
                     \<lparr>topic = sys,
                       body = SystemJson paid (CentsToEuroString paid 16)
                                price (CentsToEuroString price 16) b (coins_detected s + 1)
                                True (box_count s),
                       retained = True\<rparr>,
                     \<lparr>topic = box_topic (device_id s) b,
                       body = BoxJson b False price (CentsToEuroString price 16) utc,
                       retained = True\<rparr>,
                     \<lparr>topic = summary_topic (device_id s),
                       body = SummaryJson (unat (box_count s)) (available_count s')
                                (unat (box_count s) - available_count s'),
                       retained = True\<rparr>,
                     \<lparr>topic = sys,
                       body = SystemJson 0 (CentsToEuroString 0 16) 0 (CentsToEuroString 0 16)
                                0 0 False (box_count s),
                       retained = True\<rparr>]
               else []) \<and>
            selected_box_id s' = 0 \<and> total_cents s' = 0 \<and> coins_detected s' = 0 \<and>
            \<not> honey_available s' \<and> pulse_count s' = 0 \<and> box_count s' = box_count s"
proof -
  define s' where "s' = HoneyVending_Every100ms now utc gpa gpb s"
  let ?b = "selected_box_id s"
  let ?i = "unat (selected_box_id s) - 1"
  let ?paid = "total_cents s + PulsesToCents (pulse_count s)"
  let ?price = "box_price s ! (unat (selected_box_id s) - 1)"
  let ?sA = "s\<lparr>box_status := (box_status s)[?i := False],
       box_last_changed := (box_last_changed s)[?i := utc]\<rparr>"
  let ?sB = "s\<lparr>total_cents := ?paid, coins_detected := coins_detected s + 1\<rparr>"
  obtain R G L B where bu: "box_unlocked (s\<lparr>shift_reg_state := R\<rparr>) (unat ?b)"
    and e: "s' =
     s\<lparr>last_check := now,
       total_cents := 0, last_coin_cents := PulsesToCents (pulse_count s), coins_detected := 0,
       honey_available := False, pulse_count := 0, selected_box_id := 0,
       box_status := (box_status s)[?i := False],
       box_last_changed := (box_last_changed s)[?i := utc],
       settings := (settings s)
         (HONEY_SETTINGS_INDEX := status_text ?sA, HONEY_TIMESTAMP_INDEX := timestamps_text ?sA),
       shift_reg_state := R, gpio := G, unlocked_box_id := ?b, unlock_start_ms := now,
       lcd_rows := L, last_button_state := B, response := CmndDone,
       mqtt_out := mqtt_out s @
         (if mqtt_connected s
          then [\<lparr>topic = system_topic (device_id s), body = system_json ?sB, retained = True\<rparr>,
                \<lparr>topic = system_topic (device_id s),
                  body = system_json (?sB\<lparr>honey_available := True\<rparr>), retained = True\<rparr>,
                \<lparr>topic = box_topic (device_id s) ?b, body = box_json ?b ?sA, retained = True\<rparr>,
                \<lparr>topic = summary_topic (device_id s),
                  body = SummaryJson (unat (box_count s)) (available_count ?sA)
                    (unat (box_count s) - available_count ?sA),
                  retained = True\<rparr>,
                \<lparr>topic = system_topic (device_id s),
                  body = SystemJson 0 (CentsToEuroString 0 16) 0 (CentsToEuroString 0 16) 0 0
                           False (box_count s),
                  retained = True\<rparr>]
          else [])\<rparr>"
    unfolding s'_def using tick_sale [OF assms, of utc gpa gpb] by blast
  have i30: "?i < 30"
    using assms(1,7,8)
    by (simp add: well_formed_def MAX_HONEY_BOX_COUNT_def word_le_nat_alt word_one_le_iff unat_gt_0)
      (metis (no_types) One_nat_def Suc_pred diff_le_self le_trans less_Suc_eq_le not_less
         unat_gt_0 word_neq_0_conv)
  have li: "?i < length (box_status s)" "?i < length (box_last_changed s)"
    using assms(1) i30 by (simp_all add: well_formed_def MAX_HONEY_BOX_COUNT_def)
  have pos: "0 < ?b"
    using assms(7) by (simp add: word_one_le_iff word_neq_0_conv)
  have c1: "box_unlocked s' (unat ?b)"
    using bu by (simp add: e box_unlocked_def)
  have c2: "unlocked_box_id s' = ?b" "unlock_start_ms s' = now"
    "box_status s' = (box_status s)[?i := False]"
    "box_last_changed s' = (box_last_changed s)[?i := utc]"
    "selected_box_id s' = 0" "total_cents s' = 0" "coins_detected s' = 0"
    "\<not> honey_available s'" "pulse_count s' = 0" "box_count s' = box_count s"
    by (simp_all add: e)
  have c3: "\<not> box_status s' ! ?i"
    using li by (simp add: c2)
  have fe: "box_status s' = box_status ?sA" "box_last_changed s' = box_last_changed ?sA"
    "box_count s' = box_count ?sA"
    by (simp_all add: e)
  have cg: "status_text s' = status_text ?sA" "timestamps_text s' = timestamps_text ?sA"
    "available_count s' = available_count ?sA"
    by (rule status_text_cong [OF fe(1,3)] timestamps_text_cong [OF fe(2,3)]
          available_count_cong [OF fe(1,3)])+
  have c4: "settings s' HONEY_SETTINGS_INDEX = status_text s'"
    "settings s' HONEY_TIMESTAMP_INDEX = timestamps_text s'"
    unfolding cg by (simp_all add: e HONEY_SETTINGS_INDEX_def HONEY_TIMESTAMP_INDEX_def)
  have j1: "system_json ?sB = SystemJson ?paid (CentsToEuroString ?paid 16)
              ?price (CentsToEuroString ?price 16) ?b (coins_detected s + 1) False (box_count s)"
    "system_json (?sB\<lparr>honey_available := True\<rparr>) = SystemJson ?paid (CentsToEuroString ?paid 16)
              ?price (CentsToEuroString ?price 16) ?b (coins_detected s + 1) True (box_count s)"
    using pos assms(8,9) by (simp_all add: system_json_def Let_def)
  have j2: "box_json ?b ?sA = BoxJson ?b False ?price (CentsToEuroString ?price 16) utc"
    using li by (simp add: box_json_def)
  have c5: "mqtt_out s' = mqtt_out s @
              (if mqtt_connected s
               then [\<lparr>topic = system_topic (device_id s),
                       body = SystemJson ?paid (CentsToEuroString ?paid 16)
                                ?price (CentsToEuroString ?price 16) ?b (coins_detected s + 1)
                                False (box_count s),
                       retained = True\<rparr>,
                     \<lparr>topic = system_topic (device_id s),
                       body = SystemJson ?paid (CentsToEuroString ?paid 16)
                                ?price (CentsToEuroString ?price 16) ?b (coins_detected s + 1)
                                True (box_count s),
                       retained = True\<rparr>,
                     \<lparr>topic = box_topic (device_id s) ?b,
                       body = BoxJson ?b False ?price (CentsToEuroString ?price 16) utc,
                       retained = True\<rparr>,
                     \<lparr>topic = summary_topic (device_id s),
                       body = SummaryJson (unat (box_count s)) (available_count s')
                                (unat (box_count s) - available_count s'),
                       retained = True\<rparr>,
                     \<lparr>topic = system_topic (device_id s),
                       body = SystemJson 0 (CentsToEuroString 0 16) 0 (CentsToEuroString 0 16)
                                0 0 False (box_count s),
                       retained = True\<rparr>]
               else [])"
    unfolding cg j1 [symmetric] j2 [symmetric] by (simp add: e)
  show ?thesis
    unfolding Let_def s'_def [symmetric]
    using c1 c2 c3 c4 c5 by (intro conjI) 
qed

text \<open>
  The kiosk with box 3 selected and a 2-euro coin inserted, at the tick at 6000 ms.
\<close>

lemma sale_is_completed_at_the_kiosk:
  "well_formed paying_kiosk \<and> initialized paying_kiosk \<and>
   100 \<le> 6000 - last_check paying_kiosk \<and> 0 < pulse_count paying_kiosk \<and>
   COIN_TIMEOUT_MS \<le> 6000 - last_pulse_ms paying_kiosk \<and>
   0 < PulsesToCents (pulse_count paying_kiosk) \<and>
   1 \<le> selected_box_id paying_kiosk \<and> selected_box_id paying_kiosk \<le> box_count paying_kiosk \<and>
   \<not> honey_available paying_kiosk \<and>
   box_price paying_kiosk ! (unat (selected_box_id paying_kiosk) - 1)
     \<le> total_cents paying_kiosk + PulsesToCents (pulse_count paying_kiosk) \<and>
   selected_box_id paying_kiosk = 3 \<and>
   box_unlocked (HoneyVending_Every100ms 6000 1700000100 0xFF 0xFF paying_kiosk) 3 \<and>
   unlocked_box_id (HoneyVending_Every100ms 6000 1700000100 0xFF 0xFF paying_kiosk) = 3 \<and>
   unlock_start_ms (HoneyVending_Every100ms 6000 1700000100 0xFF 0xFF paying_kiosk) = 6000 \<and>
   \<not> box_status (HoneyVending_Every100ms 6000 1700000100 0xFF 0xFF paying_kiosk) ! 2 \<and>
   map body (drop 1 (mqtt_out (HoneyVending_Every100ms 6000 1700000100 0xFF 0xFF paying_kiosk))) =
     [SystemJson 200 (CentsToEuroString 200 16) 200 (CentsToEuroString 200 16) 3 1 False 20,
      SystemJson 200 (CentsToEuroString 200 16) 200 (CentsToEuroString 200 16) 3 1 True 20,
      BoxJson 3 False 200 (CentsToEuroString 200 16) 1700000100,
      SummaryJson 20 19 1,
      SystemJson 0 (CentsToEuroString 0 16) 0 (CentsToEuroString 0 16) 0 0 False 20] \<and>
   selected_box_id (HoneyVending_Every100ms 6000 1700000100 0xFF 0xFF paying_kiosk) = 0 \<and>
   total_cents (HoneyVending_Every100ms 6000 1700000100 0xFF 0xFF paying_kiosk) = 0 \<and>
   coins_detected (HoneyVending_Every100ms 6000 1700000100 0xFF 0xFF paying_kiosk) = 0 \<and>
   \<not> honey_available (HoneyVending_Every100ms 6000 1700000100 0xFF 0xFF paying_kiosk) \<and>
   pulse_count (HoneyVending_Every100ms 6000 1700000100 0xFF 0xFF paying_kiosk) = 0"
proof -
  define T where "T = HoneyVending_Every100ms 6000 1700000100 0xFF 0xFF paying_kiosk"
  have f: "initialized paying_kiosk" "last_check paying_kiosk = 0" "pulse_count paying_kiosk = 20"
    "last_pulse_ms paying_kiosk = 5400" "selected_box_id paying_kiosk = 3"
    "box_count paying_kiosk = 20" "\<not> honey_available paying_kiosk"
    "box_price paying_kiosk = replicate 30 200" "total_cents paying_kiosk = 0"
    "box_status paying_kiosk = replicate 30 True" "coins_detected paying_kiosk = 0"
    "mqtt_connected paying_kiosk" "length (mqtt_out paying_kiosk) = 1"
    by (simp_all add: paying_kiosk_eq) (simp_all add: kiosk_def)
  have wf: "well_formed paying_kiosk"
    using kiosk_wf by (simp add: well_formed_def paying_kiosk_eq)
  have h: "100 \<le> 6000 - last_check paying_kiosk" "0 < pulse_count paying_kiosk"
    "COIN_TIMEOUT_MS \<le> 6000 - last_pulse_ms paying_kiosk"
    "0 < PulsesToCents (pulse_count paying_kiosk)"
    "1 \<le> selected_box_id paying_kiosk" "selected_box_id paying_kiosk \<le> box_count paying_kiosk"
    by (simp_all add: f COIN_TIMEOUT_MS_def PulsesToCents_def)
  have p: "box_price paying_kiosk ! (unat (selected_box_id paying_kiosk) - 1)
     \<le> total_cents paying_kiosk + PulsesToCents (pulse_count paying_kiosk)"
    by (simp add: f PulsesToCents_def)
  note t = sale_is_completed_within_the_tick [OF wf f(1) h f(7) p,
      of 1700000100 "0xFF" "0xFF", unfolded Let_def, folded T_def]
  have u3: "unat (selected_box_id paying_kiosk) = 3" "unat (selected_box_id paying_kiosk) - 1 = 2"
    by (simp_all add: f)
  have a: "box_unlocked T 3" "unlocked_box_id T = 3" "unlock_start_ms T = 6000"
    "\<not> box_status T ! 2" "selected_box_id T = 0" "total_cents T = 0" "coins_detected T = 0"
    "\<not> honey_available T" "pulse_count T = 0"
    using t [THEN conjunct1] t [THEN conjunct2, THEN conjunct1] t [THEN conjunct2, THEN conjunct2, THEN conjunct1]
      t [THEN conjunct2, THEN conjunct2, THEN conjunct2, THEN conjunct2, THEN conjunct1] t [THEN conjunct2, THEN conjunct2, THEN conjunct2, THEN conjunct2, THEN conjunct2, THEN conjunct2, THEN conjunct2, THEN conjunct2, THEN conjunct2, THEN conjunct1] t [THEN conjunct2, THEN conjunct2, THEN conjunct2, THEN conjunct2, THEN conjunct2, THEN conjunct2, THEN conjunct2, THEN conjunct2, THEN conjunct2, THEN conjunct2, THEN conjunct1]
      t [THEN conjunct2, THEN conjunct2, THEN conjunct2, THEN conjunct2, THEN conjunct2, THEN conjunct2, THEN conjunct2, THEN conjunct2, THEN conjunct2, THEN conjunct2, THEN conjunct2, THEN conjunct1] t [THEN conjunct2, THEN conjunct2, THEN conjunct2, THEN conjunct2, THEN conjunct2, THEN conjunct2, THEN conjunct2, THEN conjunct2, THEN conjunct2, THEN conjunct2, THEN conjunct2, THEN conjunct2, THEN conjunct1] t [THEN conjunct2, THEN conjunct2, THEN conjunct2, THEN conjunct2, THEN conjunct2, THEN conjunct2, THEN conjunct2, THEN conjunct2, THEN conjunct2, THEN conjunct2, THEN conjunct2, THEN conjunct2, THEN conjunct2, THEN conjunct1]
    by (simp_all add: f(5))
  have bs: "box_status T = (replicate 30 True)[2 := False]" "box_count T = 20"
    using t [THEN conjunct2, THEN conjunct2, THEN conjunct2, THEN conjunct1] t [THEN conjunct2, THEN conjunct2, THEN conjunct2, THEN conjunct2, THEN conjunct2, THEN conjunct2, THEN conjunct2, THEN conjunct2, THEN conjunct2, THEN conjunct2, THEN conjunct2, THEN conjunct2, THEN conjunct2, THEN conjunct2] by (simp_all add: f)
  have ac: "available_count T = 19"
    by (simp add: available_count_def bs kiosk_available_after_sale)
  have m: "mqtt_out T = mqtt_out paying_kiosk @
     [\<lparr>topic = system_topic (device_id paying_kiosk),
        body = SystemJson 200 (CentsToEuroString 200 16) 200 (CentsToEuroString 200 16) 3 1 False 20,
        retained = True\<rparr>,
      \<lparr>topic = system_topic (device_id paying_kiosk),
        body = SystemJson 200 (CentsToEuroString 200 16) 200 (CentsToEuroString 200 16) 3 1 True 20,
        retained = True\<rparr>,
      \<lparr>topic = box_topic (device_id paying_kiosk) 3,
        body = BoxJson 3 False 200 (CentsToEuroString 200 16) 1700000100, retained = True\<rparr>,
      \<lparr>topic = summary_topic (device_id paying_kiosk), body = SummaryJson 20 19 1,
        retained = True\<rparr>,
      \<lparr>topic = system_topic (device_id paying_kiosk),
        body = SystemJson 0 (CentsToEuroString 0 16) 0 (CentsToEuroString 0 16) 0 0 False 20,
        retained = True\<rparr>]"
    using t [THEN conjunct2, THEN conjunct2, THEN conjunct2, THEN conjunct2, THEN conjunct2, THEN conjunct2, THEN conjunct2, THEN conjunct2, THEN conjunct1] by (simp add: u3 f ac PulsesToCents_def)
  have d: "map body (drop 1 (mqtt_out T)) =
     [SystemJson 200 (CentsToEuroString 200 16) 200 (CentsToEuroString 200 16) 3 1 False 20,
      SystemJson 200 (CentsToEuroString 200 16) 200 (CentsToEuroString 200 16) 3 1 True 20,
      BoxJson 3 False 200 (CentsToEuroString 200 16) 1700000100,
      SummaryJson 20 19 1,
      SystemJson 0 (CentsToEuroString 0 16) 0 (CentsToEuroString 0 16) 0 0 False 20]"
    using f(13) by (simp add: m)
  show ?thesis
    unfolding T_def [symmetric]
    using wf f(1,5,7) h p a d by (intro conjI)
qed


text \<open>
  C1.  The kiosk after box 20 was selected, the box count lowered to 15 and a 2-euro coin
  inserted: a box is selected, and the completed burst of 20 pulses brings the total from 0
  to 200 cents, the price of box 20.  The tick at 6000 ms then resets the session
  (\<open>selected_box_id\<close>, \<open>total_cents\<close> and the pulse counter are 0
  afterwards), but \<open>UnlockBoxKey\<close> and \<open>HoneyVending_SetStatus\<close>
  both return at their range check: no output of the register chain is switched (the
  mirror is all zero and the solenoid of box 20 is not energized), no box is tracked as
  unlocked, and box 20 is still marked as filled.
\<close>

theorem paid_sale_of_a_box_beyond_the_count_unlocks_nothing:
  "initialized shrunk_kiosk \<and> 100 \<le> 6000 - last_check shrunk_kiosk \<and>
   pulse_count shrunk_kiosk = 20 \<and> COIN_TIMEOUT_MS \<le> 6000 - last_pulse_ms shrunk_kiosk \<and>
   PulsesToCents (pulse_count shrunk_kiosk) = 200 \<and>
   selected_box_id shrunk_kiosk = 20 \<and> box_count shrunk_kiosk = 15 \<and>
   \<not> honey_available shrunk_kiosk \<and> total_cents shrunk_kiosk = 0 \<and>
   box_price shrunk_kiosk ! 19 = 200 \<and> box_status shrunk_kiosk ! 19 \<and>
   \<not> box_unlocked (HoneyVending_Every100ms 6000 1700000100 0xFF 0xFF shrunk_kiosk) 20 \<and>
   \<not> solenoid_on (HoneyVending_Every100ms 6000 1700000100 0xFF 0xFF shrunk_kiosk) 20 \<and>
   shift_reg_state (HoneyVending_Every100ms 6000 1700000100 0xFF 0xFF shrunk_kiosk) = [0, 0, 0, 0] \<and>
   unlocked_box_id (HoneyVending_Every100ms 6000 1700000100 0xFF 0xFF shrunk_kiosk) = 0 \<and>
   box_status (HoneyVending_Every100ms 6000 1700000100 0xFF 0xFF shrunk_kiosk) ! 19 \<and>
   selected_box_id (HoneyVending_Every100ms 6000 1700000100 0xFF 0xFF shrunk_kiosk) = 0 \<and>
   total_cents (HoneyVending_Every100ms 6000 1700000100 0xFF 0xFF shrunk_kiosk) = 0 \<and>
   pulse_count (HoneyVending_Every100ms 6000 1700000100 0xFF 0xFF shrunk_kiosk) = 0"
proof -
  define T where "T = HoneyVending_Every100ms 6000 1700000100 0xFF 0xFF shrunk_kiosk"
  obtain st r ms d l where k: "shrunk_kiosk =
     kiosk\<lparr>selected_box_id := 20, box_count := 15, settings := st, response := r,
       mqtt_out := ms, discovery_sent := d, last_publish_ms := l,
       first_pulse_ms := 5020, pulse_count := 20, last_pulse_ms := 5400\<rparr>"
    using shrunk_kiosk_eq by blast
  have f: "initialized shrunk_kiosk" "last_check shrunk_kiosk = 0" "pulse_count shrunk_kiosk = 20"
    "last_pulse_ms shrunk_kiosk = 5400" "selected_box_id shrunk_kiosk = 20"
    "box_count shrunk_kiosk = 15" "\<not> honey_available shrunk_kiosk"
    "box_price shrunk_kiosk = replicate 30 200" "total_cents shrunk_kiosk = 0"
    "box_status shrunk_kiosk = replicate 30 True" "unlocked_box_id shrunk_kiosk = 0"
    "shift_reg_state shrunk_kiosk = replicate 4 0" "gpio shrunk_kiosk = []"
    by (simp_all add: k) (simp_all add: kiosk_def)
  have h: "100 \<le> 6000 - last_check shrunk_kiosk" "0 < pulse_count shrunk_kiosk"
    "COIN_TIMEOUT_MS \<le> 6000 - last_pulse_ms shrunk_kiosk"
    "0 < PulsesToCents (pulse_count shrunk_kiosk)"
    "box_count shrunk_kiosk < selected_box_id shrunk_kiosk"
    by (simp_all add: f COIN_TIMEOUT_MS_def PulsesToCents_def)
  have p: "box_price shrunk_kiosk ! (unat (selected_box_id shrunk_kiosk) - 1)
     \<le> total_cents shrunk_kiosk + PulsesToCents (pulse_count shrunk_kiosk)"
    by (simp add: f PulsesToCents_def)
  obtain L B r' M where e: "T =
     shrunk_kiosk\<lparr>last_check := 6000, total_cents := 0,
       last_coin_cents := PulsesToCents (pulse_count shrunk_kiosk),
       coins_detected := 0, honey_available := False, pulse_count := 0, selected_box_id := 0,
       lcd_rows := L, last_button_state := B, response := r', mqtt_out := M\<rparr>"
    unfolding T_def
    using tick_stale_sale [OF f(1) h f(7) p f(11), of 1700000100 "0xFF" "0xFF"] by blast
  have g: "shift_reg_state T = shift_reg_state shrunk_kiosk"
    "unlocked_box_id T = unlocked_box_id shrunk_kiosk" "box_status T = box_status shrunk_kiosk"
    "selected_box_id T = 0" "total_cents T = 0" "pulse_count T = 0"
    "gpio T = gpio shrunk_kiosk"
    by (simp_all add: e)
  have so: "\<not> solenoid_on T 20"
    by (simp add: solenoid_on_def outputs_def g f chain_reset_def SOLENOID_ACTIVE_HIGH_def)
  have r4: "replicate 4 (0 :: u32) = [0, 0, 0, 0]"
    by (simp add: numeral_eq_Suc)
  have a: "\<not> box_unlocked T 20" "shift_reg_state T = [0, 0, 0, 0]" "unlocked_box_id T = 0"
    "box_status T ! 19"
    by (simp_all add: g f box_unlocked_def SOLENOID_ACTIVE_HIGH_def r4)
  have b: "PulsesToCents (pulse_count shrunk_kiosk) = 200" "box_price shrunk_kiosk ! 19 = 200"
    "box_status shrunk_kiosk ! 19"
    by (simp_all add: f PulsesToCents_def)
  show ?thesis
    unfolding T_def [symmetric]
    using f(1,3,5,6,7,9) h(1,3) a so b g(4,5,6) by (intro conjI)
qed


section \<open>The outputs of the register chain\<close>

lemma upt_32: "[0..<32] = [0,1,2,3,4,5,6,7,8,9,10,11,12,13,14,15,16,17,18,19,20,21,22,23,24,25,26,27,28,29,30,31]"
  by code_simp

lemma rev_upt_8: "rev [0..<8] = [7,6,5,4,3,2,1,0]"
  by code_simp

lemma rev_upt_4: "rev [0..<4] = [3,2,1,0]"
  by code_simp

lemma ShiftReg_Write_outputs:
  "outputs (ShiftReg_Write dat NUM_SHIFT_REGISTERS s) = mirror_bits dat"
  by (simp add: outputs_def ShiftReg_Write_def NUM_SHIFT_REGISTERS_def mirror_bits_def upt_32
        rev_upt_8 rev_upt_4 SHIFT_REG_LATCH_PIN_def SHIFT_REG_CLOCK_PIN_def SHIFT_REG_DATA_PIN_def)

lemma ShiftReg_Write_mirror [simp]:
  "shift_reg_state (ShiftReg_Write dat n s) = shift_reg_state s"
  by (simp add: ShiftReg_Write_def)

lemma in_sync_cong:
  "gpio s' = gpio s \<Longrightarrow> shift_reg_state s' = shift_reg_state s \<Longrightarrow> in_sync s' = in_sync s"
  by (simp add: in_sync_def outputs_def)


lemma ShiftReg_SetBit_syncs:
  "unat p < 32 \<Longrightarrow> in_sync (ShiftReg_SetBit p st s)"
  by (simp add: ShiftReg_SetBit_def Let_def in_sync_def
        ShiftReg_Write_outputs [unfolded NUM_SHIFT_REGISTERS_def] NUM_SHIFT_REGISTERS_def)



lemma UnlockBoxKey_syncs:
  assumes "1 \<le> b" "b \<le> box_count s" "unat b \<le> 32"
  shows "in_sync (UnlockBoxKey now b s)"
proof -
  let ?s1 = "if unlocked_box_id s > 0 then LockBoxKey (unlocked_box_id s) s else s"
  let ?s2 = "ShiftReg_SetBit (b - 1) SOLENOID_ACTIVE_HIGH ?s1"
  have nz: "0 < unat b" using assms(1) by (simp add: word_one_le_iff unat_gt_0)
  have p: "unat (b - 1) < 32" using assms(1,3) nz by (simp add: unat_minus_one_box)
  have "in_sync ?s2" using p by (rule ShiftReg_SetBit_syncs)
  moreover have "in_sync (?s2\<lparr>unlocked_box_id := b, unlock_start_ms := now\<rparr>) = in_sync ?s2"
    by (rule in_sync_cong) simp_all
  ultimately show ?thesis by (simp add: UnlockBoxKey_valid [OF assms])
qed


lemma in_sync_solenoid:
  "in_sync s \<Longrightarrow> 1 \<le> c \<Longrightarrow> c \<le> 32 \<Longrightarrow> solenoid_on s c = box_unlocked s c"
proof -
  assume a: "in_sync s" and c: "1 \<le> c" "c \<le> 32"
  have lt: "c - 1 < 32" using c by simp
  then have "[0..<32] ! (c - 1) = c - 1" by simp
  then show ?thesis
    using a lt
    by (simp add: in_sync_def solenoid_on_def box_unlocked_def mirror_bits_def del: One_nat_def)
qed

lemma kiosk_in_sync: "in_sync kiosk"
  by (simp add: in_sync_def outputs_def mirror_bits_def kiosk_def chain_reset_def upt_32)
    (simp add: numeral_eq_Suc)


section \<open>What a tick does to the locks\<close>

lemma lock_view_ShiftReg_SetBit:
  "lock_view s' = lock_view s \<Longrightarrow>
   lock_view (ShiftReg_SetBit p st s') = lock_view (ShiftReg_SetBit p st s)"
  by (simp add: lock_view_def ShiftReg_SetBit_def ShiftReg_Write_def Let_def)

lemma lock_view_LockBoxKey:
  "lock_view s' = lock_view s \<Longrightarrow> lock_view (LockBoxKey b s') = lock_view (LockBoxKey b s)"
  by (simp add: lock_view_def LockBoxKey_def ShiftReg_SetBit_def ShiftReg_Write_def Let_def)




lemma lock_view_PublishSystemMQTT [simp]:
  "lock_view (HoneyVending_PublishSystemMQTT s) = lock_view s"
  by (simp add: HoneyVending_PublishSystemMQTT_eq lock_view_def)

lemma lock_view_CmndVendingReset [simp]:
  "lock_view (CmndVendingReset s) = lock_view s"
  by (simp add: CmndVendingReset_upd lock_view_def)














lemma replicate_4_zero: "replicate 4 (0 :: u32) = [0, 0, 0, 0]"
  by (simp add: numeral_eq_Suc)

lemma mirror_after_two_unlocks:
  "[0, 0, 0, 0 :: u32][2 := 8] = [0, 0, 8, 0]" "[0, 0, 8, 0 :: u32][0 := 16] = [16, 0, 8, 0]"
  by code_simp+


section \<open>Unlock timeout and sales inside the window\<close>





section \<open>Unlocking after the box count was lowered\<close>

text \<open>
  C3.  The kiosk after box 20 was unlocked, the box count lowered to 15 and box 5
  unlocked.  When box 5 is unlocked, box 20 is still tracked and unlocked; the call
  \<open>LockBoxKey(20)\<close> that \<open>UnlockBoxKey\<close> makes first returns at its range
  check and changes nothing.  Afterwards box 5 is the tracked box, and the outputs of
  boxes 5 and 20 both have the unlock polarity, in the mirror and at the register chain.
\<close>

theorem unlock_after_the_count_was_lowered_leaves_two_boxes_unlocked:
  "unlocked_box_id (HoneyVending_SetBoxCount 5000 1700000000 15 (UnlockBoxKey 1000 20 kiosk)) = 20 \<and>
   box_count (HoneyVending_SetBoxCount 5000 1700000000 15 (UnlockBoxKey 1000 20 kiosk)) = 15 \<and>
   box_unlocked (HoneyVending_SetBoxCount 5000 1700000000 15 (UnlockBoxKey 1000 20 kiosk)) 20 \<and>
   LockBoxKey 20 (HoneyVending_SetBoxCount 5000 1700000000 15 (UnlockBoxKey 1000 20 kiosk)) =
     HoneyVending_SetBoxCount 5000 1700000000 15 (UnlockBoxKey 1000 20 kiosk) \<and>
   unlocked_box_id two_open = 5 \<and> unlock_start_ms two_open = 9000 \<and>
   shift_reg_state two_open = [16, 0, 8, 0] \<and>
   box_unlocked two_open 5 \<and> box_unlocked two_open 20 \<and>
   solenoid_on two_open 5 \<and> solenoid_on two_open 20"
proof -
  define u where "u = UnlockBoxKey 1000 20 kiosk"
  define S where "S = HoneyVending_SetBoxCount 5000 1700000000 15 u"
  have k: "box_count kiosk = 20" "unlocked_box_id kiosk = 0" "shift_reg_state kiosk = [0, 0, 0, 0]"
    by (simp_all add: kiosk_def replicate_4_zero)
  have i: "unat (20 - 1 :: u8) div 8 = 2" "unat (20 - 1 :: u8) mod 8 = 3"
    "unat (5 - 1 :: u8) div 8 = 0" "unat (5 - 1 :: u8) mod 8 = 4"
    by simp_all
  have ru: "shift_reg_state u = [0, 0, 8, 0]" "unlocked_box_id u = 20"
    by (simp_all add: u_def UnlockBoxKey_def ShiftReg_SetBit_def Let_def k i
          NUM_SHIFT_REGISTERS_def SOLENOID_ACTIVE_HIGH_def mirror_after_two_unlocks)
  obtain bs lc bp st r ms d l where "S =
       u\<lparr>box_count := (if (15 :: u8) < 1 \<or> unat (15 :: u8) > MAX_HONEY_BOX_COUNT
                          then box_count u else 15),
         box_status := bs, box_last_changed := lc, box_price := bp, settings := st,
         response := r, mqtt_out := mqtt_out u @ ms, discovery_sent := d, last_publish_ms := l\<rparr>"
    using HoneyVending_SetBoxCount_upd [of 5000 1700000000 15 u] unfolding S_def by blast
  then have S: "S = u\<lparr>box_count := 15,
         box_status := bs, box_last_changed := lc, box_price := bp, settings := st,
         response := r, mqtt_out := mqtt_out u @ ms, discovery_sent := d, last_publish_ms := l\<rparr>"
    by (simp add: MAX_HONEY_BOX_COUNT_def)
  have f: "box_count S = 15" "unlocked_box_id S = 20" "shift_reg_state S = [0, 0, 8, 0]"
    using ru by (simp_all add: S)
  have b20: "box_unlocked S 20"
    by (simp add: box_unlocked_def f SOLENOID_ACTIVE_HIGH_def)
  have lk: "LockBoxKey 20 S = S"
    by (simp add: LockBoxKey_invalid f)
  have v: "(1 :: u8) \<le> 5" "5 \<le> box_count S" "unat (5 :: u8) \<le> 32"
    by (simp_all add: f)
  have t: "two_open = (ShiftReg_SetBit (5 - 1) SOLENOID_ACTIVE_HIGH S)
                        \<lparr>unlocked_box_id := 5, unlock_start_ms := 9000\<rparr>"
    unfolding two_open_def u_def [symmetric] S_def [symmetric]
    by (simp add: UnlockBoxKey_valid [OF v] f lk)
  have rt: "shift_reg_state two_open = [16, 0, 8, 0]" "unlocked_box_id two_open = 5"
    "unlock_start_ms two_open = 9000"
    by (simp_all add: t ShiftReg_SetBit_def Let_def f i NUM_SHIFT_REGISTERS_def
          SOLENOID_ACTIVE_HIGH_def mirror_after_two_unlocks)
  have bu: "box_unlocked two_open 5" "box_unlocked two_open 20"
    by (simp_all add: box_unlocked_def rt SOLENOID_ACTIVE_HIGH_def)
  have sy: "in_sync two_open"
    unfolding two_open_def u_def [symmetric] S_def [symmetric]
    using v by (rule UnlockBoxKey_syncs)
  have so: "solenoid_on two_open 5" "solenoid_on two_open 20"
    using in_sync_solenoid [OF sy] bu by simp_all
  show ?thesis
    using f(1,2) b20 lk rt bu so unfolding S_def u_def by simp
qed


end
